(* ===== verification/Prelude.thy ===== *)
theory Prelude
  imports Main "HOL-Library.Word"
begin

text \<open>
  Shared vocabulary of the development.

  \<^item> Machine integers: unsigned Rust integers are words of their width; signed ones are
    mathematical integers with the two's complement wrap written out (\<open>wrap_i32\<close>, \<open>wrap_i64\<close>,
    \<open>wrap_i128\<close>); \<open>usize\<close> values, which only count accounts and bytes here, are \<open>nat\<close>.
  \<^item> \<open>outcome\<close>: what a Rust call can do: return \<open>Ok\<close>, return \<open>Err\<close>, panic, or (for a loop whose
    progress is in the hands of a library) never return.
  \<^item> Checked, saturating and wrapping arithmetic of the Rust standard library.
  \<^item> Byte strings: slices with bounds check, little-endian integers and their round trip.
\<close>

unbundle bit_operations_syntax

type_synonym u8 = "8 word"
type_synonym u16 = "16 word"
type_synonym u32 = "32 word"
type_synonym u64 = "64 word"
type_synonym u128 = "128 word"
type_synonym i32 = int
type_synonym i64 = int
type_synonym i128 = int
type_synonym bytes = "u8 list"

text \<open>A public key is its 32 bytes, as \<open>Pubkey::new_from_array\<close> takes them.\<close>

type_synonym pubkey = bytes

named_theorems outcome_simps \<open>equations and inversions of the outcome type\<close>
named_theorems word_arith \<open>checked and saturating word arithmetic read on natural numbers\<close>
named_theorems byte_simps \<open>lengths and round trips of byte encodings\<close>

subsection \<open>Outcomes\<close>

datatype ('e, 'a) outcome = Ok 'a | Err 'e | Panic | Diverge

fun and_then :: "('e, 'a) outcome \<Rightarrow> ('a \<Rightarrow> ('e, 'b) outcome) \<Rightarrow> ('e, 'b) outcome" where
  "and_then (Ok a) k = k a"
| "and_then (Err e) k = Err e"
| "and_then Panic k = Panic"
| "and_then Diverge k = Diverge"

fun map_err :: "('e \<Rightarrow> 'f) \<Rightarrow> ('e, 'a) outcome \<Rightarrow> ('f, 'a) outcome" where
  "map_err g (Ok a) = Ok a"
| "map_err g (Err e) = Err (g e)"
| "map_err g Panic = Panic"
| "map_err g Diverge = Diverge"

text \<open>\<open>Option::ok_or\<close> and the reading of a diverging \<open>partial_function\<close> as an outcome.\<close>

definition ok_or :: "'a option \<Rightarrow> 'e \<Rightarrow> ('e, 'a) outcome" where
  "ok_or x e = (case x of None \<Rightarrow> Err e | Some a \<Rightarrow> Ok a)"

definition of_run :: "('e, 'a) outcome option \<Rightarrow> ('e, 'a) outcome" where
  "of_run r = (case r of None \<Rightarrow> Diverge | Some v \<Rightarrow> v)"

definition is_ok :: "('e, 'a) outcome \<Rightarrow> bool" where
  "is_ok r = (case r of Ok _ \<Rightarrow> True | _ \<Rightarrow> False)"

text \<open>\<open>Result::ok\<close>: the error is dropped.\<close>

fun result_ok :: "('e, 'a) outcome \<Rightarrow> ('f, 'a option) outcome" where
  "result_ok (Ok a) = Ok (Some a)"
| "result_ok (Err e) = Ok None"
| "result_ok Panic = Panic"
| "result_ok Diverge = Diverge"

text \<open>A method that mutates \<open>self\<close> and may fail: the state after it, whatever the outcome, and the outcome.\<close>

fun st_then :: "'s \<times> ('e, 'a) outcome \<Rightarrow> ('s \<Rightarrow> 'a \<Rightarrow> 's \<times> ('e, 'b) outcome) \<Rightarrow> 's \<times> ('e, 'b) outcome" where
  "st_then (s, Ok a) k = k s a"
| "st_then (s, Err e) k = (s, Err e)"
| "st_then (s, Panic) k = (s, Panic)"
| "st_then (s, Diverge) k = (s, Diverge)"

text \<open>Indexing \<open>xs[i]\<close>: a panic out of range.\<close>

definition index_or_panic :: "'a list \<Rightarrow> nat \<Rightarrow> ('e, 'a) outcome" where
  "index_or_panic xs i = (if i < length xs then Ok (xs ! i) else Panic)"

lemma index_or_panic_nth [simp]: "i < length xs \<Longrightarrow> index_or_panic xs i = Ok (xs ! i)"
  by (simp add: index_or_panic_def)

lemma st_then_Ok_iff [outcome_simps]:
  "st_then m k = (s', Ok b) \<longleftrightarrow> (\<exists>s a. m = (s, Ok a) \<and> k s a = (s', Ok b))"
  by (cases "(m, k)" rule: st_then.cases) auto

text \<open>What every step keeps, a sequence of steps keeps, wherever it stops.\<close>

lemma st_then_keeps:
  assumes "P (fst m)" and "\<And>s a. m = (s, Ok a) \<Longrightarrow> P s \<Longrightarrow> P (fst (k s a))"
  shows "P (fst (st_then m k))"
  using assms by (cases "(m, k)" rule: st_then.cases) auto

lemma and_then_assoc: "and_then (and_then m f) g = and_then m (\<lambda>a. and_then (f a) g)"
  by (cases m) simp_all

lemma and_then_cong:
  "m = m' \<Longrightarrow> (\<And>a. m' = Ok a \<Longrightarrow> f a = g a) \<Longrightarrow> and_then m f = and_then m' g"
  by (cases m') simp_all

lemma and_then_Ok_iff [outcome_simps]:
  "and_then m k = Ok b \<longleftrightarrow> (\<exists>a. m = Ok a \<and> k a = Ok b)"
  by (cases m) auto

lemma and_then_Err_iff [outcome_simps]:
  "and_then m k = Err e \<longleftrightarrow> m = Err e \<or> (\<exists>a. m = Ok a \<and> k a = Err e)"
  by (cases m) auto

lemma and_then_Panic_iff [outcome_simps]:
  "and_then m k = Panic \<longleftrightarrow> m = Panic \<or> (\<exists>a. m = Ok a \<and> k a = Panic)"
  by (cases m) auto

lemma and_then_Diverge_iff [outcome_simps]:
  "and_then m k = Diverge \<longleftrightarrow> m = Diverge \<or> (\<exists>a. m = Ok a \<and> k a = Diverge)"
  by (cases m) auto

lemma map_err_Ok_iff [outcome_simps]: "map_err g m = Ok b \<longleftrightarrow> m = Ok b"
  by (cases m) auto

lemma map_err_Err_iff [outcome_simps]: "map_err g m = Err f \<longleftrightarrow> (\<exists>e. m = Err e \<and> f = g e)"
  by (cases m) auto

lemma map_err_Panic_iff [outcome_simps]: "map_err g m = Panic \<longleftrightarrow> m = Panic"
  by (cases m) auto

lemma map_err_Diverge_iff [outcome_simps]: "map_err g m = Diverge \<longleftrightarrow> m = Diverge"
  by (cases m) auto

lemma ok_or_simps [simp]: "ok_or None e = Err e" "ok_or (Some a) e = Ok a"
  by (simp_all add: ok_or_def)

lemma ok_or_Ok_iff [outcome_simps]: "ok_or x e = Ok a \<longleftrightarrow> x = Some a"
  by (cases x) auto

lemma ok_or_Err_iff [outcome_simps]: "ok_or x e = Err f \<longleftrightarrow> x = None \<and> f = e"
  by (cases x) auto

lemma ok_or_not_Panic [outcome_simps]: "ok_or x e \<noteq> Panic" "ok_or x e \<noteq> Diverge"
  by (cases x; simp)+

lemma of_run_simps [simp]: "of_run None = Diverge" "of_run (Some v) = v"
  by (simp_all add: of_run_def)

lemma is_ok_iff [outcome_simps]: "is_ok r \<longleftrightarrow> (\<exists>a. r = Ok a)"
  by (cases r) (auto simp: is_ok_def)

lemma is_ok_simps [simp]:
  "is_ok (Ok a) = True" "is_ok (Err e) = False" "is_ok Panic = False" "is_ok Diverge = False"
  by (simp_all add: is_ok_def)

text \<open>The same for what only a failing run keeps.\<close>

lemma st_then_failing:
  assumes "\<not> is_ok (snd (st_then m k))" and "P (fst m)"
    and "\<And>s a. m = (s, Ok a) \<Longrightarrow> \<not> is_ok (snd (k s a)) \<Longrightarrow> P s \<Longrightarrow> P (fst (k s a))"
  shows "P (fst (st_then m k))"
  using assms by (cases "(m, k)" rule: st_then.cases) auto

text \<open>A call that comes back to its caller: no panic and no divergence.\<close>

definition returns :: "('e, 'a) outcome \<Rightarrow> bool" where
  "returns r \<longleftrightarrow> r \<noteq> Panic \<and> r \<noteq> Diverge"

named_theorems returns_intros \<open>which combinations of calls come back\<close>

lemma returns_simps [simp]:
  "returns (Ok a)" "returns (Err e)" "\<not> returns Panic" "\<not> returns Diverge"
  by (simp_all add: returns_def)

lemma returns_and_then [returns_intros]:
  "returns m \<Longrightarrow> (\<And>a. m = Ok a \<Longrightarrow> returns (k a)) \<Longrightarrow> returns (and_then m k)"
  by (cases m) auto

lemma returns_ok_or [returns_intros, simp]: "returns (ok_or x e)"
  by (cases x) auto

lemma returns_map_err [simp]: "returns (map_err g m) = returns m"
  by (cases m) auto

lemma returns_if [returns_intros]:
  "(b \<Longrightarrow> returns x) \<Longrightarrow> (\<not> b \<Longrightarrow> returns y) \<Longrightarrow> returns (if b then x else y)"
  by simp

subsection \<open>Arithmetic of the Rust standard library\<close>

definition saturating_mul :: "'a::len word \<Rightarrow> 'a word \<Rightarrow> 'a word" where
  "saturating_mul a b = (if unat a * unat b < 2 ^ LENGTH('a) then a * b else - 1)"

definition saturating_sub :: "'a::len word \<Rightarrow> 'a word \<Rightarrow> 'a word" where
  "saturating_sub a b = (if b \<le> a then a - b else 0)"

definition checked_sub :: "'a::len word \<Rightarrow> 'a word \<Rightarrow> 'a word option" where
  "checked_sub a b = (if b \<le> a then Some (a - b) else None)"

definition checked_add :: "'a::len word \<Rightarrow> 'a word \<Rightarrow> 'a word option" where
  "checked_add a b = (if unat a + unat b < 2 ^ LENGTH('a) then Some (a + b) else None)"

definition wrap_i32 :: "int \<Rightarrow> i32" where
  "wrap_i32 x = (x + 2 ^ 31) mod 2 ^ 32 - 2 ^ 31"

definition wrap_i64 :: "int \<Rightarrow> i64" where
  "wrap_i64 x = (x + 2 ^ 63) mod 2 ^ 64 - 2 ^ 63"

definition wrap_i128 :: "int \<Rightarrow> i128" where
  "wrap_i128 x = (x + 2 ^ 127) mod 2 ^ 128 - 2 ^ 127"

definition saturating_i32 :: "int \<Rightarrow> i32" where
  "saturating_i32 x = max (- (2 ^ 31)) (min (2 ^ 31 - 1) x)"

definition in_i32 :: "int \<Rightarrow> bool" where
  "in_i32 x \<longleftrightarrow> - (2 ^ 31) \<le> x \<and> x < 2 ^ 31"

definition in_i64 :: "int \<Rightarrow> bool" where
  "in_i64 x \<longleftrightarrow> - (2 ^ 63) \<le> x \<and> x < 2 ^ 63"

lemma wrap_i32_id [word_arith]: "in_i32 x \<Longrightarrow> wrap_i32 x = x"
  by (simp add: wrap_i32_def in_i32_def)

lemma wrap_i32_range [word_arith]: "in_i32 (wrap_i32 x)"
  by (simp add: wrap_i32_def in_i32_def)

lemma wrap_i64_id [word_arith]: "in_i64 x \<Longrightarrow> wrap_i64 x = x"
  by (simp add: wrap_i64_def in_i64_def)

lemma unat_saturating_sub [word_arith]:
  "unat (saturating_sub a b) = unat a - unat b"
  by (auto simp: saturating_sub_def unat_sub word_le_nat_alt)

lemma checked_sub_Some_iff [word_arith]:
  "checked_sub a b = Some c \<longleftrightarrow> b \<le> a \<and> c = a - b"
  by (auto simp: checked_sub_def)

lemma checked_sub_unat [word_arith]:
  "checked_sub a b = Some c \<Longrightarrow> unat a = unat b + unat c"
  by (auto simp: checked_sub_def unat_sub word_le_nat_alt split: if_splits)

lemma checked_add_unat [word_arith]:
  "checked_add a b = Some c \<Longrightarrow> unat c = unat a + unat b"
  by (auto simp: checked_add_def unat_word_ariths split: if_splits)

lemma unat_saturating_mul [word_arith]:
  fixes a b :: "'a::len word"
  shows "unat (saturating_mul a b) = min (unat a * unat b) (2 ^ LENGTH('a) - 1)"
  by (auto simp: saturating_mul_def unat_word_ariths unsigned_minus_1_eq_mask mask_eq_exp_minus_1)

lemma unat_u8_less [simp]: "unat (b :: u8) < 256"
  using unsigned_less [of b] by simp

lemma unat_u64_less [simp]: "unat (w :: u64) < 18446744073709551616"
  using unsigned_less [of w] by simp

lemma u64_gap_decreases:
  "a < b \<Longrightarrow> 18446744073709551616 - unat (b :: u64) < 18446744073709551616 - unat a"
  by (rule diff_less_mono2) (simp_all add: word_less_nat_alt)

lemma word_sub_le_mono:
  fixes a x c :: "'a::len word"
  shows "a \<le> x \<Longrightarrow> x \<le> c \<Longrightarrow> c - x \<le> c - a"
  by (simp add: word_le_nat_alt unat_sub)

lemma word_sub_le_mono2:
  fixes c x b :: "'a::len word"
  shows "c \<le> x \<Longrightarrow> x \<le> b \<Longrightarrow> x - c \<le> b - c"
  by (simp add: word_le_nat_alt unat_sub)

lemma uint_u8_less [simp]: "uint (b :: u8) < 256"
  using unsigned_less [of b, where 'a = int] by simp

lemma unat_of_nat_u8 [word_arith]: "n < 256 \<Longrightarrow> unat (word_of_nat n :: u8) = n"
  by (simp add: unat_of_nat)

subsection \<open>Byte strings\<close>

text \<open>\<open>data.get(a..b)\<close>: \<open>None\<close> when the range does not lie inside the slice.\<close>

definition slice_get :: "nat \<Rightarrow> nat \<Rightarrow> 'a list \<Rightarrow> 'a list option" where
  "slice_get a b xs = (if a \<le> b \<and> b \<le> length xs then Some (take (b - a) (drop a xs)) else None)"

definition list_get :: "nat \<Rightarrow> 'a list \<Rightarrow> 'a option" where
  "list_get i xs = (if i < length xs then Some (xs ! i) else None)"

fun nat_le_bytes :: "nat \<Rightarrow> nat \<Rightarrow> bytes" where
  "nat_le_bytes 0 n = []"
| "nat_le_bytes (Suc k) n = word_of_nat (n mod 256) # nat_le_bytes k (n div 256)"

fun le_bytes_nat :: "bytes \<Rightarrow> nat" where
  "le_bytes_nat [] = 0"
| "le_bytes_nat (b # bs) = unat b + 256 * le_bytes_nat bs"

definition to_le_bytes :: "nat \<Rightarrow> 'a::len word \<Rightarrow> bytes" where
  "to_le_bytes k w = nat_le_bytes k (unat w)"

definition from_le_bytes :: "bytes \<Rightarrow> 'a::len word" where
  "from_le_bytes bs = word_of_nat (le_bytes_nat bs)"

lemma slice_get_Some_iff [byte_simps]:
  "slice_get a b xs = Some ys \<longleftrightarrow> a \<le> b \<and> b \<le> length xs \<and> ys = take (b - a) (drop a xs)"
  by (auto simp: slice_get_def)

lemma slice_get_length [byte_simps]: "slice_get a b xs = Some ys \<Longrightarrow> length ys = b - a"
  by (auto simp: slice_get_def split: if_splits)

lemma list_get_Some_iff [byte_simps]: "list_get i xs = Some x \<longleftrightarrow> i < length xs \<and> x = xs ! i"
  by (auto simp: list_get_def)

lemma list_get_None_iff [byte_simps]: "list_get i xs = None \<longleftrightarrow> length xs \<le> i"
  by (auto simp: list_get_def)

lemma length_nat_le_bytes [simp]: "length (nat_le_bytes k n) = k"
  by (induction k n rule: nat_le_bytes.induct) auto

lemma length_to_le_bytes [simp]: "length (to_le_bytes k w) = k"
  by (simp add: to_le_bytes_def)

lemma nat_le_bytes_zero: "nat_le_bytes k 0 = replicate k 0"
  by (induction k) simp_all

lemma le_bytes_nat_of_nat: "le_bytes_nat (nat_le_bytes k n) = n mod 256 ^ k"
proof (induction k n rule: nat_le_bytes.induct)
  case (2 k n)
  have "unat (word_of_nat (n mod 256) :: u8) = n mod 256"
    by (simp add: unat_of_nat)
  then show ?case
    using "2" by (simp add: mod_mult2_eq)
qed simp

lemma from_to_le_bytes [byte_simps]:
  fixes w :: "'a::len word"
  assumes "LENGTH('a) \<le> 8 * k"
  shows "from_le_bytes (to_le_bytes k w) = w"
proof -
  have "unat w < 2 ^ LENGTH('a)"
    by (rule unsigned_less)
  also have "\<dots> \<le> 2 ^ (8 * k)"
    using assms by (rule power_increasing) simp
  also have "\<dots> = (256::nat) ^ k"
    by (simp add: power_mult)
  finally show ?thesis
    by (simp add: from_le_bytes_def to_le_bytes_def le_bytes_nat_of_nat)
qed

subsection \<open>Text\<close>

fun digits :: "nat \<Rightarrow> string" where
  "digits n = (if n < 10 then [char_of (48 + n)] else digits (n div 10) @ [char_of (48 + n mod 10)])"

declare digits.simps [simp del]

definition show_int :: "int \<Rightarrow> string" where
  "show_int i = (if i < 0 then ''-'' @ digits (nat (- i)) else digits (nat i))"

definition str_bytes :: "string \<Rightarrow> bytes" where
  "str_bytes s = map (\<lambda>c. word_of_nat (of_char c)) s"

text \<open>\<open>haystack.contains(needle)\<close>.\<close>

fun contains :: "string \<Rightarrow> string \<Rightarrow> bool" where
  "contains [] needle \<longleftrightarrow> needle = []"
| "contains (c # cs) needle \<longleftrightarrow> take (length needle) (c # cs) = needle \<or> contains cs needle"

lemma contains_iff: "contains s needle \<longleftrightarrow> (\<exists>pre post. s = pre @ needle @ post)"
proof (induction s)
  case (Cons c cs)
  have "take (length needle) (c # cs) = needle \<longleftrightarrow> (\<exists>post. c # cs = needle @ post)"
    by (metis append_eq_conv_conj append_take_drop_id)
  then show ?case
    using Cons.IH by (auto simp: Cons_eq_append_conv)
qed auto

end
