(* ===== verification/Float64.thy ===== *)
theory Float64
  imports Complex_Main "HOL-Library.Log_Nat" Prelude
begin

text \<open>
  The \<open>f64\<close> values of the price code (\<open>src/byreal_clmm/core.rs\<close>, \<open>src/trading_venue/mod.rs\<close>):
  IEEE binary64 as a rational number, an infinity or NaN, with every arithmetic result rounded to
  nearest, ties to even, at 53 bits and the exponent range of the format.  The sign of a zero is
  not represented: every zero the code computes comes from unsigned integers and is positive.
\<close>

datatype f64 = NaN | Infinite bool | Fin rat

subsection \<open>Rounding\<close>

definition pow2 :: "int \<Rightarrow> rat" where
  "pow2 k = (if 0 \<le> k then 2 ^ nat k else 1 / 2 ^ nat (- k))"

definition round_half_even :: "rat \<Rightarrow> int" where
  "round_half_even q =
     (let n = \<lfloor>q\<rfloor>; r = q - of_int n
      in if r < 1 / 2 then n else if 1 / 2 < r then n + 1 else if even n then n else n + 1)"

text \<open>The binary exponent of a positive rational.\<close>

definition ilog2 :: "rat \<Rightarrow> int" where
  "ilog2 q =
     (let (n, d) = quotient_of q; k = bitlen n - bitlen d
      in if pow2 k \<le> q then k else k - 1)"

definition round_mag :: "rat \<Rightarrow> rat" where
  "round_mag q =
     (let e = max (ilog2 q - 52) (- 1074)
      in of_int (round_half_even (q / pow2 e)) * pow2 e)"

definition f64_of_rat :: "rat \<Rightarrow> f64" where
  "f64_of_rat q =
     (if q = 0 then Fin 0
      else let r = round_mag \<bar>q\<bar>
           in if 2 ^ 1024 \<le> r then Infinite (q < 0) else Fin (if q < 0 then - r else r))"

subsection \<open>Operations\<close>

definition f64_of_word :: "'a::len word \<Rightarrow> f64" where
  "f64_of_word w = f64_of_rat (of_nat (unat w))"

fun f64_mul :: "f64 \<Rightarrow> f64 \<Rightarrow> f64" where
  "f64_mul (Fin a) (Fin b) = f64_of_rat (a * b)"
| "f64_mul (Fin a) (Infinite s) = (if a = 0 then NaN else Infinite (s \<noteq> (a < 0)))"
| "f64_mul (Infinite s) (Fin a) = (if a = 0 then NaN else Infinite (s \<noteq> (a < 0)))"
| "f64_mul (Infinite s) (Infinite t) = Infinite (s \<noteq> t)"
| "f64_mul _ _ = NaN"

fun f64_div :: "f64 \<Rightarrow> f64 \<Rightarrow> f64" where
  "f64_div (Fin a) (Fin b) =
     (if b = 0 then (if a = 0 then NaN else Infinite (a < 0)) else f64_of_rat (a / b))"
| "f64_div (Fin a) (Infinite s) = Fin 0"
| "f64_div (Infinite s) (Fin b) = Infinite (s \<noteq> (b < 0))"
| "f64_div _ _ = NaN"

fun f64_le :: "f64 \<Rightarrow> f64 \<Rightarrow> bool" where
  "f64_le NaN _ = False"
| "f64_le _ NaN = False"
| "f64_le (Infinite s) (Infinite t) = (s \<or> \<not> t)"
| "f64_le (Infinite s) (Fin b) = s"
| "f64_le (Fin a) (Infinite t) = (\<not> t)"
| "f64_le (Fin a) (Fin b) = (a \<le> b)"

fun f64_lt :: "f64 \<Rightarrow> f64 \<Rightarrow> bool" where
  "f64_lt NaN _ = False"
| "f64_lt _ NaN = False"
| "f64_lt (Infinite s) (Infinite t) = (s \<and> \<not> t)"
| "f64_lt (Infinite s) (Fin b) = s"
| "f64_lt (Fin a) (Infinite t) = (\<not> t)"
| "f64_lt (Fin a) (Fin b) = (a < b)"

fun f64_is_finite :: "f64 \<Rightarrow> bool" where
  "f64_is_finite (Fin _) = True"
| "f64_is_finite _ = False"

text \<open>\<open>f64::min\<close> and \<open>f64::max\<close> return the other operand when one is NaN.\<close>

definition f64_min :: "f64 \<Rightarrow> f64 \<Rightarrow> f64" where
  "f64_min a b = (if a = NaN then b else if b = NaN then a else if f64_le a b then a else b)"

definition f64_max :: "f64 \<Rightarrow> f64 \<Rightarrow> f64" where
  "f64_max a b = (if a = NaN then b else if b = NaN then a else if f64_le a b then b else a)"

text \<open>\<open>f64::clamp\<close> panics unless \<open>lo \<le> hi\<close> (so also when a bound is NaN).\<close>

definition f64_clamp :: "f64 \<Rightarrow> f64 \<Rightarrow> f64 \<Rightarrow> ('e, f64) outcome" where
  "f64_clamp x lo hi =
     (if f64_le lo hi
      then Ok (if f64_lt x lo then lo else if f64_lt hi x then hi else x)
      else Panic)"

subsection \<open>Order\<close>

lemma f64_le_refl [simp]: "f64_le a a \<longleftrightarrow> a \<noteq> NaN"
  by (cases a) auto

lemma f64_le_trans: "f64_le a b \<Longrightarrow> f64_le b c \<Longrightarrow> f64_le a c"
  by (cases a; cases b; cases c) auto

lemma f64_lt_iff: "f64_lt a b \<longleftrightarrow> f64_le a b \<and> \<not> f64_le b a"
  by (cases a; cases b) auto

lemma f64_le_total: "a \<noteq> NaN \<Longrightarrow> b \<noteq> NaN \<Longrightarrow> f64_le a b \<or> f64_le b a"
  by (cases a; cases b) auto

lemma f64_le_not_NaN: "f64_le a b \<Longrightarrow> a \<noteq> NaN \<and> b \<noteq> NaN"
  by (cases a; cases b) auto

lemma f64_lt_le_trans: "f64_lt a b \<Longrightarrow> f64_le b c \<Longrightarrow> f64_lt a c"
  by (cases a; cases b; cases c) auto

lemma f64_min_le: "a \<noteq> NaN \<Longrightarrow> f64_le (f64_min a b) a"
  by (cases a; cases b) (auto simp: f64_min_def)

lemma f64_min_cases: "f64_min a b = a \<or> f64_min a b = b"
  by (auto simp: f64_min_def)

lemma f64_max_cases: "f64_max a b = a \<or> f64_max a b = b"
  by (auto simp: f64_max_def)

lemma f64_max_ge: "a \<noteq> NaN \<Longrightarrow> f64_le a (f64_max a b)"
  by (cases a; cases b) (auto simp: f64_max_def)

lemma f64_max_ge2: "b \<noteq> NaN \<Longrightarrow> f64_le b (f64_max a b)"
  by (cases a; cases b) (auto simp: f64_max_def)

lemma f64_clamp_Ok_bounds:
  assumes "f64_clamp x lo hi = Ok y" and "x \<noteq> NaN"
  shows "f64_le lo y \<and> f64_le y hi"
  using assms f64_le_total [of x lo] f64_le_total [of x hi] f64_le_not_NaN [of lo hi]
  by (auto simp: f64_clamp_def f64_lt_iff split: if_splits)

lemma f64_clamp_total: "f64_le lo hi \<Longrightarrow> \<exists>y. f64_clamp x lo hi = Ok y"
  by (simp add: f64_clamp_def)

subsection \<open>Rounding keeps positivity\<close>

lemma pow2_pos [simp]: "0 < pow2 k"
  by (simp add: pow2_def)

lemma round_half_even_bounds: "\<lfloor>q\<rfloor> \<le> round_half_even q \<and> round_half_even q \<le> \<lfloor>q\<rfloor> + 1"
  by (auto simp: round_half_even_def Let_def)

lemma round_half_even_nonneg: "0 \<le> q \<Longrightarrow> 0 \<le> round_half_even q"
  using round_half_even_bounds [of q] by (meson order_trans zero_le_floor)

lemma round_mag_nonneg:
  assumes "0 \<le> q"
  shows "0 \<le> round_mag q"
proof -
  have "0 \<le> round_half_even (q / pow2 e)" for e
    using assms by (intro round_half_even_nonneg divide_nonneg_pos) simp_all
  then show ?thesis
    by (simp add: round_mag_def Let_def zero_le_mult_iff less_imp_le)
qed

lemma f64_of_rat_nonneg: "0 \<le> q \<Longrightarrow> f64_le (Fin 0) (f64_of_rat q)"
  using round_mag_nonneg [of q] by (auto simp: f64_of_rat_def Let_def)

lemma f64_of_rat_not_NaN [simp]: "f64_of_rat q \<noteq> NaN"
  by (auto simp: f64_of_rat_def Let_def)

end
