(* ===== verification/Venue_Types.thy ===== *)
theory Venue_Types
  imports Float64
begin

text \<open>
  The venue-independent vocabulary of \<open>src/trading_venue/\<close>: the error model (\<open>error.rs\<close>), the
  protocol enumeration (\<open>protocol.rs\<close>), quote requests and results and the default methods of the
  \<open>TradingVenue\<close> trait (\<open>mod.rs\<close>), token metadata (\<open>token_info.rs\<close>), the types of the creation
  parser (\<open>venue_creation.rs\<close>), and the Solana account, account-meta and instruction structures
  they use.  The SPL token crates are parameters, collected in the record \<open>spl_lib\<close>.
\<close>

subsection \<open>Solana structures\<close>

record account =
  acc_lamports :: u64
  acc_data :: bytes
  acc_owner :: pubkey

record account_meta =
  am_pubkey :: pubkey
  am_is_signer :: bool
  am_is_writable :: bool

record instruction =
  ix_program_id :: pubkey
  ix_accounts :: "account_meta list"
  ix_data :: bytes

text \<open>\<open>AccountMeta::new\<close> (writable) and \<open>AccountMeta::new_readonly\<close>.\<close>

definition meta_new :: "pubkey \<Rightarrow> bool \<Rightarrow> account_meta" where
  "meta_new k s = \<lparr>am_pubkey = k, am_is_signer = s, am_is_writable = True\<rparr>"

definition meta_new_readonly :: "pubkey \<Rightarrow> bool \<Rightarrow> account_meta" where
  "meta_new_readonly k s = \<lparr>am_pubkey = k, am_is_signer = s, am_is_writable = False\<rparr>"

subsection \<open>Protocols and errors\<close>

datatype PoolProtocol = ByrealClmm

fun protocol_string :: "PoolProtocol \<Rightarrow> string" where
  "protocol_string ByrealClmm = ''ByrealClmm''"

datatype ErrorInfo = EI_Pubkey pubkey | EI_String string | EI_StaticStr string

text \<open>\<open>Display for ErrorInfo\<close>; the base-58 printer of public keys is a parameter.\<close>

fun error_info_display :: "(pubkey \<Rightarrow> string) \<Rightarrow> ErrorInfo \<Rightarrow> string" where
  "error_info_display show_pubkey (EI_Pubkey k) = show_pubkey k"
| "error_info_display show_pubkey (EI_String s) = s"
| "error_info_display show_pubkey (EI_StaticStr s) = s"

datatype AccountCacheError =
    FailedToFetchAccount string
  | FailedToAcquireWriteLock
  | FailedToAcquireReadLock

datatype TradingVenueError =
    NoAccountFound ErrorInfo
  | FromAccountError ErrorInfo
  | FailedToFetchMultipleAccountData
  | FailedToFetchAccountData ErrorInfo
  | DeserializationFailed ErrorInfo
  | CacheUnlockFailed
  | NotInitialized ErrorInfo
  | MissingState ErrorInfo
  | InvalidMint ErrorInfo
  | CheckedMathError ErrorInfo
  | AmmMethodError ErrorInfo
  | ExactOutNotSupported
  | DataConversionError ErrorInfo
  | BoundarySearchFailed ErrorInfo
  | NoQuotableValue ErrorInfo
  | SomethingWentWrong string
  | UnsupportedVenue ErrorInfo
  | TokenInfoIndexError nat
  | MathError ErrorInfo
  | DeserializationError ErrorInfo
  | InactivePoolError pubkey PoolProtocol
  | VenueAccountCacheError AccountCacheError

type_synonym 'a venue_result = "(TradingVenueError, 'a) outcome"

subsection \<open>Quotes\<close>

datatype SwapType = ExactIn | ExactOut

record QuoteRequest =
  req_input_mint :: pubkey
  req_output_mint :: pubkey
  req_amount :: u64
  req_swap_type :: SwapType

record QuoteResult =
  res_input_mint :: pubkey
  res_output_mint :: pubkey
  res_amount :: u64
  res_expected_output :: u64
  res_not_enough_liquidity :: bool
  res_price :: f64

subsection \<open>Token metadata\<close>

record TokenInfo =
  ti_pubkey :: pubkey
  ti_decimals :: i32
  ti_is_token_2022 :: bool
  ti_transfer_fee :: "u16 option"
  ti_maximum_fee :: "u64 option"

text \<open>
  What the code takes from the SPL crates.  \<open>'x\<close> is the type of values whose inside this repository
  never reads.  An unpacked mint carries its decimals; the transfer-fee extension and its epoch fee
  (basis points, maximum) are read through the crate's accessors.
\<close>

record 'x spl_lib =
  token_program_id :: pubkey
  token_2022_program_id :: pubkey
  mint_unpack :: "bytes \<Rightarrow> (u8 \<times> 'x) option"
  get_transfer_fee_config :: "'x \<Rightarrow> 'x option"
  get_epoch_fee :: "'x \<Rightarrow> u64 \<Rightarrow> u16 \<times> u64"
  associated_token_address :: "pubkey \<Rightarrow> pubkey \<Rightarrow> pubkey \<Rightarrow> pubkey"

definition token_info_new ::
  "'x spl_lib \<Rightarrow> pubkey \<Rightarrow> account \<Rightarrow> u64 \<Rightarrow> TokenInfo venue_result" where
  "token_info_new S pk acc epoch =
     (case mint_unpack S (acc_data acc) of
        None \<Rightarrow> Err (DeserializationFailed (EI_Pubkey pk))
      | Some (decimals, mint) \<Rightarrow>
          (let (transfer_fee, maximum_fee) =
             (case get_transfer_fee_config S mint of
                Some val \<Rightarrow> (case get_epoch_fee S val epoch of (bps, mx) \<Rightarrow> (Some bps, Some mx))
              | None \<Rightarrow> (None, None))
           in Ok \<lparr>ti_pubkey = pk,
                  ti_decimals = int (unat decimals),
                  ti_is_token_2022 = (acc_owner acc = token_2022_program_id S),
                  ti_transfer_fee = transfer_fee,
                  ti_maximum_fee = maximum_fee\<rparr>))"

definition get_token_program :: "'x spl_lib \<Rightarrow> TokenInfo \<Rightarrow> pubkey" where
  "get_token_program S t =
     (if ti_is_token_2022 t then token_2022_program_id S else token_program_id S)"

definition get_associated_token_address :: "'x spl_lib \<Rightarrow> TokenInfo \<Rightarrow> pubkey \<Rightarrow> pubkey" where
  "get_associated_token_address S t wallet =
     associated_token_address S wallet (ti_pubkey t) (get_token_program S t)"

subsection \<open>Default methods of the trait, over the token list a venue reports\<close>

definition tradable_mints :: "TokenInfo list \<Rightarrow> pubkey list venue_result" where
  "tradable_mints toks = Ok (map ti_pubkey toks)"

definition directions_num :: "TokenInfo list \<Rightarrow> (u8 \<times> u8) list" where
  "directions_num toks =
     (let indices = List.map_filter (\<lambda>i. if i < 256 then Some (word_of_nat i :: u8) else None)
                      [0..<length toks]
      in concat (map (\<lambda>i. map (\<lambda>j. (i, j)) (filter (\<lambda>j. j \<noteq> i) indices)) indices))"

definition token_decimals :: "TokenInfo list \<Rightarrow> i32 list venue_result" where
  "token_decimals toks = Ok (map ti_decimals toks)"

definition get_token :: "TokenInfo list \<Rightarrow> nat \<Rightarrow> TokenInfo venue_result" where
  "get_token toks i = ok_or (list_get i toks) (TokenInfoIndexError i)"

definition venue_label :: "PoolProtocol \<Rightarrow> string" where
  "venue_label p = protocol_string p"

subsection \<open>Pool-creation parsing types\<close>

record ParsedInstruction =
  pi_program_id :: pubkey
  pi_accounts :: "pubkey list"
  pi_data :: bytes

record PoolCreation =
  pc_protocol :: PoolProtocol
  pc_pool :: pubkey
  pc_mints :: "pubkey list"

subsection \<open>Lemmas\<close>

definition u8_indices :: "nat \<Rightarrow> u8 list" where
  "u8_indices n = map word_of_nat [0..<min n 256]"

lemma map_filter_u8_indices:
  "List.map_filter (\<lambda>i. if i < 256 then Some (word_of_nat i :: u8) else None) [0..<n] = u8_indices n"
proof -
  have "filter (\<lambda>i. i < 256) [0..<n] = [0..<min n 256]"
    by (induction n) (auto simp: min_def intro!: arg_cong [where f = "\<lambda>k. [0..<k]"])
  then show ?thesis
    by (simp add: u8_indices_def flip: map_filter_map_filter)
qed

lemma word_of_nat_u8_inj: "inj_on (word_of_nat :: nat \<Rightarrow> u8) {0..<256}"
  by (rule inj_onI) (metis atLeastLessThan_iff unat_of_nat_u8)

lemma set_u8_indices: "set (u8_indices n) = {i. unat i < n}"
proof -
  have "i \<in> word_of_nat ` {0..<min n 256}" if "unat i < n" for i :: u8
    using that unat_u8_less [of i] by (intro image_eqI [of _ _ "unat i"]) auto
  then show ?thesis
    by (auto simp: u8_indices_def unat_of_nat_u8)
qed

lemma distinct_u8_indices: "distinct (u8_indices n)"
  by (auto simp: u8_indices_def distinct_map intro: inj_on_subset [OF word_of_nat_u8_inj])

lemma directions_num_alt:
  "directions_num toks = concat (map (\<lambda>i. map (\<lambda>j. (i, j)) (filter (\<lambda>j. j \<noteq> i)
     (u8_indices (length toks)))) (u8_indices (length toks)))"
  by (simp add: directions_num_def map_filter_u8_indices Let_def)

lemma distinct_concat_pairs:
  assumes "distinct is" and "\<And>i. i \<in> set is \<Longrightarrow> distinct (g i)"
  shows "distinct (concat (map (\<lambda>i. map (\<lambda>j. (i, j)) (g i)) is))"
  using assms by (induction "is") (auto simp: distinct_map inj_on_def)

lemma meta_new_sel [simp]:
  "am_pubkey (meta_new k s) = k" "am_is_signer (meta_new k s) = s"
  "am_is_writable (meta_new k s)"
  "am_pubkey (meta_new_readonly k s) = k" "am_is_signer (meta_new_readonly k s) = s"
  "\<not> am_is_writable (meta_new_readonly k s)"
  by (simp_all add: meta_new_def meta_new_readonly_def)

lemma token_info_new_Ok:
  assumes "token_info_new S pk acc epoch = Ok t"
  shows "ti_pubkey t = pk \<and> 0 \<le> ti_decimals t \<and> ti_decimals t < 256
    \<and> (ti_transfer_fee t = None \<longleftrightarrow> ti_maximum_fee t = None)"
  using assms uint_u8_less [of "fst (the (mint_unpack S (acc_data acc)))"]
  by (auto simp: token_info_new_def Let_def split: option.splits prod.splits)

end
