(* ===== verification/Route_Wire.thy ===== *)
theory Route_Wire
  imports Venue_Types
begin

text \<open>
  The wire format of the \<open>swap_route_v3\<close> instruction.  The off-chain route builder
  (\<open>src/swap_route/mod.rs\<close>) and the program (\<open>program/.../src/state.rs\<close>) each declare a \<open>Venue\<close> enum
  and a \<open>SwapSpecInputV2\<close> struct; both pairs are modelled, the first with the Borsh writer and the
  second with the Borsh reader that their derives stand for.  The locale \<open>codec\<close> states the
  encode/decode contract once and is interpreted for every field type and for the whole leg.
\<close>

subsection \<open>Off-chain types and their encoding\<close>

datatype Venue = Venue_ByrealClmm bool

record SwapSpecInputV2 =
  spec_venue :: Venue
  spec_from :: u8
  spec_to :: u8
  spec_weight_nanos :: u32
  spec_n_accounts :: u8

definition SWAP_ROUTE_V3_DISCRIMINATOR :: u8 where
  "SWAP_ROUTE_V3_DISCRIMINATOR = 42"

definition ROUTE_WEIGHT_ALL :: u32 where
  "ROUTE_WEIGHT_ALL = 1000000000"

definition borsh_bool :: "bool \<Rightarrow> bytes" where
  "borsh_bool b = [if b then 1 else 0]"

fun venue_to_borsh_bytes :: "Venue \<Rightarrow> bytes" where
  "venue_to_borsh_bytes (Venue_ByrealClmm zero_for_one) = 0 # borsh_bool zero_for_one"

definition spec_serialize :: "SwapSpecInputV2 \<Rightarrow> bytes" where
  "spec_serialize s =
     venue_to_borsh_bytes (spec_venue s) @ [spec_from s] @ [spec_to s]
     @ to_le_bytes 4 (spec_weight_nanos s) @ [spec_n_accounts s]"

definition encode_swap_route_v3_data :: "u64 \<Rightarrow> u8 \<Rightarrow> SwapSpecInputV2 list \<Rightarrow> bytes" where
  "encode_swap_route_v3_data amount mints swaps =
     [SWAP_ROUTE_V3_DISCRIMINATOR] @ to_le_bytes 8 amount @ [mints]
     @ to_le_bytes 4 (word_of_nat (length swaps) :: u32)
     @ concat (map spec_serialize swaps)"

subsection \<open>Program types and their decoding\<close>

datatype ProgVenue = Prog_ByrealClmm bool

record ProgSwapSpec =
  ps_venue :: ProgVenue
  ps_from :: u8
  ps_to :: u8
  ps_weight_nanos :: u32
  ps_n_accounts :: u8

text \<open>Readers take the remaining input and return the value with what is left of it.\<close>

type_synonym 'a reader = "bytes \<Rightarrow> ('a \<times> bytes) option"

fun read_u8 :: "u8 reader" where
  "read_u8 [] = None"
| "read_u8 (b # bs) = Some (b, bs)"

definition read_uint :: "nat \<Rightarrow> 'a::len word reader" where
  "read_uint k bs = (if k \<le> length bs then Some (from_le_bytes (take k bs), drop k bs) else None)"

fun read_bool :: "bool reader" where
  "read_bool [] = None"
| "read_bool (b # bs) = (if b = 0 then Some (False, bs) else if b = 1 then Some (True, bs) else None)"

fun read_venue :: "ProgVenue reader" where
  "read_venue [] = None"
| "read_venue (t # bs) =
     (if t = 0 then map_option (\<lambda>(z, r). (Prog_ByrealClmm z, r)) (read_bool bs) else None)"

definition read_spec :: "ProgSwapSpec reader" where
  "read_spec bs0 =
     Option.bind (read_venue bs0) (\<lambda>(v, bs1).
     Option.bind (read_u8 bs1) (\<lambda>(f, bs2).
     Option.bind (read_u8 bs2) (\<lambda>(t, bs3).
     Option.bind (read_uint 4 bs3) (\<lambda>(w, bs4).
     Option.bind (read_u8 bs4) (\<lambda>(n, bs5).
       Some (\<lparr>ps_venue = v, ps_from = f, ps_to = t, ps_weight_nanos = w, ps_n_accounts = n\<rparr>, bs5))))))"

fun read_many :: "'a reader \<Rightarrow> nat \<Rightarrow> 'a list reader" where
  "read_many rd 0 bs = Some ([], bs)"
| "read_many rd (Suc n) bs =
     Option.bind (rd bs) (\<lambda>(x, r). Option.bind (read_many rd n r) (\<lambda>(xs, r'). Some (x # xs, r')))"

text \<open>The arguments of the program's instruction, after its one-byte discriminator.\<close>

definition decode_swap_route_v3 :: "bytes \<Rightarrow> (u64 \<times> u8 \<times> ProgSwapSpec list) option" where
  "decode_swap_route_v3 data =
     Option.bind (read_u8 data) (\<lambda>(d, bs0).
       if d \<noteq> 42 then None else
       Option.bind (read_uint 8 bs0) (\<lambda>(amount, bs1).
       Option.bind (read_u8 bs1) (\<lambda>(mints, bs2).
       Option.bind (read_uint 4 bs2) (\<lambda>(len, bs3).
       Option.bind (read_many read_spec (unat (len :: u32)) bs3) (\<lambda>(swaps, _).
         Some (amount, mints, swaps))))))"

subsection \<open>Codecs\<close>

locale codec =
  fixes enc :: "'a \<Rightarrow> bytes" and dec :: "'b reader" and rep :: "'a \<Rightarrow> 'b"
  assumes roundtrip: "dec (enc a @ rest) = Some (rep a, rest)"
begin

lemma many: "read_many dec (length xs) (concat (map enc xs) @ rest) = Some (map rep xs, rest)"
  by (induction xs) (simp_all add: roundtrip)

lemma enc_inj: "enc a @ r = enc b @ s \<Longrightarrow> rep a = rep b \<and> r = s"
  using roundtrip [of a r] roundtrip [of b s] by simp

end

fun prog_venue :: "Venue \<Rightarrow> ProgVenue" where
  "prog_venue (Venue_ByrealClmm z) = Prog_ByrealClmm z"

definition prog_spec :: "SwapSpecInputV2 \<Rightarrow> ProgSwapSpec" where
  "prog_spec s = \<lparr>ps_venue = prog_venue (spec_venue s), ps_from = spec_from s, ps_to = spec_to s,
     ps_weight_nanos = spec_weight_nanos s, ps_n_accounts = spec_n_accounts s\<rparr>"

interpretation u8c: codec "\<lambda>b. [b]" read_u8 id
  by unfold_locales simp

interpretation u32c: codec "to_le_bytes 4 :: u32 \<Rightarrow> bytes" "read_uint 4" id
  by unfold_locales (simp add: read_uint_def from_to_le_bytes)

interpretation u64c: codec "to_le_bytes 8 :: u64 \<Rightarrow> bytes" "read_uint 8" id
  by unfold_locales (simp add: read_uint_def from_to_le_bytes)

interpretation boolc: codec borsh_bool read_bool id
  by unfold_locales (simp add: borsh_bool_def)

interpretation venuec: codec venue_to_borsh_bytes read_venue prog_venue
proof
  fix v and rest :: bytes
  show "read_venue (venue_to_borsh_bytes v @ rest) = Some (prog_venue v, rest)"
    by (cases v) (simp add: boolc.roundtrip)
qed

interpretation specc: codec spec_serialize read_spec prog_spec
  by unfold_locales
    (simp add: read_spec_def spec_serialize_def prog_spec_def venuec.roundtrip u32c.roundtrip)

subsection \<open>Properties\<close>

lemma length_spec_serialize: "length (spec_serialize s) = 9"
  by (cases "spec_venue s") (simp add: spec_serialize_def borsh_bool_def)

lemma swap_route_data_roundtrip_lib:
  assumes "length swaps < 2 ^ 32"
  shows "decode_swap_route_v3 (encode_swap_route_v3_data amount mints swaps)
    = Some (amount, mints, map prog_spec swaps)"
proof -
  have "unat (word_of_nat (length swaps) :: u32) = length swaps"
    using assms by (simp add: unat_of_nat)
  then show ?thesis
    using specc.many [of swaps "[]"]
    by (simp add: decode_swap_route_v3_def encode_swap_route_v3_data_def
        SWAP_ROUTE_V3_DISCRIMINATOR_def u64c.roundtrip u32c.roundtrip)
qed

text \<open>C18: The instruction data the off-chain builder encodes is read back by the program as the same
  amount, mint count and legs (any list of fewer than \<open>2 ^ 32\<close> legs), so the two \<open>Venue\<close> enums and
  the two \<open>SwapSpecInputV2\<close> structs agree byte for byte.\<close>

theorem swap_route_data_roundtrip:
  assumes "length swaps < 2 ^ 32"
  shows "decode_swap_route_v3 (encode_swap_route_v3_data amount mints swaps)
    = Some (amount, mints, map prog_spec swaps)"
  using assms by (rule swap_route_data_roundtrip_lib)

definition sample_spec :: SwapSpecInputV2 where
  "sample_spec = \<lparr>spec_venue = Venue_ByrealClmm True, spec_from = 0, spec_to = 1,
     spec_weight_nanos = ROUTE_WEIGHT_ALL, spec_n_accounts = 3\<rparr>"

theorem swap_route_data_roundtrip_witness:
  "length [sample_spec] < 2 ^ 32 \<and>
   decode_swap_route_v3 (encode_swap_route_v3_data 5000 2 [sample_spec]) = Some (5000, 2, [prog_spec sample_spec])"
  using swap_route_data_roundtrip [of "[sample_spec]" 5000 2] by simp

text \<open>The wire format is exact: the data is \<open>14 + 9 n\<close> bytes for \<open>n\<close> legs, and two routes with
  the same bytes are the same route.\<close>

theorem swap_route_data_injective:
  assumes "length swaps < 2 ^ 32" and "length swaps' < 2 ^ 32"
    and "encode_swap_route_v3_data amount mints swaps = encode_swap_route_v3_data amount' mints' swaps'"
  shows "amount = amount' \<and> mints = mints' \<and> swaps = swaps'
    \<and> length (encode_swap_route_v3_data amount mints swaps) = 14 + 9 * length swaps"
proof -
  have inj: "inj prog_spec"
  proof (rule injI)
    fix s t
    assume "prog_spec s = prog_spec t"
    moreover have "prog_venue v = prog_venue w \<Longrightarrow> v = w" for v w
      by (cases v; cases w) simp
    ultimately show "s = t"
      by (simp add: prog_spec_def)
  qed
  have "length (concat (map spec_serialize swaps)) = 9 * length swaps"
    by (induction swaps) (simp_all add: length_spec_serialize)
  then have "length (encode_swap_route_v3_data amount mints swaps) = 14 + 9 * length swaps"
    by (simp add: encode_swap_route_v3_data_def)
  moreover have "decode_swap_route_v3 (encode_swap_route_v3_data amount mints swaps)
      = Some (amount', mints', map prog_spec swaps')"
    unfolding assms(3) by (rule swap_route_data_roundtrip_lib) (rule assms(2))
  ultimately show ?thesis
    using swap_route_data_roundtrip_lib [OF assms(1)] inj by (simp add: inj_map_eq_map)
qed

theorem swap_route_data_injective_witness:
  "length (encode_swap_route_v3_data 5000 2 [sample_spec]) = 23"
  using swap_route_data_injective [of "[sample_spec]" "[sample_spec]" 5000 2 5000 2] by simp

end
