(* ===== verification/Program_Accounts.thy ===== *)
theory Program_Accounts
  imports Route_Wire
begin

text \<open>
  The account layer of the on-chain route program: reading token accounts and mints from raw bytes,
  the cross-program invocations the program makes, the venue adapter
  (\<open>instructions/venues/byreal_clmm.rs\<close>), the TitanPDA bitmap, and the helpers of
  \<open>instructions/swap_route_v3.rs\<close> below the handler.

  The ledger maps a public key to its account (lamports, data, owner); an account that does not exist
  has no lamports and no data.  Account infos of one transaction share the ledger by key, so two
  entries with the same key alias, as on chain.  The runtime and the invoked programs are the
  parameter \<open>R\<close>: a function of the invocation and the ledger.  Every invocation that succeeded is
  recorded in \<open>rt_trace\<close>, in order; the trace is the observable the properties speak about.
\<close>

subsection \<open>State\<close>

datatype RouteError =
    InvalidSwapInput
  | MissingRemainingAccount
  | InvalidAccountData
  | ReservedBalanceViolation

datatype route_failure = Route RouteError | CpiFailure u64

type_synonym ledger = "pubkey \<Rightarrow> account"

record AccountInfo =
  ai_key :: pubkey
  ai_is_signer :: bool
  ai_is_writable :: bool

text \<open>PDA signer seeds: \<open>TitanPda::SEED\<close> and the bump byte.\<close>

type_synonym signer_seeds = "bytes list"

datatype cpi =
    CreateAtaIdempotent pubkey pubkey pubkey pubkey "pubkey list"
  | TokenTransfer pubkey pubkey pubkey pubkey u64 "signer_seeds option"
  | TokenTransferChecked pubkey pubkey pubkey pubkey pubkey u64 u8 "signer_seeds option"
  | TokenCloseAccount pubkey pubkey pubkey pubkey "signer_seeds option"
  | SystemTransfer pubkey pubkey u64
  | SyncNative pubkey pubkey
  | InvokeSigned instruction "pubkey list" signer_seeds

type_synonym runtime = "cpi \<Rightarrow> ledger \<Rightarrow> (route_failure, ledger) outcome"

record rt =
  rt_ledger :: ledger
  rt_trace :: "cpi list"

type_synonym 'a route_result = "(route_failure, 'a) outcome"

definition invoke_cpi :: "runtime \<Rightarrow> cpi \<Rightarrow> rt \<Rightarrow> rt route_result" where
  "invoke_cpi R c s =
     and_then (R c (rt_ledger s)) (\<lambda>l. Ok (s\<lparr>rt_ledger := l, rt_trace := rt_trace s @ [c]\<rparr>))"

text \<open>Program ids and mints fixed by the SPL crates.\<close>

record prog_env =
  spl_token_id :: pubkey
  spl_token_2022_id :: pubkey
  native_mint_id :: pubkey

definition TITAN_PDA_SEED :: bytes where
  "TITAN_PDA_SEED = [116, 105, 116, 97, 110, 95, 112, 100, 97]"

subsection \<open>Reading accounts\<close>

definition account_exists :: "ledger \<Rightarrow> pubkey \<Rightarrow> bool" where
  "account_exists L k \<longleftrightarrow> 0 < acc_lamports (L k) \<and> 0 < length (acc_data (L k))"

definition is_native_mint :: "prog_env \<Rightarrow> pubkey \<Rightarrow> bool" where
  "is_native_mint E mint \<longleftrightarrow> mint = native_mint_id E"

definition extract_token_amount :: "ledger \<Rightarrow> pubkey \<Rightarrow> u64 route_result" where
  "extract_token_amount L k =
     and_then (ok_or (slice_get 64 72 (acc_data (L k))) (Route InvalidAccountData)) (\<lambda>slice.
       Ok (from_le_bytes slice))"

definition extract_token_owner :: "ledger \<Rightarrow> pubkey \<Rightarrow> pubkey route_result" where
  "extract_token_owner L k = ok_or (slice_get 32 64 (acc_data (L k))) (Route InvalidAccountData)"

definition extract_mint_decimals :: "ledger \<Rightarrow> pubkey \<Rightarrow> u8 route_result" where
  "extract_mint_decimals L k = ok_or (list_get 44 (acc_data (L k))) (Route InvalidAccountData)"

definition is_titan_pda_token_account :: "prog_env \<Rightarrow> ledger \<Rightarrow> pubkey \<Rightarrow> pubkey \<Rightarrow> bool" where
  "is_titan_pda_token_account E L k expected_authority \<longleftrightarrow>
     (if acc_owner (L k) \<noteq> spl_token_id E \<and> acc_owner (L k) \<noteq> spl_token_2022_id E then False
      else if length (acc_data (L k)) < 165 then False
      else (case extract_token_owner L k of
              Ok tok_owner \<Rightarrow> tok_owner = expected_authority
            | _ \<Rightarrow> False))"

definition get_token_program_for_mint ::
  "prog_env \<Rightarrow> ledger \<Rightarrow> pubkey \<Rightarrow> pubkey \<Rightarrow> pubkey \<Rightarrow> pubkey" where
  "get_token_program_for_mint E L mint token_program token_2022_program =
     (if acc_owner (L mint) = spl_token_2022_id E then token_2022_program else token_program)"

definition read_token_ledger :: "ledger \<Rightarrow> pubkey option \<Rightarrow> pubkey \<Rightarrow> u64 option route_result" where
  "read_token_ledger L token_ledger input_token_account =
     (case token_ledger of
        None \<Rightarrow> Ok None
      | Some k \<Rightarrow>
          (let data = acc_data (L k)
           in if length data < 48 then Err (Route InvalidAccountData)
              else and_then (ok_or (slice_get 8 40 data) (Route InvalidAccountData)) (\<lambda>token_account.
                   if token_account \<noteq> input_token_account then Err (Route InvalidAccountData)
                   else and_then (ok_or (slice_get 40 48 data) (Route InvalidAccountData)) (\<lambda>amount_slice.
                        Ok (Some (from_le_bytes amount_slice))))))"

subsection \<open>Invocations\<close>

definition transfer_tokens ::
  "runtime \<Rightarrow> prog_env \<Rightarrow> pubkey \<Rightarrow> pubkey \<Rightarrow> pubkey \<Rightarrow> pubkey \<Rightarrow> pubkey option \<Rightarrow> u64 \<Rightarrow> u8
   \<Rightarrow> signer_seeds option \<Rightarrow> rt \<Rightarrow> rt route_result" where
  "transfer_tokens R E token_program src dst authority mint amount decimals seeds s =
     (if amount = 0 then Ok s
      else if token_program = spl_token_2022_id E
      then and_then (ok_or mint (Route MissingRemainingAccount)) (\<lambda>m.
             invoke_cpi R (TokenTransferChecked token_program src m dst authority amount decimals seeds) s)
      else invoke_cpi R (TokenTransfer token_program src dst authority amount seeds) s)"

definition create_titan_pda_ata ::
  "runtime \<Rightarrow> pubkey \<Rightarrow> pubkey \<Rightarrow> pubkey \<Rightarrow> pubkey \<Rightarrow> pubkey \<Rightarrow> pubkey \<Rightarrow> rt \<Rightarrow> rt route_result" where
  "create_titan_pda_ata R payer titan_pda mint ata token_program system_program s =
     invoke_cpi R (CreateAtaIdempotent payer titan_pda mint token_program
       [payer, ata, titan_pda, mint, system_program, token_program]) s"

definition create_user_ata ::
  "runtime \<Rightarrow> pubkey \<Rightarrow> pubkey \<Rightarrow> pubkey \<Rightarrow> pubkey \<Rightarrow> pubkey \<Rightarrow> pubkey \<Rightarrow> rt \<Rightarrow> rt route_result" where
  "create_user_ata R payer wallet mint ata token_program system_program s =
     invoke_cpi R (CreateAtaIdempotent payer wallet mint token_program
       [payer, ata, wallet, mint, system_program, token_program]) s"

definition close_titan_pda_ata ::
  "runtime \<Rightarrow> pubkey \<Rightarrow> pubkey \<Rightarrow> pubkey \<Rightarrow> pubkey \<Rightarrow> signer_seeds \<Rightarrow> rt \<Rightarrow> rt route_result" where
  "close_titan_pda_ata R ata destination titan_pda token_program seeds s =
     invoke_cpi R (TokenCloseAccount token_program ata destination titan_pda (Some seeds)) s"

definition close_token_account ::
  "runtime \<Rightarrow> pubkey \<Rightarrow> pubkey \<Rightarrow> pubkey \<Rightarrow> pubkey \<Rightarrow> signer_seeds option \<Rightarrow> rt \<Rightarrow> rt route_result" where
  "close_token_account R token_account destination authority token_program seeds s =
     invoke_cpi R (TokenCloseAccount token_program token_account destination authority seeds) s"

definition transfer_sol_and_sync ::
  "runtime \<Rightarrow> pubkey \<Rightarrow> pubkey \<Rightarrow> pubkey \<Rightarrow> u64 \<Rightarrow> rt \<Rightarrow> rt route_result" where
  "transfer_sol_and_sync R src wsol_ata token_program amount s =
     (if amount = 0 then Ok s
      else and_then (invoke_cpi R (SystemTransfer src wsol_ata amount) s) (\<lambda>s1.
             invoke_cpi R (SyncNative token_program wsol_ata) s1))"

definition setup_wsol_input_account ::
  "runtime \<Rightarrow> pubkey \<Rightarrow> pubkey \<Rightarrow> pubkey \<Rightarrow> pubkey \<Rightarrow> pubkey \<Rightarrow> pubkey \<Rightarrow> u64 \<Rightarrow> rt
   \<Rightarrow> (rt \<times> bool) route_result" where
  "setup_wsol_input_account R payer wallet wsol_ata mint token_program system_program amount s =
     (if account_exists (rt_ledger s) wsol_ata
      then and_then (extract_token_amount (rt_ledger s) wsol_ata) (\<lambda>current_balance.
             if current_balance < amount
             then and_then (transfer_sol_and_sync R wallet wsol_ata token_program (amount - current_balance) s)
                    (\<lambda>s1. Ok (s1, False))
             else Ok (s, False))
      else and_then (invoke_cpi R (CreateAtaIdempotent payer wallet mint token_program
               [payer, wsol_ata, wallet, mint, system_program, token_program]) s) (\<lambda>s1.
           and_then (transfer_sol_and_sync R wallet wsol_ata token_program amount s1) (\<lambda>s2.
             Ok (s2, True))))"

subsection \<open>Venue adapter and dispatch\<close>

definition SWAP_V3_DYN_DISCRIMINATOR :: bytes where
  "SWAP_V3_DYN_DISCRIMINATOR = [229, 46, 213, 132, 105, 40, 40, 228]"

definition swap_v3_dyn :: "pubkey \<Rightarrow> u64 \<Rightarrow> account_meta list \<Rightarrow> instruction list route_result" where
  "swap_v3_dyn venue_program_id amount_in account_metas =
     Ok [\<lparr>ix_program_id = venue_program_id, ix_accounts = account_metas,
          ix_data = SWAP_V3_DYN_DISCRIMINATOR @ to_le_bytes 8 amount_in
            @ to_le_bytes 8 (0 :: u64) @ to_le_bytes 16 (0 :: u128) @ [1]\<rparr>]"

fun invoke_signed_all ::
  "runtime \<Rightarrow> instruction list \<Rightarrow> pubkey list \<Rightarrow> signer_seeds \<Rightarrow> rt \<Rightarrow> rt route_result" where
  "invoke_signed_all R [] infos seeds s = Ok s"
| "invoke_signed_all R (ix # ixs) infos seeds s =
     and_then (invoke_cpi R (InvokeSigned ix infos seeds) s) (\<lambda>s1.
       invoke_signed_all R ixs infos seeds s1)"

definition perform_cpi_swap ::
  "runtime \<Rightarrow> u64 \<Rightarrow> ProgSwapSpec \<Rightarrow> account_meta list \<Rightarrow> AccountInfo list \<Rightarrow> signer_seeds \<Rightarrow> rt
   \<Rightarrow> rt route_result" where
  "perform_cpi_swap R amount swap account_metas account_infos seeds s =
     (if account_infos = [] then Err (Route MissingRemainingAccount)
      else let venue_program_id = ai_key (last account_infos)
           in and_then (case ps_venue swap of
                  Prog_ByrealClmm _ \<Rightarrow> swap_v3_dyn venue_program_id amount account_metas) (\<lambda>ixs.
                invoke_signed_all R ixs (map ai_key account_infos) seeds s))"

subsection \<open>The TitanPDA bitmap\<close>

type_synonym TitanPdaBitmap = "u64 list"

definition bitmap_new :: TitanPdaBitmap where
  "bitmap_new = [0, 0, 0, 0]"

definition bitmap_set :: "nat \<Rightarrow> TitanPdaBitmap \<Rightarrow> TitanPdaBitmap" where
  "bitmap_set index bits =
     (if index < 256
      then bits[index div 64 := bits ! (index div 64) OR push_bit (index mod 64) 1]
      else bits)"

definition bitmap_is_set :: "TitanPdaBitmap \<Rightarrow> nat \<Rightarrow> bool" where
  "bitmap_is_set bits index \<longleftrightarrow>
     index < 256 \<and> bits ! (index div 64) AND push_bit (index mod 64) 1 \<noteq> 0"

text \<open>What a fixed-capacity bit set promises its client.\<close>

locale bounded_bitset =
  fixes empty :: 'b and ins :: "nat \<Rightarrow> 'b \<Rightarrow> 'b" and mem :: "'b \<Rightarrow> nat \<Rightarrow> bool"
    and wf :: "'b \<Rightarrow> bool" and cap :: nat
  assumes wf_empty: "wf empty" and wf_ins: "wf b \<Longrightarrow> wf (ins i b)"
    and mem_empty: "\<not> mem empty i"
    and mem_ins: "wf b \<Longrightarrow> mem (ins i b) j \<longleftrightarrow> mem b j \<or> (i = j \<and> j < cap)"
begin

lemma wf_fold: "wf b \<Longrightarrow> wf (fold ins is b)"
  by (induction "is" arbitrary: b) (simp_all add: wf_ins)

lemma mem_fold: "wf b \<Longrightarrow> mem (fold ins is b) j \<longleftrightarrow> mem b j \<or> (j \<in> set is \<and> j < cap)"
  by (induction "is" arbitrary: b) (auto simp: mem_ins wf_ins)

lemma mem_of_list: "mem (fold ins is empty) j \<longleftrightarrow> j \<in> set is \<and> j < cap"
  by (simp add: mem_fold wf_empty mem_empty)

end

definition bitmap_wf :: "TitanPdaBitmap \<Rightarrow> bool" where
  "bitmap_wf bits \<longleftrightarrow> length bits = 4"

lemma bitmap_is_set_iff: "bitmap_is_set bits j \<longleftrightarrow> j < 256 \<and> bit (bits ! (j div 64)) (j mod 64)"
  by (simp add: bitmap_is_set_def and_exp_eq_0_iff_not_bit)

lemma bitmap_is_set_set:
  assumes "bitmap_wf bits"
  shows "bitmap_is_set (bitmap_set i bits) j \<longleftrightarrow> bitmap_is_set bits j \<or> (i = j \<and> j < 256)"
proof (cases "i < 256 \<and> j < 256")
  case True
  then have "i div 64 < 4" "j div 64 < 4" "j mod 64 < 64"
    by auto
  moreover have "i = j \<longleftrightarrow> i div 64 = j div 64 \<and> i mod 64 = j mod 64"
    by (metis div_mult_mod_eq)
  ultimately show ?thesis
    using True assms
    by (auto simp: bitmap_is_set_iff bitmap_set_def bitmap_wf_def nth_list_update bit_or_iff
        bit_exp_iff)
qed (auto simp: bitmap_is_set_iff bitmap_set_def)

interpretation titan_bits: bounded_bitset bitmap_new bitmap_set bitmap_is_set bitmap_wf 256
proof
  show "\<not> bitmap_is_set bitmap_new i" for i
  proof -
    have "bitmap_new ! (i div 64) = 0" if "i < 256"
      using that by (auto simp: bitmap_new_def nth_Cons' div_less_iff_less_mult)
    then show ?thesis
      by (auto simp: bitmap_is_set_iff)
  qed
  show "bitmap_is_set (bitmap_set i b) j \<longleftrightarrow> bitmap_is_set b j \<or> (i = j \<and> j < 256)"
    if "bitmap_wf b" for b i j
    using that by (rule bitmap_is_set_set)
qed (auto simp: bitmap_wf_def bitmap_new_def bitmap_set_def)

end
