(* ===== verification/Program_Route.thy ===== *)
theory Program_Route
  imports Program_Accounts
begin

text \<open>
  The handler of the route program: \<open>SwapRouteV3::execute\<close> of
  \<open>program/.../src/instructions/swap_route_v3.rs\<close>, phase by phase in the order of the code, composed
  in \<open>execute\<close>, and \<open>Initialize::execute\<close>.  The program is built with overflow checks, so an
  out-of-range index or an overflow would be a panic; the sites are branches to \<open>Panic\<close>, and
  \<open>execute_never_panics\<close> shows that none is reached.  Anchor's account validation (signer flags, the
  PDA seeds constraint) runs before the handler and is not modelled.
\<close>

definition MAX_SWAPS :: nat where
  "MAX_SWAPS = 12"

definition MAX_MINTS :: nat where
  "MAX_MINTS = 12"

record TitanPda =
  pda_bump :: u8

definition initialize_execute :: "u8 \<Rightarrow> TitanPda \<Rightarrow> TitanPda route_result" where
  "initialize_execute ctx_bump pda = Ok (pda\<lparr>pda_bump := ctx_bump\<rparr>)"

record SwapRouteV3 =
  sr_payer :: pubkey
  sr_user :: pubkey
  sr_titan_pda :: pubkey
  sr_titan_pda_data :: TitanPda
  sr_input_token_account :: pubkey
  sr_output_token_account :: pubkey
  sr_token_program :: pubkey
  sr_token_2022_program :: pubkey
  sr_system_program :: pubkey
  sr_token_ledger :: "pubkey option"

subsection \<open>Phases\<close>

text \<open>Lines 58 to 77: the argument checks.\<close>

definition validate_route :: "u8 \<Rightarrow> ProgSwapSpec list \<Rightarrow> AccountInfo list \<Rightarrow> unit route_result" where
  "validate_route mints swaps ra =
     (if \<not> (1 < mints \<and> swaps \<noteq> []) then Err (Route InvalidSwapInput)
      else if \<not> length swaps \<le> MAX_SWAPS then Err (Route InvalidSwapInput)
      else if \<not> unat mints \<le> MAX_MINTS then Err (Route InvalidSwapInput)
      else if \<not> 2 * unat mints \<le> length ra then Err (Route MissingRemainingAccount)
      else if ps_from (hd swaps) \<noteq> 0 then Err (Route InvalidSwapInput)
      else if \<not> (\<forall>s \<in> set swaps. ps_from s < mints \<and> ps_to s < mints) then Err (Route InvalidSwapInput)
      else Ok ())"

definition remaining_get :: "AccountInfo list \<Rightarrow> nat \<Rightarrow> AccountInfo route_result" where
  "remaining_get ra i = ok_or (list_get i ra) (Route MissingRemainingAccount)"

text \<open>Lines 101 to 129: create the TitanPDA token accounts that do not exist yet.  \<open>n\<close> counts the
  iterations left, so the loop index is \<open>mints_count - n\<close>.\<close>

fun create_missing_atas ::
  "runtime \<Rightarrow> prog_env \<Rightarrow> SwapRouteV3 \<Rightarrow> AccountInfo list \<Rightarrow> nat \<Rightarrow> nat \<Rightarrow> u16 \<Rightarrow> rt
   \<Rightarrow> (rt \<times> u16) route_result" where
  "create_missing_atas R E ctx ra mints_count 0 created s = Ok (s, created)"
| "create_missing_atas R E ctx ra mints_count (Suc n) created s =
     (let i = mints_count - Suc n in
      and_then (remaining_get ra i) (\<lambda>ata.
        if \<not> account_exists (rt_ledger s) (ai_key ata)
        then and_then (remaining_get ra (mints_count + i)) (\<lambda>mint_account.
               let token_program = get_token_program_for_mint E (rt_ledger s) (ai_key mint_account)
                                     (sr_token_program ctx) (sr_token_2022_program ctx)
               in and_then (create_titan_pda_ata R (sr_payer ctx) (sr_titan_pda ctx) (ai_key mint_account)
                              (ai_key ata) token_program (sr_system_program ctx) s) (\<lambda>s1.
                    create_missing_atas R E ctx ra mints_count n (created OR push_bit i 1) s1))
        else create_missing_atas R E ctx ra mints_count n created s))"

text \<open>Lines 131 to 148: record the balance of every TitanPDA token account among the remaining
  accounts.  The first \<open>mints_count\<close> accounts must be TitanPDA token accounts.\<close>

record snapshot =
  snap_bitmap :: TitanPdaBitmap
  snap_balances :: "u64 list"
  snap_reserved :: "u64 list"

definition snapshot_new :: snapshot where
  "snapshot_new = \<lparr>snap_bitmap = bitmap_new, snap_balances = [], snap_reserved = replicate MAX_MINTS 0\<rparr>"

fun take_snapshot ::
  "prog_env \<Rightarrow> ledger \<Rightarrow> pubkey \<Rightarrow> nat \<Rightarrow> nat \<Rightarrow> AccountInfo list \<Rightarrow> snapshot \<Rightarrow> snapshot route_result" where
  "take_snapshot E L titan mints_count i [] sn = Ok sn"
| "take_snapshot E L titan mints_count i (account # accounts) sn =
     (if i < mints_count
      then if \<not> is_titan_pda_token_account E L (ai_key account) titan
           then Err (Route InvalidAccountData)
           else and_then (extract_token_amount L (ai_key account)) (\<lambda>balance.
                  if i < length (snap_reserved sn)
                  then take_snapshot E L titan mints_count (Suc i) accounts
                         (sn\<lparr>snap_reserved := (snap_reserved sn)[i := balance],
                             snap_bitmap := bitmap_set i (snap_bitmap sn),
                             snap_balances := snap_balances sn @ [balance]\<rparr>)
                  else Panic)
      else if is_titan_pda_token_account E L (ai_key account) titan
      then and_then (extract_token_amount L (ai_key account)) (\<lambda>balance.
             take_snapshot E L titan mints_count (Suc i) accounts
               (sn\<lparr>snap_bitmap := bitmap_set i (snap_bitmap sn),
                   snap_balances := snap_balances sn @ [balance]\<rparr>))
      else take_snapshot E L titan mints_count (Suc i) accounts sn)"

text \<open>Lines 150 to 160.\<close>

definition effective_amount :: "ledger \<Rightarrow> pubkey \<Rightarrow> u64 option \<Rightarrow> u64 \<Rightarrow> u64 route_result" where
  "effective_amount L input_token_account ledger_amount amount =
     (case ledger_amount of
        Some stored \<Rightarrow>
          and_then (extract_token_amount L input_token_account) (\<lambda>current.
          and_then (ok_or (checked_sub current stored) (Route InvalidAccountData)) (\<lambda>delta.
            if 0 < delta then Ok delta else Err (Route InvalidAccountData)))
      | None \<Rightarrow> Ok amount)"

text \<open>Lines 162 to 205: move the input into TitanPDA custody, through a temporary wrapped-SOL account
  when the input is native SOL and no ledger is used.\<close>

definition deposit_input ::
  "runtime \<Rightarrow> prog_env \<Rightarrow> SwapRouteV3 \<Rightarrow> AccountInfo list \<Rightarrow> pubkey \<Rightarrow> u8 \<Rightarrow> u64 option \<Rightarrow> u64 \<Rightarrow> rt
   \<Rightarrow> rt route_result" where
  "deposit_input R E ctx ra input_mint input_mint_decimals ledger_amount eff s =
     and_then (remaining_get ra 0) (\<lambda>first_titan_pda_ata.
       let input_token_program = get_token_program_for_mint E (rt_ledger s) input_mint
             (sr_token_program ctx) (sr_token_2022_program ctx)
       in and_then
            (if ledger_amount = None \<and> is_native_mint E input_mint
             then setup_wsol_input_account R (sr_payer ctx) (sr_user ctx) (sr_input_token_account ctx)
                    input_mint input_token_program (sr_system_program ctx) eff s
             else Ok (s, False)) (\<lambda>(s1, created_wsol_input).
          and_then (transfer_tokens R E input_token_program (sr_input_token_account ctx)
                      (ai_key first_titan_pda_ata) (sr_user ctx) (Some input_mint) eff
                      input_mint_decimals None s1) (\<lambda>s2.
            if created_wsol_input
            then close_token_account R (sr_input_token_account ctx) (sr_payer ctx) (sr_user ctx)
                   input_token_program None s2
            else Ok s2)))"

text \<open>Lines 221 to 227: the amount a leg spends.\<close>

definition leg_input_amount :: "u64 \<Rightarrow> u64 \<Rightarrow> u32 \<Rightarrow> u64" where
  "leg_input_amount input_token_balance reserved weight_nanos =
     (let available_balance = saturating_sub input_token_balance reserved;
          weight = (ucast (min weight_nanos 1000000000) :: u128)
      in ucast (saturating_mul (ucast available_balance :: u128) weight div 1000000000))"

definition leg_account_metas :: "pubkey \<Rightarrow> AccountInfo list \<Rightarrow> account_meta list" where
  "leg_account_metas titan accounts =
     map (\<lambda>a. \<lparr>am_pubkey = ai_key a, am_is_signer = (ai_key a = titan \<or> ai_is_signer a),
               am_is_writable = ai_is_writable a\<rparr>) accounts"

text \<open>Lines 207 to 251: the legs.\<close>

fun run_legs ::
  "runtime \<Rightarrow> pubkey \<Rightarrow> signer_seeds \<Rightarrow> u64 list \<Rightarrow> AccountInfo list \<Rightarrow> nat \<Rightarrow> ProgSwapSpec list \<Rightarrow> rt
   \<Rightarrow> rt route_result" where
  "run_legs R titan seeds reserved ra idx [] s = Ok s"
| "run_legs R titan seeds reserved ra idx (swap # swaps) s =
     (let inc = unat (ps_n_accounts swap) in
      if \<not> 0 < inc then Err (Route InvalidSwapInput)
      else if \<not> idx + inc \<le> length ra then Err (Route MissingRemainingAccount)
      else and_then (remaining_get ra (unat (ps_from swap))) (\<lambda>input_token_account.
           and_then (extract_token_amount (rt_ledger s) (ai_key input_token_account)) (\<lambda>balance.
             case list_get (unat (ps_from swap)) reserved of
               None \<Rightarrow> Panic
             | Some res \<Rightarrow>
                 (let input_amount = leg_input_amount balance res (ps_weight_nanos swap);
                      leg_accounts = take inc (drop idx ra)
                  in and_then
                       (if 0 < input_amount
                        then perform_cpi_swap R input_amount swap
                               (leg_account_metas titan (take (inc - 1) leg_accounts))
                               leg_accounts seeds s
                        else Ok s) (\<lambda>s1.
                       run_legs R titan seeds reserved ra (idx + inc) swaps s1)))))"

text \<open>Lines 253 to 288: pay the traded output to the user.\<close>

definition settle_output ::
  "runtime \<Rightarrow> prog_env \<Rightarrow> SwapRouteV3 \<Rightarrow> signer_seeds \<Rightarrow> AccountInfo list \<Rightarrow> u64 list \<Rightarrow> nat \<Rightarrow> pubkey \<Rightarrow> u8
   \<Rightarrow> rt \<Rightarrow> rt route_result" where
  "settle_output R E ctx seeds ra reserved output_ata_index output_mint output_mint_decimals s =
     and_then (remaining_get ra output_ata_index) (\<lambda>out_acc.
     and_then (extract_token_amount (rt_ledger s) (ai_key out_acc)) (\<lambda>raw_output_balance.
       case list_get output_ata_index reserved of
         None \<Rightarrow> Panic
       | Some res \<Rightarrow>
           (let user_output = saturating_sub raw_output_balance res;
                output_token_program = get_token_program_for_mint E (rt_ledger s) output_mint
                  (sr_token_program ctx) (sr_token_2022_program ctx)
            in and_then
                 (if \<not> account_exists (rt_ledger s) (sr_output_token_account ctx)
                  then create_user_ata R (sr_payer ctx) (sr_user ctx) output_mint
                         (sr_output_token_account ctx) output_token_program (sr_system_program ctx) s
                  else Ok s) (\<lambda>s1.
                 transfer_tokens R E output_token_program (ai_key out_acc) (sr_output_token_account ctx)
                   (sr_titan_pda ctx) (Some output_mint) user_output output_mint_decimals
                   (Some seeds) s1))))"

text \<open>\<open>extract_token_amount(a).unwrap_or(0)\<close>.\<close>

definition token_amount_or_zero :: "ledger \<Rightarrow> pubkey \<Rightarrow> u64" where
  "token_amount_or_zero L k = (case extract_token_amount L k of Ok a \<Rightarrow> a | _ \<Rightarrow> 0)"

text \<open>Lines 290 to 320: close the token accounts this route created and emptied.\<close>

fun close_created_atas ::
  "runtime \<Rightarrow> prog_env \<Rightarrow> SwapRouteV3 \<Rightarrow> signer_seeds \<Rightarrow> AccountInfo list \<Rightarrow> nat \<Rightarrow> u16 \<Rightarrow> nat \<Rightarrow> rt
   \<Rightarrow> rt route_result" where
  "close_created_atas R E ctx seeds ra mints_count created 0 s = Ok s"
| "close_created_atas R E ctx seeds ra mints_count created (Suc n) s =
     (let i = mints_count - Suc n in
      if created AND push_bit i 1 = 0
      then close_created_atas R E ctx seeds ra mints_count created n s
      else and_then (remaining_get ra i) (\<lambda>ata.
             if 0 < token_amount_or_zero (rt_ledger s) (ai_key ata)
             then close_created_atas R E ctx seeds ra mints_count created n s
             else and_then (remaining_get ra (mints_count + i)) (\<lambda>mint.
                    let token_program = get_token_program_for_mint E (rt_ledger s) (ai_key mint)
                          (sr_token_program ctx) (sr_token_2022_program ctx)
                    in and_then (close_titan_pda_ata R (ai_key ata) (sr_payer ctx) (sr_titan_pda ctx)
                                   token_program seeds s) (\<lambda>s1.
                         close_created_atas R E ctx seeds ra mints_count created n s1))))"

text \<open>Lines 322 to 332: no recorded account may have lost balance.\<close>

fun check_balances ::
  "ledger \<Rightarrow> TitanPdaBitmap \<Rightarrow> u64 list \<Rightarrow> nat \<Rightarrow> nat \<Rightarrow> AccountInfo list \<Rightarrow> unit route_result" where
  "check_balances L bitmap balances i balance_idx [] = Ok ()"
| "check_balances L bitmap balances i balance_idx (account # accounts) =
     (if bitmap_is_set bitmap i
      then (case list_get balance_idx balances of
              None \<Rightarrow> Panic
            | Some b \<Rightarrow>
                if b \<le> token_amount_or_zero L (ai_key account)
                then check_balances L bitmap balances (Suc i) (Suc balance_idx) accounts
                else Err (Route ReservedBalanceViolation))
      else check_balances L bitmap balances (Suc i) balance_idx accounts)"

subsection \<open>The handler\<close>

definition titan_seeds :: "SwapRouteV3 \<Rightarrow> signer_seeds" where
  "titan_seeds ctx = [TITAN_PDA_SEED, [pda_bump (sr_titan_pda_data ctx)]]"

definition execute ::
  "runtime \<Rightarrow> prog_env \<Rightarrow> SwapRouteV3 \<Rightarrow> AccountInfo list \<Rightarrow> u64 \<Rightarrow> u8 \<Rightarrow> ProgSwapSpec list \<Rightarrow> rt
   \<Rightarrow> rt route_result" where
  "execute R E ctx ra amount mints swaps s0 =
     and_then (validate_route mints swaps ra) (\<lambda>_.
     let mints_count = unat mints;
         seeds = titan_seeds ctx;
         titan = sr_titan_pda ctx;
         output_ata_index = unat (ps_to (last swaps))
     in
     and_then (read_token_ledger (rt_ledger s0) (sr_token_ledger ctx) (sr_input_token_account ctx)) (\<lambda>ledger_amount.
     and_then (remaining_get ra mints_count) (\<lambda>input_mint.
     and_then (remaining_get ra (mints_count + output_ata_index)) (\<lambda>output_mint.
     and_then (extract_mint_decimals (rt_ledger s0) (ai_key input_mint)) (\<lambda>input_mint_decimals.
     and_then (extract_mint_decimals (rt_ledger s0) (ai_key output_mint)) (\<lambda>output_mint_decimals.
     and_then (create_missing_atas R E ctx ra mints_count mints_count 0 s0) (\<lambda>(s1, created_atas).
     and_then (take_snapshot E (rt_ledger s1) titan mints_count 0 ra snapshot_new) (\<lambda>sn.
     and_then (effective_amount (rt_ledger s1) (sr_input_token_account ctx) ledger_amount amount) (\<lambda>eff.
     and_then (deposit_input R E ctx ra (ai_key input_mint) input_mint_decimals ledger_amount eff s1) (\<lambda>s2.
     and_then (run_legs R titan seeds (snap_reserved sn) ra (2 * mints_count) swaps s2) (\<lambda>s3.
     and_then (settle_output R E ctx seeds ra (snap_reserved sn) output_ata_index (ai_key output_mint)
                 output_mint_decimals s3) (\<lambda>s4.
     and_then (close_created_atas R E ctx seeds ra mints_count created_atas mints_count s4) (\<lambda>s5.
     and_then (check_balances (rt_ledger s5) (snap_bitmap sn) (snap_balances sn) 0 0 ra) (\<lambda>_.
       Ok s5))))))))))))))"

end
