(* ===== verification/Program_Guarantees.thy ===== *)
theory Program_Guarantees
  imports Program_Route
begin

text \<open>
  What the route handler guarantees whatever the invoked programs do: TitanPDA custody is never
  drained below its snapshot, the user is debited once and by the stated amount, each leg gets its
  own accts of the remaining accounts, nothing panics, and every rejected argument is rejected
  before the first invocation.
\<close>

subsection \<open>What the trace of a run may contain\<close>

definition transfer_calls ::
  "prog_env \<Rightarrow> pubkey \<Rightarrow> pubkey \<Rightarrow> pubkey \<Rightarrow> pubkey \<Rightarrow> pubkey \<Rightarrow> u64 \<Rightarrow> u8 \<Rightarrow> signer_seeds option \<Rightarrow> cpi list" where
  "transfer_calls E tp src dst auth mint amt dec seeds =
     (if amt = 0 then []
      else if tp = spl_token_2022_id E then [TokenTransferChecked tp src mint dst auth amt dec seeds]
      else [TokenTransfer tp src dst auth amt seeds])"

fun is_titan_ata_creation :: "SwapRouteV3 \<Rightarrow> cpi \<Rightarrow> bool" where
  "is_titan_ata_creation ctx (CreateAtaIdempotent p w m tp ks) \<longleftrightarrow> p = sr_payer ctx \<and> w = sr_titan_pda ctx"
| "is_titan_ata_creation ctx _ \<longleftrightarrow> False"

fun is_titan_ata_close :: "SwapRouteV3 \<Rightarrow> signer_seeds \<Rightarrow> cpi \<Rightarrow> bool" where
  "is_titan_ata_close ctx seeds (TokenCloseAccount tp a d w sd) \<longleftrightarrow>
     d = sr_payer ctx \<and> w = sr_titan_pda ctx \<and> sd = Some seeds"
| "is_titan_ata_close ctx seeds _ \<longleftrightarrow> False"

fun is_wsol_setup :: "cpi \<Rightarrow> bool" where
  "is_wsol_setup (CreateAtaIdempotent p w m tp ks) \<longleftrightarrow> True"
| "is_wsol_setup (SystemTransfer src dst amt) \<longleftrightarrow> True"
| "is_wsol_setup (SyncNative tp a) \<longleftrightarrow> True"
| "is_wsol_setup _ \<longleftrightarrow> False"

fun is_wsol_close :: "SwapRouteV3 \<Rightarrow> cpi \<Rightarrow> bool" where
  "is_wsol_close ctx (TokenCloseAccount tp a d w sd) \<longleftrightarrow>
     a = sr_input_token_account ctx \<and> d = sr_payer ctx \<and> w = sr_user ctx \<and> sd = None"
| "is_wsol_close ctx _ \<longleftrightarrow> False"

subsection \<open>Phases of a successful run\<close>

lemma execute_OkE:
  assumes "execute R E ctx ra amount mints swaps s0 = Ok s'"
  obtains ledger_amount input_mint output_mint idec odec s1 created sn eff s2 s3 s4 where
    "validate_route mints swaps ra = Ok ()"
    "read_token_ledger (rt_ledger s0) (sr_token_ledger ctx) (sr_input_token_account ctx) = Ok ledger_amount"
    "remaining_get ra (unat mints) = Ok input_mint"
    "remaining_get ra (unat mints + unat (ps_to (last swaps))) = Ok output_mint"
    "create_missing_atas R E ctx ra (unat mints) (unat mints) 0 s0 = Ok (s1, created)"
    "take_snapshot E (rt_ledger s1) (sr_titan_pda ctx) (unat mints) 0 ra snapshot_new = Ok sn"
    "effective_amount (rt_ledger s1) (sr_input_token_account ctx) ledger_amount amount = Ok eff"
    "deposit_input R E ctx ra (ai_key input_mint) idec ledger_amount eff s1 = Ok s2"
    "run_legs R (sr_titan_pda ctx) (titan_seeds ctx) (snap_reserved sn) ra (2 * unat mints) swaps s2 = Ok s3"
    "settle_output R E ctx (titan_seeds ctx) ra (snap_reserved sn) (unat (ps_to (last swaps)))
       (ai_key output_mint) odec s3 = Ok s4"
    "close_created_atas R E ctx (titan_seeds ctx) ra (unat mints) created (unat mints) s4 = Ok s'"
    "check_balances (rt_ledger s') (snap_bitmap sn) (snap_balances sn) 0 0 ra = Ok ()"
  using assms unfolding execute_def Let_def by (force simp: outcome_simps)

lemma validate_route_Ok_iff:
  "validate_route mints swaps ra = Ok () \<longleftrightarrow>
     1 < mints \<and> swaps \<noteq> [] \<and> length swaps \<le> 12 \<and> unat mints \<le> 12 \<and> 2 * unat mints \<le> length ra
     \<and> ps_from (hd swaps) = 0 \<and> (\<forall>s \<in> set swaps. ps_from s < mints \<and> ps_to s < mints)"
  by (auto simp: validate_route_def MAX_SWAPS_def MAX_MINTS_def)

subsection \<open>The snapshot and the final check\<close>

lemma titan_account_amount:
  assumes "is_titan_pda_token_account E L k titan"
  shows "extract_token_amount L k = Ok (token_amount_or_zero L k)"
  using assms
  by (auto simp: is_titan_pda_token_account_def token_amount_or_zero_def extract_token_amount_def
      slice_get_def outcome_simps split: if_splits)

fun tracked_from :: "(AccountInfo \<Rightarrow> bool) \<Rightarrow> nat \<Rightarrow> AccountInfo list \<Rightarrow> nat list" where
  "tracked_from P i [] = []"
| "tracked_from P i (a # as) = (if P a then i # tracked_from P (Suc i) as else tracked_from P (Suc i) as)"

lemma set_tracked_from: "set (tracked_from P i as) = {i + j | j. j < length as \<and> P (as ! j)}"
proof (induction as arbitrary: i)
  case (Cons a as)
  have "{i + j | j. j < length (a # as) \<and> P ((a # as) ! j)} =
    (if P a then {i} else {}) \<union> {Suc i + j | j. j < length as \<and> P (as ! j)}"
    by (auto simp: less_Suc_eq_0_disj)
  then show ?case
    using Cons by auto
qed simp

lemma take_snapshot_result:
  fixes L E titan
  defines "P \<equiv> \<lambda>a. is_titan_pda_token_account E L (ai_key a) titan"
  assumes "take_snapshot E L titan m i as sn = Ok sn'"
  shows "snap_bitmap sn' = fold bitmap_set (tracked_from P i as) (snap_bitmap sn)
    \<and> snap_balances sn' = snap_balances sn @ map (\<lambda>a. token_amount_or_zero L (ai_key a)) (filter P as)
    \<and> length (snap_reserved sn') = length (snap_reserved sn)"
  using assms(2)
  by (induction as arbitrary: i sn)
    (auto simp: P_def titan_account_amount split: if_splits)

lemma check_balances_sound:
  assumes "check_balances L' bm (pre @ map amt (filter P as)) i (length pre) as = Ok ()"
    and "\<forall>j < length as. bitmap_is_set bm (i + j) \<longleftrightarrow> P (as ! j) \<and> i + j < 256"
  shows "\<forall>j < length as. i + j < 256 \<longrightarrow> P (as ! j)
    \<longrightarrow> amt (as ! j) \<le> token_amount_or_zero L' (ai_key (as ! j))"
  using assms
proof (induction as arbitrary: i pre)
  case (Cons a as)
  have set0: "bitmap_is_set bm i \<longleftrightarrow> P a \<and> i < 256"
    using Cons.prems(2) by (force dest: spec [of _ 0])
  have rest: "\<forall>j < length as. bitmap_is_set bm (Suc i + j) \<longleftrightarrow> P (as ! j) \<and> Suc i + j < 256"
  proof (intro allI impI)
    fix j
    assume "j < length as"
    then show "bitmap_is_set bm (Suc i + j) \<longleftrightarrow> P (as ! j) \<and> Suc i + j < 256"
      using Cons.prems(2) [rule_format, of "Suc j"] by simp
  qed
  show ?case
  proof (cases "P a \<and> i < 256")
    case True
    then have "amt a \<le> token_amount_or_zero L' (ai_key a)"
      and "check_balances L' bm ((pre @ [amt a]) @ map amt (filter P as)) (Suc i) (length (pre @ [amt a])) as = Ok ()"
      using Cons.prems(1) set0 by (auto simp: list_get_def nth_append split: if_splits)
    from this(1) Cons.IH [OF this(2) rest] show ?thesis
      by (auto simp: less_Suc_eq_0_disj)
  next
    case False
    show ?thesis
    proof (cases "P a")
      case True
      with False show ?thesis by auto
    next
      case False
      then have "check_balances L' bm (pre @ map amt (filter P as)) (Suc i) (length pre) as = Ok ()"
        using Cons.prems(1) set0 by simp
      then show ?thesis
        using Cons.IH [OF _ rest] False by (auto simp: less_Suc_eq_0_disj)
    qed
  qed
qed simp

lemma snapshot_bitmap_iff:
  fixes L E titan
  defines "P \<equiv> \<lambda>a. is_titan_pda_token_account E L (ai_key a) titan"
  assumes "take_snapshot E L titan m 0 ra snapshot_new = Ok sn" and "j < length ra"
  shows "bitmap_is_set (snap_bitmap sn) j \<longleftrightarrow> P (ra ! j) \<and> j < 256"
  using take_snapshot_result [OF assms(2)] assms(3)
  by (auto simp: snapshot_new_def titan_bits.mem_of_list set_tracked_from P_def)

lemma final_check_sound:
  assumes "take_snapshot E L titan m 0 ra snapshot_new = Ok sn"
    and "check_balances L' (snap_bitmap sn) (snap_balances sn) 0 0 ra = Ok ()"
    and "j < length ra" and "j < 256" and "is_titan_pda_token_account E L (ai_key (ra ! j)) titan"
  shows "token_amount_or_zero L (ai_key (ra ! j)) \<le> token_amount_or_zero L' (ai_key (ra ! j))"
proof -
  let ?P = "\<lambda>a. is_titan_pda_token_account E L (ai_key a) titan"
  let ?amt = "\<lambda>a. token_amount_or_zero L (ai_key a)"
  have "check_balances L' (snap_bitmap sn) ([] @ map ?amt (filter ?P ra)) 0 (length []) ra = Ok ()"
    using assms(2) take_snapshot_result [OF assms(1)] by (simp add: snapshot_new_def)
  from check_balances_sound [OF this] snapshot_bitmap_iff [OF assms(1)] show ?thesis
    using assms(3-5) by auto
qed

subsection \<open>The trace of each phase\<close>

text \<open>\<open>evolves R s tr s'\<close>: the calls \<open>tr\<close> were made in this order, and the ledger is what the runtime
  makes of them; the handler itself never writes to an account.\<close>

fun replay :: "runtime \<Rightarrow> cpi list \<Rightarrow> ledger \<Rightarrow> ledger route_result" where
  "replay R [] L = Ok L"
| "replay R (c # cs) L = and_then (R c L) (replay R cs)"

definition evolves :: "runtime \<Rightarrow> rt \<Rightarrow> cpi list \<Rightarrow> rt \<Rightarrow> bool" where
  "evolves R s tr s' \<longleftrightarrow> rt_trace s' = rt_trace s @ tr \<and> replay R tr (rt_ledger s) = Ok (rt_ledger s')"

lemma replay_append: "replay R (xs @ ys) L = and_then (replay R xs L) (replay R ys)"
  by (induction xs arbitrary: L) (simp_all add: and_then_assoc fun_eq_iff cong: and_then_cong)

lemma evolves_refl [simp, intro]: "evolves R s [] s"
  by (simp add: evolves_def)

lemma evolves_append: "evolves R s xs s1 \<Longrightarrow> evolves R s1 ys s2 \<Longrightarrow> evolves R s (xs @ ys) s2"
  by (simp add: evolves_def replay_append)

lemma invoke_cpi_evolves: "invoke_cpi R c s = Ok s' \<Longrightarrow> evolves R s [c] s'"
  by (auto simp: invoke_cpi_def evolves_def outcome_simps)

lemma transfer_tokens_trace:
  assumes "transfer_tokens R E tp src dst auth (Some m) amt dec seeds s = Ok s'"
  shows "evolves R s (transfer_calls E tp src dst auth m amt dec seeds) s'"
  using assms
  by (auto simp: transfer_tokens_def transfer_calls_def outcome_simps dest: invoke_cpi_evolves split: if_splits)

text \<open>\<open>emits P s s'\<close>: between \<open>s\<close> and \<open>s'\<close> only invocations satisfying \<open>P\<close> were made.\<close>

definition emits :: "runtime \<Rightarrow> (cpi \<Rightarrow> bool) \<Rightarrow> rt \<Rightarrow> rt \<Rightarrow> bool" where
  "emits R P s s' \<longleftrightarrow> (\<exists>calls. evolves R s calls s' \<and> list_all P calls)"

lemma emits_refl [simp]: "emits R P s s"
  by (auto simp: emits_def intro!: exI [of _ "[]"])

lemma emits_invoke: "invoke_cpi R c s = Ok s' \<Longrightarrow> P c \<Longrightarrow> emits R P s s'"
  by (drule invoke_cpi_evolves) (auto simp: emits_def)

lemma emits_trans: "emits R P s s1 \<Longrightarrow> emits R P s1 s' \<Longrightarrow> emits R P s s'"
  unfolding emits_def by (metis evolves_append list_all_append)

lemma create_missing_atas_trace:
  assumes "create_missing_atas R E ctx ra m n created s = Ok (s', created')"
  shows "emits R (is_titan_ata_creation ctx) s s'"
  using assms
proof (induction n arbitrary: created s)
  case (Suc n)
  then show ?case
    by (cases "remaining_get ra (m - Suc n)")
      (auto simp: Let_def outcome_simps create_titan_pda_ata_def split: if_splits
        intro: emits_trans [OF emits_invoke])
qed simp

lemma close_created_atas_trace:
  assumes "close_created_atas R E ctx seeds ra m created n s = Ok s'"
  shows "emits R (is_titan_ata_close ctx seeds) s s'"
  using assms
proof (induction n arbitrary: s)
  case (Suc n)
  then show ?case
    by (auto simp: Let_def outcome_simps close_titan_pda_ata_def split: if_splits
        intro: emits_trans [OF emits_invoke])
qed simp

lemma setup_wsol_trace:
  assumes "setup_wsol_input_account R p w a m tp sysp amt s = Ok (s', b)"
  shows "emits R is_wsol_setup s s'"
  using assms
  by (auto simp: setup_wsol_input_account_def transfer_sol_and_sync_def outcome_simps split: if_splits
      dest!: emits_invoke [where P = is_wsol_setup] intro: emits_trans)

lemma deposit_input_trace:
  assumes "deposit_input R E ctx ra m dec lg eff s = Ok s'"
  obtains s1 tp s2 where "emits R is_wsol_setup s s1"
    "evolves R s1 (transfer_calls E tp (sr_input_token_account ctx) (ai_key (ra ! 0)) (sr_user ctx) m eff dec None) s2"
    "emits R (is_wsol_close ctx) s2 s'"
    "lg \<noteq> None \<or> \<not> is_native_mint E m \<longrightarrow> s1 = s \<and> s' = s2"
proof -
  let ?tp = "get_token_program_for_mint E (rt_ledger s) m (sr_token_program ctx) (sr_token_2022_program ctx)"
  obtain a s1 b s2 where a: "remaining_get ra 0 = Ok a"
    and wrap: "(if lg = None \<and> is_native_mint E m
             then setup_wsol_input_account R (sr_payer ctx) (sr_user ctx) (sr_input_token_account ctx)
                    m ?tp (sr_system_program ctx) eff s
             else Ok (s, False)) = Ok (s1, b)"
    and tr: "transfer_tokens R E ?tp (sr_input_token_account ctx) (ai_key a) (sr_user ctx) (Some m) eff dec None s1 = Ok s2"
    and cl: "(if b then close_token_account R (sr_input_token_account ctx) (sr_payer ctx) (sr_user ctx) ?tp None s2
              else Ok s2) = Ok s'"
    using assms unfolding deposit_input_def Let_def by (auto simp: and_then_Ok_iff)
  have "a = ra ! 0"
    using a by (auto simp: remaining_get_def list_get_def outcome_simps split: if_splits)
  moreover have "emits R is_wsol_setup s s1"
    using wrap by (auto split: if_splits dest: setup_wsol_trace)
  moreover have "emits R (is_wsol_close ctx) s2 s'"
    using cl by (auto simp: close_token_account_def split: if_splits
        dest!: emits_invoke [where P = "is_wsol_close ctx"])
  moreover have "lg \<noteq> None \<or> \<not> is_native_mint E m \<longrightarrow> s1 = s \<and> s' = s2"
    using wrap cl by (auto split: if_splits)
  ultimately show ?thesis
    using transfer_tokens_trace [OF tr] that [of s1 ?tp s2] by simp
qed

subsection \<open>The legs\<close>

fun leg_slices :: "AccountInfo list \<Rightarrow> nat \<Rightarrow> ProgSwapSpec list \<Rightarrow> AccountInfo list list" where
  "leg_slices ra idx [] = []"
| "leg_slices ra idx (swap # swaps) =
     take (unat (ps_n_accounts swap)) (drop idx ra) # leg_slices ra (idx + unat (ps_n_accounts swap)) swaps"

definition leg_call :: "pubkey \<Rightarrow> signer_seeds \<Rightarrow> AccountInfo list \<Rightarrow> u64 \<Rightarrow> cpi" where
  "leg_call titan seeds accts amt =
     InvokeSigned
       \<lparr>ix_program_id = ai_key (last accts), ix_accounts = leg_account_metas titan (butlast accts),
        ix_data = SWAP_V3_DYN_DISCRIMINATOR @ to_le_bytes 8 amt @ replicate 24 0 @ [1]\<rparr>
       (map ai_key accts) seeds"

definition leg_calls :: "pubkey \<Rightarrow> signer_seeds \<Rightarrow> AccountInfo list list \<Rightarrow> u64 list \<Rightarrow> cpi list" where
  "leg_calls titan seeds slices amts =
     concat (map2 (\<lambda>accts amt. if amt = 0 then [] else [leg_call titan seeds accts amt]) slices amts)"

lemma length_leg_slices [simp]: "length (leg_slices ra idx swaps) = length swaps"
  by (induction swaps arbitrary: idx) simp_all

lemma concat_leg_slices:
  "concat (leg_slices ra idx swaps) = take ((\<Sum>sw\<leftarrow>swaps. unat (ps_n_accounts sw))) (drop idx ra)"
  by (induction swaps arbitrary: idx) (simp_all add: take_add add.commute)

lemma map_length_leg_slices:
  "idx + (\<Sum>sw\<leftarrow>swaps. unat (ps_n_accounts sw)) \<le> length ra \<Longrightarrow>
     map length (leg_slices ra idx swaps) = map (unat \<circ> ps_n_accounts) swaps"
  by (induction swaps arbitrary: idx) (auto simp: add.assoc)

lemma swap_v3_dyn_data:
  "swap_v3_dyn p amt metas = Ok [\<lparr>ix_program_id = p, ix_accounts = metas,
     ix_data = SWAP_V3_DYN_DISCRIMINATOR @ to_le_bytes 8 amt @ replicate 24 0 @ [1]\<rparr>]"
  by (simp add: swap_v3_dyn_def to_le_bytes_def nat_le_bytes_zero flip: replicate_add append_assoc)

lemma perform_cpi_swap_trace:
  assumes "perform_cpi_swap R amt swap (leg_account_metas titan (butlast accts)) accts seeds s = Ok s'"
  shows "evolves R s ([leg_call titan seeds accts amt]) s'"
  using assms
  by (cases "ps_venue swap")
    (auto simp: perform_cpi_swap_def swap_v3_dyn_data leg_call_def Let_def outcome_simps
      dest: invoke_cpi_evolves split: if_splits)

lemma run_legs_ConsE:
  assumes "run_legs R titan seeds reserved ra idx (swap # swaps) s = Ok s'"
  obtains bal s1 where "0 < ps_n_accounts swap" "idx + unat (ps_n_accounts swap) \<le> length ra"
    "unat (ps_from swap) < length ra" "unat (ps_from swap) < length reserved"
    "extract_token_amount (rt_ledger s) (ai_key (ra ! unat (ps_from swap))) = Ok bal"
    "evolves R s (leg_calls titan seeds [take (unat (ps_n_accounts swap)) (drop idx ra)]
       [leg_input_amount bal (reserved ! unat (ps_from swap)) (ps_weight_nanos swap)]) s1"
    "run_legs R titan seeds reserved ra (idx + unat (ps_n_accounts swap)) swaps s1 = Ok s'"
proof -
  let ?n = "unat (ps_n_accounts swap)" and ?f = "unat (ps_from swap)"
  let ?slice = "take ?n (drop idx ra)"
  have n: "0 < ?n" "idx + ?n \<le> length ra"
    using assms by (auto simp: Let_def split: if_splits)
  then have f: "?f < length ra" "?f < length reserved"
    using assms by (auto simp: Let_def outcome_simps remaining_get_def list_get_def split: if_split_asm)
  obtain bal s1 where bal: "extract_token_amount (rt_ledger s) (ai_key (ra ! ?f)) = Ok bal"
    and leg: "(if 0 < leg_input_amount bal (reserved ! ?f) (ps_weight_nanos swap)
          then perform_cpi_swap R (leg_input_amount bal (reserved ! ?f) (ps_weight_nanos swap)) swap
                 (leg_account_metas titan (take (?n - 1) ?slice)) ?slice seeds s
          else Ok s) = Ok s1"
    and rest: "run_legs R titan seeds reserved ra (idx + ?n) swaps s1 = Ok s'"
    using assms n f
    by (auto simp: Let_def and_then_Ok_iff remaining_get_def list_get_def
        simp del: take_take One_nat_def split del: if_split)
  have "butlast ?slice = take (?n - 1) ?slice"
    using n by (auto simp: butlast_conv_take min_def intro!: arg_cong [where f = "\<lambda>k. take k (drop idx ra)"])
  from leg [folded this] have "evolves R s (leg_calls titan seeds [?slice]
      [leg_input_amount bal (reserved ! ?f) (ps_weight_nanos swap)]) s1"
    by (auto simp: leg_calls_def word_neq_0_conv dest!: perform_cpi_swap_trace split: if_split_asm)
  then show ?thesis
    using that n f bal rest by (simp add: word_less_nat_alt)
qed

lemma leg_calls_Cons [simp]:
  "leg_calls titan seeds (sl # slices) (a # amts) =
     (if a = 0 then [] else [leg_call titan seeds sl a]) @ leg_calls titan seeds slices amts"
  by (simp add: leg_calls_def)

lemma leg_calls_Nil [simp]: "leg_calls titan seeds [] amts = []"
  by (simp add: leg_calls_def)

definition leg_amounts ::
  "runtime \<Rightarrow> pubkey \<Rightarrow> signer_seeds \<Rightarrow> u64 list \<Rightarrow> AccountInfo list \<Rightarrow> nat \<Rightarrow> ProgSwapSpec list \<Rightarrow> ledger
   \<Rightarrow> u64 list \<Rightarrow> bool" where
  "leg_amounts R titan seeds reserved ra idx swaps L amts \<longleftrightarrow> length amts = length swaps \<and>
     (\<forall>i < length swaps. \<exists>Li.
        replay R (leg_calls titan seeds (take i (leg_slices ra idx swaps)) (take i amts)) L = Ok Li
        \<and> amts ! i = leg_input_amount (token_amount_or_zero Li (ai_key (ra ! unat (ps_from (swaps ! i)))))
            (reserved ! unat (ps_from (swaps ! i))) (ps_weight_nanos (swaps ! i)))"

lemma leg_amounts_Cons:
  assumes "replay R (leg_calls titan seeds [take (unat (ps_n_accounts swap)) (drop idx ra)] [a]) L = Ok L1"
    and "a = leg_input_amount (token_amount_or_zero L (ai_key (ra ! unat (ps_from swap))))
      (reserved ! unat (ps_from swap)) (ps_weight_nanos swap)"
    and "leg_amounts R titan seeds reserved ra (idx + unat (ps_n_accounts swap)) swaps L1 amts"
  shows "leg_amounts R titan seeds reserved ra idx (swap # swaps) L (a # amts)"
  unfolding leg_amounts_def
proof (intro conjI allI impI)
  show "length (a # amts) = length (swap # swaps)"
    using assms(3) by (simp add: leg_amounts_def)
  fix i
  assume i: "i < length (swap # swaps)"
  show "\<exists>Li. replay R (leg_calls titan seeds (take i (leg_slices ra idx (swap # swaps))) (take i (a # amts))) L = Ok Li
    \<and> (a # amts) ! i = leg_input_amount
        (token_amount_or_zero Li (ai_key (ra ! unat (ps_from ((swap # swaps) ! i)))))
        (reserved ! unat (ps_from ((swap # swaps) ! i))) (ps_weight_nanos ((swap # swaps) ! i))"
  proof (cases i)
    case 0
    with assms(2) show ?thesis by simp
  next
    case (Suc k)
    with assms(1, 3) i show ?thesis
      by (simp add: replay_append leg_amounts_def)
  qed
qed

lemma run_legs_trace:
  assumes "run_legs R titan seeds reserved ra idx swaps s = Ok s'"
  shows "\<exists>amts. leg_amounts R titan seeds reserved ra idx swaps (rt_ledger s) amts
      \<and> evolves R s (leg_calls titan seeds (leg_slices ra idx swaps) amts) s'
      \<and> (swaps \<noteq> [] \<longrightarrow> idx + (\<Sum>sw\<leftarrow>swaps. unat (ps_n_accounts sw)) \<le> length ra)"
  using assms
proof (induction swaps arbitrary: idx s)
  case (Cons swap swaps)
  let ?n = "unat (ps_n_accounts swap)"
  from Cons.prems obtain bal s1 where n: "idx + ?n \<le> length ra"
    and bal: "extract_token_amount (rt_ledger s) (ai_key (ra ! unat (ps_from swap))) = Ok bal"
    and step: "evolves R s (leg_calls titan seeds [take ?n (drop idx ra)]
       [leg_input_amount bal (reserved ! unat (ps_from swap)) (ps_weight_nanos swap)]) s1"
    and rest: "run_legs R titan seeds reserved ra (idx + ?n) swaps s1 = Ok s'"
    by (rule run_legs_ConsE)
  let ?a = "leg_input_amount bal (reserved ! unat (ps_from swap)) (ps_weight_nanos swap)"
  from Cons.IH [OF rest] obtain amts where
    amts: "leg_amounts R titan seeds reserved ra (idx + ?n) swaps (rt_ledger s1) amts"
    and ev: "evolves R s1 (leg_calls titan seeds (leg_slices ra (idx + ?n) swaps) amts) s'"
    and len: "swaps \<noteq> [] \<longrightarrow> idx + ?n + (\<Sum>sw\<leftarrow>swaps. unat (ps_n_accounts sw)) \<le> length ra"
    by blast
  have "leg_amounts R titan seeds reserved ra idx (swap # swaps) (rt_ledger s) (?a # amts)"
    using step amts by (intro leg_amounts_Cons) (simp_all add: evolves_def token_amount_or_zero_def bal)
  moreover have "evolves R s (leg_calls titan seeds (leg_slices ra idx (swap # swaps)) (?a # amts)) s'"
    using evolves_append [OF step ev] by simp
  ultimately show ?case
    using n len by (intro exI [of _ "?a # amts"]) (auto simp: add.assoc)
qed (simp add: leg_amounts_def)

subsection \<open>Amounts\<close>

lemma unat_ucast_up:
  assumes "LENGTH('a::len) \<le> LENGTH('b::len)"
  shows "unat (ucast (w :: 'a word) :: 'b word) = unat w"
proof -
  have "unat w < 2 ^ LENGTH('a)"
    by (rule unsigned_less)
  also have "\<dots> \<le> 2 ^ LENGTH('b)"
    using assms by simp
  finally show ?thesis
    by (simp add: unsigned_ucast_eq take_bit_nat_eq_self)
qed

lemma unat_leg_input_amount:
  "unat (leg_input_amount bal res w) =
     (unat bal - unat res) * min (unat w) 1000000000 div 1000000000"
proof -
  let ?a = "unat bal - unat res" and ?w = "min (unat w) 1000000000"
  have a: "?a < 2 ^ 64"
    by (rule less_imp_diff_less) simp
  have w: "unat (min w 1000000000) = ?w"
    by (simp add: min_def word_le_nat_alt)
  have "?a * ?w \<le> 2 ^ 64 * 1000000000"
    using a by (intro mult_mono) simp_all
  then have mul: "unat (saturating_mul (ucast (saturating_sub bal res) :: u128) (ucast (min w 1000000000))) = ?a * ?w"
    by (simp add: unat_saturating_mul unat_saturating_sub unat_ucast_up w)
  have "?a * ?w div 1000000000 \<le> ?a * 1000000000 div 1000000000"
    by (intro div_le_mono mult_le_mono) simp_all
  then have "?a * ?w div 1000000000 \<le> ?a"
    by simp
  then have "?a * ?w div 1000000000 < 2 ^ 64"
    using a by (rule le_less_trans)
  then show ?thesis
    by (simp add: leg_input_amount_def Let_def unsigned_ucast_eq take_bit_nat_eq_self unat_div mul)
qed

lemma take_snapshot_reserved:
  assumes "take_snapshot E L titan m i as sn = Ok sn'"
    and "m \<le> i + length as" and "m \<le> length (snap_reserved sn)"
  shows "(\<forall>j < i. snap_reserved sn' ! j = snap_reserved sn ! j)
    \<and> (\<forall>j. i \<le> j \<longrightarrow> j < m \<longrightarrow> snap_reserved sn' ! j = token_amount_or_zero L (ai_key (as ! (j - i))))"
  using assms
proof (induction as arbitrary: i sn)
  case (Cons a as)
  show ?case
  proof (cases "i < m")
    case True
    let ?amt = "token_amount_or_zero L (ai_key a)"
    obtain sn1 where sn1: "take_snapshot E L titan m (Suc i) as sn1 = Ok sn'"
      "snap_reserved sn1 = (snap_reserved sn)[i := ?amt]"
      using Cons.prems(1) True
      by (force simp: titan_account_amount split: if_splits)
    have "(\<forall>j < Suc i. snap_reserved sn' ! j = snap_reserved sn1 ! j)
      \<and> (\<forall>j. Suc i \<le> j \<longrightarrow> j < m \<longrightarrow> snap_reserved sn' ! j = token_amount_or_zero L (ai_key (as ! (j - Suc i))))"
      using Cons.prems sn1 by (intro Cons.IH) simp_all
    then show ?thesis
      using sn1(2) True Cons.prems(3) by (auto simp: nth_Cons' nth_list_update)
  next
    case False
    then obtain sn1 where "take_snapshot E L titan m (Suc i) as sn1 = Ok sn'"
      "snap_reserved sn1 = snap_reserved sn"
      using Cons.prems(1) by (force simp: titan_account_amount split: if_splits)
    then show ?thesis
      using Cons.IH [of "Suc i" sn1] Cons.prems False by auto
  qed
qed simp

lemma snapshot_reserved:
  assumes "take_snapshot E L titan m 0 ra snapshot_new = Ok sn" and "m \<le> length ra" and "m \<le> 12" and "j < m"
  shows "snap_reserved sn ! j = token_amount_or_zero L (ai_key (ra ! j))"
  using take_snapshot_reserved [OF assms(1)] assms(2-4) by (simp add: snapshot_new_def MAX_MINTS_def)

lemma settle_output_trace:
  assumes "settle_output R E ctx seeds ra reserved k mint dec s = Ok s'"
  obtains tp s1 where
    "emits R (\<lambda>c. \<exists>tp. c = CreateAtaIdempotent (sr_payer ctx) (sr_user ctx) mint tp
        [sr_payer ctx, sr_output_token_account ctx, sr_user ctx, mint, sr_system_program ctx, tp]) s s1"
    "evolves R s1 (transfer_calls E tp (ai_key (ra ! k)) (sr_output_token_account ctx)
        (sr_titan_pda ctx) mint
        (saturating_sub (token_amount_or_zero (rt_ledger s) (ai_key (ra ! k))) (reserved ! k)) dec (Some seeds)) s'"
proof -
  let ?tp = "get_token_program_for_mint E (rt_ledger s) mint (sr_token_program ctx) (sr_token_2022_program ctx)"
  let ?C = "\<lambda>c. \<exists>tp. c = CreateAtaIdempotent (sr_payer ctx) (sr_user ctx) mint tp
        [sr_payer ctx, sr_output_token_account ctx, sr_user ctx, mint, sr_system_program ctx, tp]"
  have k: "k < length ra" "k < length reserved"
    using assms by (auto simp: settle_output_def remaining_get_def list_get_def outcome_simps split: if_splits)
  obtain bal s1 where bal: "extract_token_amount (rt_ledger s) (ai_key (ra ! k)) = Ok bal"
    and cr: "(if \<not> account_exists (rt_ledger s) (sr_output_token_account ctx)
              then create_user_ata R (sr_payer ctx) (sr_user ctx) mint (sr_output_token_account ctx) ?tp
                     (sr_system_program ctx) s
              else Ok s) = Ok s1"
    and tr: "transfer_tokens R E ?tp (ai_key (ra ! k)) (sr_output_token_account ctx) (sr_titan_pda ctx)
               (Some mint) (saturating_sub bal (reserved ! k)) dec (Some seeds) s1 = Ok s'"
    using assms k
    by (auto simp: settle_output_def remaining_get_def list_get_def and_then_Ok_iff Let_def split del: if_split)
  have "emits R ?C s s1"
    using cr by (auto simp: create_user_ata_def split: if_splits dest!: emits_invoke [where P = ?C])
  moreover have "bal = token_amount_or_zero (rt_ledger s) (ai_key (ra ! k))"
    by (simp add: token_amount_or_zero_def bal)
  ultimately show ?thesis
    using transfer_tokens_trace [OF tr] that by simp
qed

subsection \<open>A whole run\<close>

text \<open>The calls a route may make: token account creations, the deposit (with the wrapping of native
  SOL around it), the legs, the payout, and the closing of token accounts.\<close>

definition deposit_calls :: "prog_env \<Rightarrow> SwapRouteV3 \<Rightarrow> pubkey \<Rightarrow> pubkey \<Rightarrow> u64 \<Rightarrow> cpi list \<Rightarrow> bool" where
  "deposit_calls E ctx dst mint amt tr \<longleftrightarrow> (\<exists>wrap tp dec unwrap.
     tr = wrap @ transfer_calls E tp (sr_input_token_account ctx) dst (sr_user ctx) mint amt dec None @ unwrap
     \<and> list_all is_wsol_setup wrap \<and> list_all (is_wsol_close ctx) unwrap)"

definition user_ata_creation :: "SwapRouteV3 \<Rightarrow> pubkey \<Rightarrow> cpi \<Rightarrow> bool" where
  "user_ata_creation ctx mint c \<longleftrightarrow> (\<exists>tp. c = CreateAtaIdempotent (sr_payer ctx) (sr_user ctx) mint tp
     [sr_payer ctx, sr_output_token_account ctx, sr_user ctx, mint, sr_system_program ctx, tp])"

definition payout_calls :: "prog_env \<Rightarrow> SwapRouteV3 \<Rightarrow> pubkey \<Rightarrow> pubkey \<Rightarrow> u64 \<Rightarrow> cpi list \<Rightarrow> bool" where
  "payout_calls E ctx src mint amt tr \<longleftrightarrow> (\<exists>create tp dec.
     tr = create @ transfer_calls E tp src (sr_output_token_account ctx) (sr_titan_pda ctx) mint amt dec
       (Some (titan_seeds ctx))
     \<and> list_all (user_ata_creation ctx mint) create)"

lemma remaining_get_Ok: "remaining_get ra i = Ok a \<longleftrightarrow> i < length ra \<and> a = ra ! i"
  by (auto simp: remaining_get_def ok_or_Ok_iff list_get_Some_iff)

lemma emitsE:
  assumes "emits R P s s'"
  obtains tr where "evolves R s tr s'" and "list_all P tr"
  using assms by (auto simp: emits_def list_all_iff)

lemma deposit_input_calls:
  assumes "deposit_input R E ctx ra m dec lg eff s = Ok s'"
  obtains tr where "evolves R s tr s'" and "deposit_calls E ctx (ai_key (ra ! 0)) m eff tr"
proof -
  from assms obtain s1 tp s2 where "emits R is_wsol_setup s s1"
    and tr: "evolves R s1 (transfer_calls E tp (sr_input_token_account ctx) (ai_key (ra ! 0)) (sr_user ctx) m eff dec None) s2"
    and "emits R (is_wsol_close ctx) s2 s'"
    by (rule deposit_input_trace)
  then obtain w u where "evolves R s w s1" "list_all is_wsol_setup w"
    "evolves R s2 u s'" "list_all (is_wsol_close ctx) u"
    by (metis emitsE)
  with tr show ?thesis
    by (intro that [of "w @ transfer_calls E tp (sr_input_token_account ctx) (ai_key (ra ! 0)) (sr_user ctx) m eff dec None @ u"])
      (auto simp: deposit_calls_def intro!: evolves_append)
qed

lemma settle_output_calls:
  assumes "settle_output R E ctx (titan_seeds ctx) ra reserved k mint dec s = Ok s'"
  obtains tr where "evolves R s tr s'"
    and "payout_calls E ctx (ai_key (ra ! k)) mint
      (saturating_sub (token_amount_or_zero (rt_ledger s) (ai_key (ra ! k))) (reserved ! k)) tr"
proof -
  let ?out = "saturating_sub (token_amount_or_zero (rt_ledger s) (ai_key (ra ! k))) (reserved ! k)"
  from assms obtain tp s1 where "emits R (user_ata_creation ctx mint) s s1"
    and tr: "evolves R s1 (transfer_calls E tp (ai_key (ra ! k)) (sr_output_token_account ctx)
        (sr_titan_pda ctx) mint ?out dec (Some (titan_seeds ctx))) s'"
    by (rule settle_output_trace) (auto simp: user_ata_creation_def [abs_def])
  then obtain c where "evolves R s c s1" "list_all (user_ata_creation ctx mint) c"
    by (metis emitsE)
  with tr show ?thesis
    by (intro that [of "c @ transfer_calls E tp (ai_key (ra ! k)) (sr_output_token_account ctx)
        (sr_titan_pda ctx) mint ?out dec (Some (titan_seeds ctx))"])
      (auto simp: payout_calls_def intro!: evolves_append)
qed

definition spent_amount :: "SwapRouteV3 \<Rightarrow> u64 \<Rightarrow> ledger \<Rightarrow> ledger \<Rightarrow> u64 \<Rightarrow> bool" where
  "spent_amount ctx amount L0 L1 eff \<longleftrightarrow>
     (case sr_token_ledger ctx of
        None \<Rightarrow> eff = amount
      | Some _ \<Rightarrow> 0 < eff \<and> (\<exists>stored current.
          read_token_ledger L0 (sr_token_ledger ctx) (sr_input_token_account ctx) = Ok (Some stored)
          \<and> extract_token_amount L1 (sr_input_token_account ctx) = Ok current
          \<and> unat current = unat stored + unat eff))"

lemma spent_amountI:
  assumes "read_token_ledger L0 (sr_token_ledger ctx) (sr_input_token_account ctx) = Ok lg"
    and "effective_amount L1 (sr_input_token_account ctx) lg amount = Ok eff"
  shows "spent_amount ctx amount L0 L1 eff"
proof (cases "sr_token_ledger ctx")
  case None
  then show ?thesis
    using assms by (simp add: spent_amount_def read_token_ledger_def effective_amount_def)
next
  case (Some k)
  then obtain stored where "lg = Some stored"
    using assms(1) by (auto simp: read_token_ledger_def Let_def outcome_simps split: if_splits)
  then show ?thesis
    using assms Some
    by (auto simp: spent_amount_def effective_amount_def outcome_simps dest: checked_sub_unat split: if_splits)
qed

definition reserves :: "ledger \<Rightarrow> AccountInfo list \<Rightarrow> nat \<Rightarrow> u64 list" where
  "reserves L ra m = map (\<lambda>a. token_amount_or_zero L (ai_key a)) (take m ra)"

lemma nth_reserves: "j < m \<Longrightarrow> m \<le> length ra \<Longrightarrow> reserves L ra m ! j = token_amount_or_zero L (ai_key (ra ! j))"
  by (simp add: reserves_def)

lemma leg_amounts_reserved_cong:
  assumes "\<forall>sw \<in> set swaps. r ! unat (ps_from sw) = r' ! unat (ps_from sw)"
  shows "leg_amounts R titan seeds r ra idx swaps L amts = leg_amounts R titan seeds r' ra idx swaps L amts"
  using assms by (auto simp: leg_amounts_def)

text \<open>A route run: the token accounts are created (\<open>sA\<close>), the input is deposited (\<open>sB\<close>), the legs run
  (\<open>sE\<close>), the output is paid and created accounts are closed.\<close>

definition route_run ::
  "runtime \<Rightarrow> prog_env \<Rightarrow> SwapRouteV3 \<Rightarrow> AccountInfo list \<Rightarrow> u64 \<Rightarrow> nat \<Rightarrow> ProgSwapSpec list \<Rightarrow> rt \<Rightarrow> rt \<Rightarrow> rt \<Rightarrow> rt
   \<Rightarrow> u64 \<Rightarrow> rt \<Rightarrow> bool" where
  "route_run R E ctx ra amount m swaps s0 sA sB sE eff s' \<longleftrightarrow> (\<exists>create deposit amts pay close.
     evolves R s0 create sA \<and> list_all (is_titan_ata_creation ctx) create
   \<and> spent_amount ctx amount (rt_ledger s0) (rt_ledger sA) eff
   \<and> evolves R sA deposit sB \<and> deposit_calls E ctx (ai_key (ra ! 0)) (ai_key (ra ! m)) eff deposit
   \<and> evolves R sB (leg_calls (sr_titan_pda ctx) (titan_seeds ctx) (leg_slices ra (2 * m) swaps) amts) sE
   \<and> leg_amounts R (sr_titan_pda ctx) (titan_seeds ctx) (reserves (rt_ledger sA) ra m) ra (2 * m) swaps
       (rt_ledger sB) amts
   \<and> evolves R sE (pay @ close) s'
   \<and> payout_calls E ctx (ai_key (ra ! unat (ps_to (last swaps))))
       (ai_key (ra ! (m + unat (ps_to (last swaps)))))
       (saturating_sub (token_amount_or_zero (rt_ledger sE) (ai_key (ra ! unat (ps_to (last swaps)))))
         (reserves (rt_ledger sA) ra m ! unat (ps_to (last swaps)))) pay
   \<and> list_all (is_titan_ata_close ctx (titan_seeds ctx)) close)"

lemma execute_run:
  assumes "execute R E ctx ra amount mints swaps s0 = Ok s'"
  obtains sA sB sE eff where
    "route_run R E ctx ra amount (unat mints) swaps s0 sA sB sE eff s'"
    "\<And>j. j < length ra \<Longrightarrow> j < 256 \<Longrightarrow>
       is_titan_pda_token_account E (rt_ledger sA) (ai_key (ra ! j)) (sr_titan_pda ctx) \<Longrightarrow>
       token_amount_or_zero (rt_ledger sA) (ai_key (ra ! j)) \<le> token_amount_or_zero (rt_ledger s') (ai_key (ra ! j))"
    "2 * unat mints + (\<Sum>sw\<leftarrow>swaps. unat (ps_n_accounts sw)) \<le> length ra"
proof -
  let ?k = "unat (ps_to (last swaps))" and ?m = "unat mints"
  from assms obtain lg im om idec odec s1 created sn eff s2 s3 s4 where
    v: "validate_route mints swaps ra = Ok ()"
    and lg: "read_token_ledger (rt_ledger s0) (sr_token_ledger ctx) (sr_input_token_account ctx) = Ok lg"
    and im: "remaining_get ra ?m = Ok im" and om: "remaining_get ra (?m + ?k) = Ok om"
    and cr: "create_missing_atas R E ctx ra ?m ?m 0 s0 = Ok (s1, created)"
    and sn: "take_snapshot E (rt_ledger s1) (sr_titan_pda ctx) ?m 0 ra snapshot_new = Ok sn"
    and eff: "effective_amount (rt_ledger s1) (sr_input_token_account ctx) lg amount = Ok eff"
    and dep: "deposit_input R E ctx ra (ai_key im) idec lg eff s1 = Ok s2"
    and legs: "run_legs R (sr_titan_pda ctx) (titan_seeds ctx) (snap_reserved sn) ra (2 * ?m) swaps s2 = Ok s3"
    and pay: "settle_output R E ctx (titan_seeds ctx) ra (snap_reserved sn) ?k (ai_key om) odec s3 = Ok s4"
    and cl: "close_created_atas R E ctx (titan_seeds ctx) ra ?m created ?m s4 = Ok s'"
    and ck: "check_balances (rt_ledger s') (snap_bitmap sn) (snap_balances sn) 0 0 ra = Ok ()"
    by (rule execute_OkE)
  have shape: "swaps \<noteq> []" "?m \<le> 12" "2 * ?m \<le> length ra" "?k < ?m" "\<forall>sw \<in> set swaps. unat (ps_from sw) < ?m"
    using v by (auto simp: validate_route_Ok_iff word_less_nat_alt)
  have reserved: "snap_reserved sn ! j = reserves (rt_ledger s1) ra ?m ! j" if "j < ?m" for j
    using shape that snapshot_reserved [OF sn] by (simp add: nth_reserves)
  obtain create where create: "evolves R s0 create s1" "list_all (is_titan_ata_creation ctx) create"
    using create_missing_atas_trace [OF cr] by (rule emitsE)
  obtain deposit where deposit: "evolves R s1 deposit s2"
    "deposit_calls E ctx (ai_key (ra ! 0)) (ai_key (ra ! ?m)) eff deposit"
    using deposit_input_calls [OF dep] im by (auto simp: remaining_get_Ok)
  obtain amts where amts: "evolves R s2 (leg_calls (sr_titan_pda ctx) (titan_seeds ctx) (leg_slices ra (2 * ?m) swaps) amts) s3"
    "leg_amounts R (sr_titan_pda ctx) (titan_seeds ctx) (snap_reserved sn) ra (2 * ?m) swaps (rt_ledger s2) amts"
    and len: "2 * ?m + (\<Sum>sw\<leftarrow>swaps. unat (ps_n_accounts sw)) \<le> length ra"
    using run_legs_trace [OF legs] shape(1) by blast
  have amts': "leg_amounts R (sr_titan_pda ctx) (titan_seeds ctx) (reserves (rt_ledger s1) ra ?m) ra (2 * ?m) swaps
      (rt_ledger s2) amts"
    using amts(2) reserved shape(5)
    by (subst leg_amounts_reserved_cong [where r' = "snap_reserved sn"]) auto
  obtain out where out: "evolves R s3 out s4"
    "payout_calls E ctx (ai_key (ra ! ?k)) (ai_key (ra ! (?m + ?k)))
      (saturating_sub (token_amount_or_zero (rt_ledger s3) (ai_key (ra ! ?k))) (reserves (rt_ledger s1) ra ?m ! ?k)) out"
    using settle_output_calls [OF pay] om reserved [OF shape(4)] by (auto simp: remaining_get_Ok)
  obtain close where close: "evolves R s4 close s'" "list_all (is_titan_ata_close ctx (titan_seeds ctx)) close"
    using close_created_atas_trace [OF cl] by (rule emitsE)
  have "route_run R E ctx ra amount ?m swaps s0 s1 s2 s3 eff s'"
    unfolding route_run_def
    using create deposit amts(1) amts' out(2) close(2) evolves_append [OF out(1) close(1)] spent_amountI [OF lg eff]
    by blast
  then show ?thesis
    using that final_check_sound [OF sn ck] len by blast
qed

text \<open>Token transfers a route makes itself, by who signs them.\<close>

fun is_user_transfer :: "cpi \<Rightarrow> bool" where
  "is_user_transfer (TokenTransfer tp src dst auth amt seeds) \<longleftrightarrow> seeds = None"
| "is_user_transfer (TokenTransferChecked tp src m dst auth amt dec seeds) \<longleftrightarrow> seeds = None"
| "is_user_transfer _ \<longleftrightarrow> False"

fun is_titan_transfer :: "cpi \<Rightarrow> bool" where
  "is_titan_transfer (TokenTransfer tp src dst auth amt seeds) \<longleftrightarrow> seeds \<noteq> None"
| "is_titan_transfer (TokenTransferChecked tp src m dst auth amt dec seeds) \<longleftrightarrow> seeds \<noteq> None"
| "is_titan_transfer _ \<longleftrightarrow> False"

definition is_transfer :: "cpi \<Rightarrow> bool" where
  "is_transfer c \<longleftrightarrow> is_user_transfer c \<or> is_titan_transfer c"

lemma no_transfer:
  "is_titan_ata_creation ctx c \<Longrightarrow> \<not> is_transfer c" "is_wsol_setup c \<Longrightarrow> \<not> is_transfer c"
  "is_wsol_close ctx c \<Longrightarrow> \<not> is_transfer c" "user_ata_creation ctx m c \<Longrightarrow> \<not> is_transfer c"
  "is_titan_ata_close ctx seeds c \<Longrightarrow> \<not> is_transfer c"
  by (cases c; auto simp: is_transfer_def user_ata_creation_def)+

lemma filter_transfers_Nil:
  assumes "list_all P tr" and "\<And>c. P c \<Longrightarrow> \<not> is_transfer c"
  shows "filter is_transfer tr = []"
  using assms by (auto simp: list_all_iff filter_empty_conv)

lemma filter_transfer_calls:
  "filter is_transfer (transfer_calls E tp src dst auth m amt dec seeds) = transfer_calls E tp src dst auth m amt dec seeds"
  by (cases seeds) (simp_all add: transfer_calls_def is_transfer_def)

lemma filter_leg_calls: "filter is_transfer (leg_calls titan seeds slices amts) = []"
  by (auto simp: filter_empty_conv leg_calls_def leg_call_def is_transfer_def split: if_splits)

lemma route_run_transfers:
  assumes "route_run R E ctx ra amount m swaps s0 sA sB sE eff s'"
  obtains tr tpi di tpo dc where "evolves R s0 tr s'"
    "filter is_transfer tr =
       transfer_calls E tpi (sr_input_token_account ctx) (ai_key (ra ! 0)) (sr_user ctx) (ai_key (ra ! m)) eff di None
     @ transfer_calls E tpo (ai_key (ra ! unat (ps_to (last swaps)))) (sr_output_token_account ctx) (sr_titan_pda ctx)
         (ai_key (ra ! (m + unat (ps_to (last swaps)))))
         (saturating_sub (token_amount_or_zero (rt_ledger sE) (ai_key (ra ! unat (ps_to (last swaps)))))
           (reserves (rt_ledger sA) ra m ! unat (ps_to (last swaps)))) dc (Some (titan_seeds ctx))"
proof -
  let ?k = "unat (ps_to (last swaps))"
  let ?out = "saturating_sub (token_amount_or_zero (rt_ledger sE) (ai_key (ra ! ?k))) (reserves (rt_ledger sA) ra m ! ?k)"
  let ?legs = "\<lambda>amts. leg_calls (sr_titan_pda ctx) (titan_seeds ctx) (leg_slices ra (2 * m) swaps) amts"
  from assms obtain create deposit amts pay close where
    ev: "evolves R s0 create sA" "evolves R sA deposit sB" "evolves R sB (?legs amts) sE" "evolves R sE (pay @ close) s'"
    and create: "list_all (is_titan_ata_creation ctx) create"
    and deposit: "deposit_calls E ctx (ai_key (ra ! 0)) (ai_key (ra ! m)) eff deposit"
    and pay: "payout_calls E ctx (ai_key (ra ! ?k)) (ai_key (ra ! (m + ?k))) ?out pay"
    and close: "list_all (is_titan_ata_close ctx (titan_seeds ctx)) close"
    unfolding route_run_def by blast
  obtain tpi di where "filter is_transfer deposit =
      transfer_calls E tpi (sr_input_token_account ctx) (ai_key (ra ! 0)) (sr_user ctx) (ai_key (ra ! m)) eff di None"
    using deposit
    by (auto simp: deposit_calls_def filter_transfer_calls filter_transfers_Nil [OF _ no_transfer(2)]
        filter_transfers_Nil [OF _ no_transfer(3)])
  moreover obtain tpo dc where "filter is_transfer pay =
      transfer_calls E tpo (ai_key (ra ! ?k)) (sr_output_token_account ctx) (sr_titan_pda ctx)
        (ai_key (ra ! (m + ?k))) ?out dc (Some (titan_seeds ctx))"
    using pay
    by (auto simp: payout_calls_def filter_transfer_calls filter_transfers_Nil [OF _ no_transfer(4)])
  moreover have "evolves R s0 (create @ deposit @ ?legs amts @ pay @ close) s'"
    using ev by (meson evolves_append)
  ultimately show ?thesis
    using that [of "create @ deposit @ ?legs amts @ pay @ close" tpi di tpo dc]
    by (simp add: filter_leg_calls filter_transfers_Nil [OF create no_transfer(1)]
        filter_transfers_Nil [OF close no_transfer(5)])
qed

subsection \<open>No panic\<close>

lemma returns_invoke_cpi [returns_intros]: "\<forall>c L. returns (R c L) \<Longrightarrow> returns (invoke_cpi R c s)"
  by (auto simp: invoke_cpi_def intro!: returns_intros)

lemma returns_extract [returns_intros, simp]:
  "returns (extract_token_amount L k)" "returns (extract_mint_decimals L k)" "returns (remaining_get ra i)"
  "returns (read_token_ledger L led k)" "returns (effective_amount L k lg amount)"
  "returns (validate_route mints swaps ra)"
  by (auto simp: extract_token_amount_def extract_mint_decimals_def remaining_get_def read_token_ledger_def
      effective_amount_def validate_route_def Let_def split: option.splits intro!: returns_intros)

lemma returns_transfer_tokens [returns_intros]:
  "\<forall>c L. returns (R c L) \<Longrightarrow> returns (transfer_tokens R E tp src dst auth m amt dec seeds s)"
  by (auto simp: transfer_tokens_def intro!: returns_intros)

lemma returns_create_missing_atas [returns_intros]:
  "\<forall>c L. returns (R c L) \<Longrightarrow> returns (create_missing_atas R E ctx ra m n created s)"
  by (induction n arbitrary: created s) (auto simp: Let_def create_titan_pda_ata_def intro!: returns_intros)

lemma returns_close_created_atas [returns_intros]:
  "\<forall>c L. returns (R c L) \<Longrightarrow> returns (close_created_atas R E ctx seeds ra m created n s)"
  by (induction n arbitrary: s) (auto simp: Let_def close_titan_pda_ata_def intro!: returns_intros)

lemma returns_deposit_input [returns_intros]:
  "\<forall>c L. returns (R c L) \<Longrightarrow> returns (deposit_input R E ctx ra m dec lg eff s)"
  by (auto simp: deposit_input_def setup_wsol_input_account_def transfer_sol_and_sync_def
      close_token_account_def Let_def split: prod.splits intro!: returns_intros)

lemma returns_perform_cpi_swap [returns_intros]:
  "\<forall>c L. returns (R c L) \<Longrightarrow> returns (perform_cpi_swap R amt swap metas infos seeds s)"
  by (cases "ps_venue swap")
    (auto simp: perform_cpi_swap_def swap_v3_dyn_def Let_def intro!: returns_intros)

lemma returns_run_legs [returns_intros]:
  assumes "\<forall>c L. returns (R c L)" and "\<forall>sw \<in> set swaps. unat (ps_from sw) < length reserved"
  shows "returns (run_legs R titan seeds reserved ra idx swaps s)"
  using assms(2)
proof (induction swaps arbitrary: idx s)
  case (Cons sw swaps)
  then show ?case
    using assms(1) by (auto simp: Let_def list_get_def intro!: returns_intros)
qed simp

lemma returns_settle_output [returns_intros]:
  "\<forall>c L. returns (R c L) \<Longrightarrow> k < length reserved \<Longrightarrow> returns (settle_output R E ctx seeds ra reserved k m dec s)"
  by (auto simp: settle_output_def list_get_def create_user_ata_def Let_def intro!: returns_intros)

lemma returns_take_snapshot [returns_intros]:
  "m \<le> length (snap_reserved sn) \<Longrightarrow> returns (take_snapshot E L titan m i as sn)"
  by (induction as arbitrary: i sn) (auto intro!: returns_intros)

lemma returns_check_balances:
  assumes "\<forall>j < length as. bitmap_is_set bm (i + j) \<longrightarrow> P (as ! j)"
    and "b + length (filter P as) \<le> length balances"
  shows "returns (check_balances L bm balances i b as)"
  using assms
proof (induction as arbitrary: i b)
  case (Cons a as)
  have rest: "\<forall>j < length as. bitmap_is_set bm (Suc i + j) \<longrightarrow> P (as ! j)"
    using Cons.prems(1) by (metis Suc_less_eq add_Suc_shift length_Cons nth_Cons_Suc)
  have "bitmap_is_set bm i \<longrightarrow> P a"
    using Cons.prems(1) by force
  then show ?case
    using Cons.IH [OF rest] Cons.prems(2) by (auto simp: list_get_def split: if_splits)
qed simp

lemma returns_execute:
  assumes R: "\<forall>c L. returns (R c L)"
  shows "returns (execute R E ctx ra amount mints swaps s0)"
proof (cases "validate_route mints swaps ra")
  case (Ok u)
  then have "\<forall>sw \<in> set swaps. unat (ps_from sw) < 12" "unat (ps_to (last swaps)) < 12" "unat mints \<le> 12"
    by (fastforce simp: validate_route_Ok_iff word_less_nat_alt dest: bspec [OF _ last_in_set])+
  moreover have "length (snap_reserved sn) = 12" "returns (check_balances L' (snap_bitmap sn) (snap_balances sn) 0 0 ra)"
    if "take_snapshot E L titan m 0 ra snapshot_new = Ok sn" for L titan m sn L'
    using take_snapshot_result [OF that] snapshot_bitmap_iff [OF that]
    by (auto simp: snapshot_new_def MAX_MINTS_def intro!: returns_check_balances [where P = "\<lambda>a. is_titan_pda_token_account E L (ai_key a) titan"])
  ultimately show ?thesis
    using R unfolding execute_def Let_def
    by (intro returns_intros) (auto simp: snapshot_new_def MAX_MINTS_def intro!: returns_intros)
qed (simp_all add: execute_def validate_route_def split: if_splits)

subsection \<open>The venue invocations of a run\<close>

fun is_venue_call :: "cpi \<Rightarrow> bool" where
  "is_venue_call (InvokeSigned ix infos seeds) \<longleftrightarrow> True"
| "is_venue_call _ \<longleftrightarrow> False"

lemma no_venue_call:
  "is_titan_ata_creation ctx c \<Longrightarrow> \<not> is_venue_call c" "is_wsol_setup c \<Longrightarrow> \<not> is_venue_call c"
  "is_wsol_close ctx c \<Longrightarrow> \<not> is_venue_call c" "user_ata_creation ctx m c \<Longrightarrow> \<not> is_venue_call c"
  "is_titan_ata_close ctx seeds c \<Longrightarrow> \<not> is_venue_call c"
  by (cases c; auto simp: user_ata_creation_def)+

lemma filter_venue_Nil: "list_all P tr \<Longrightarrow> (\<And>c. P c \<Longrightarrow> \<not> is_venue_call c) \<Longrightarrow> filter is_venue_call tr = []"
  by (auto simp: list_all_iff filter_empty_conv)

lemma filter_venue_calls:
  "filter is_venue_call (transfer_calls E tp src dst auth m amt dec sds) = []"
  "filter is_venue_call (leg_calls titan seeds slices amts) = leg_calls titan seeds slices amts"
  by (auto simp: transfer_calls_def leg_calls_def leg_call_def filter_id_conv split: if_splits)

lemma route_run_venue_calls:
  assumes "route_run R E ctx ra amount m swaps s0 sA sB sE eff s'"
  shows "\<exists>tr amts. evolves R s0 tr s' \<and> length amts = length swaps
    \<and> filter is_venue_call tr = leg_calls (sr_titan_pda ctx) (titan_seeds ctx) (leg_slices ra (2 * m) swaps) amts"
proof -
  let ?legs = "\<lambda>amts. leg_calls (sr_titan_pda ctx) (titan_seeds ctx) (leg_slices ra (2 * m) swaps) amts"
  from assms obtain create deposit amts pay close src j mint out where
    ev: "evolves R s0 create sA" "evolves R sA deposit sB" "evolves R sB (?legs amts) sE" "evolves R sE (pay @ close) s'"
    and amts: "length amts = length swaps"
    and create: "list_all (is_titan_ata_creation ctx) create"
    and deposit: "deposit_calls E ctx (ai_key (ra ! 0)) (ai_key (ra ! m)) eff deposit"
    and pay: "payout_calls E ctx src mint out pay"
    and close: "list_all (is_titan_ata_close ctx (titan_seeds ctx)) close"
    unfolding route_run_def leg_amounts_def by blast
  have "filter is_venue_call deposit = []" "filter is_venue_call pay = []"
    using deposit pay
    by (auto simp: deposit_calls_def payout_calls_def filter_venue_calls filter_venue_Nil [OF _ no_venue_call(2)]
        filter_venue_Nil [OF _ no_venue_call(3)] filter_venue_Nil [OF _ no_venue_call(4)])
  moreover have "evolves R s0 (create @ deposit @ ?legs amts @ pay @ close) s'"
    using ev by (meson evolves_append)
  ultimately show ?thesis
    using amts
    by (intro exI [of _ "create @ deposit @ ?legs amts @ pay @ close"] exI [of _ amts])
      (simp add: filter_venue_calls filter_venue_Nil [OF create no_venue_call(1)] filter_venue_Nil [OF close no_venue_call(5)])
qed

text \<open>The invocations by position: leg \<open>i\<close> starts behind the accounts of the legs before it.\<close>

definition leg_offset :: "nat \<Rightarrow> ProgSwapSpec list \<Rightarrow> nat \<Rightarrow> nat" where
  "leg_offset idx swaps i = idx + (\<Sum>sw\<leftarrow>take i swaps. unat (ps_n_accounts sw))"

lemma leg_offset_simps [simp]:
  "leg_offset idx swaps 0 = idx"
  "leg_offset idx (sw # swaps) (Suc i) = leg_offset (idx + unat (ps_n_accounts sw)) swaps i"
  by (simp_all add: leg_offset_def)

lemma leg_calls_by_position:
  assumes "length amts = length swaps"
  shows "leg_calls titan seeds (leg_slices ra idx swaps) amts
    = map (\<lambda>i. leg_call titan seeds (take (unat (ps_n_accounts (swaps ! i))) (drop (leg_offset idx swaps i) ra)) (amts ! i))
        (filter (\<lambda>i. amts ! i \<noteq> 0) [0..<length swaps])"
  using assms
proof (induction swaps arbitrary: idx amts)
  case (Cons sw swaps)
  then obtain a amts' where amts: "amts = a # amts'" "length amts' = length swaps"
    by (cases amts) auto
  have "[0..<length (sw # swaps)] = 0 # map Suc [0..<length swaps]"
    by (simp add: map_Suc_upt upt_conv_Cons del: upt_Suc)
  then show ?case
    using Cons.IH [OF amts(2)] by (simp add: amts(1) filter_map comp_def del: upt_Suc)
qed simp

lemma run_legs_in_range:
  assumes "run_legs R titan seeds reserved ra idx swaps s = Ok s'" and "i < length swaps"
  shows "0 < ps_n_accounts (swaps ! i) \<and> leg_offset idx swaps i + unat (ps_n_accounts (swaps ! i)) \<le> length ra"
  using assms
proof (induction swaps arbitrary: idx s i)
  case (Cons sw swaps)
  from Cons.prems(1) obtain bal s1 where here: "0 < ps_n_accounts sw" "idx + unat (ps_n_accounts sw) \<le> length ra"
    and rest: "run_legs R titan seeds reserved ra (idx + unat (ps_n_accounts sw)) swaps s1 = Ok s'"
    by (rule run_legs_ConsE)
  with Cons.prems(2) show ?case
    using Cons.IH [OF rest] by (cases i) simp_all
qed simp

text \<open>The call that \<open>perform_cpi_swap\<close> makes, for a runtime that may fail.\<close>

lemma and_then_id: "(\<And>a. k a = Ok a) \<Longrightarrow> and_then m k = m"
  by (cases m) simp_all

lemma perform_cpi_swap_invokes:
  assumes "accts \<noteq> []"
  shows "perform_cpi_swap R amt swap (leg_account_metas titan (butlast accts)) accts seeds s = invoke_cpi R (leg_call titan seeds accts amt) s"
  using assms by (cases "ps_venue swap") (simp add: perform_cpi_swap_def swap_v3_dyn_data leg_call_def Let_def and_then_id)

end
