(* ===== verification/Program_Properties.thy ===== *)
theory Program_Properties
  imports Program_Guarantees
begin

text \<open>
  The properties of the route program, each over the handler \<open>execute\<close> or one of its phases, with a
  concrete run that shows their hypotheses can hold.
\<close>

subsection \<open>A concrete runtime\<close>

text \<open>A small token program and venue: a transfer moves the amount between the two token accounts,
  and the venue pays 90 units into the second TitanPDA token account.  The route below has two
  mints, one leg of one venue account and the program id.\<close>

definition set_amount :: "pubkey \<Rightarrow> u64 \<Rightarrow> ledger \<Rightarrow> ledger" where
  "set_amount k v L = L(k := (L k)\<lparr>acc_data := take 64 (acc_data (L k)) @ to_le_bytes 8 v @ drop 72 (acc_data (L k))\<rparr>)"

definition demo_titan :: pubkey where
  "demo_titan = replicate 32 9"

fun demo_runtime :: runtime where
  "demo_runtime (TokenTransfer tp src dst auth amt seeds) L =
     Ok (set_amount dst (token_amount_or_zero L dst + amt)
          (set_amount src (token_amount_or_zero L src - amt) L))"
| "demo_runtime (InvokeSigned ix infos seeds) L =
     Ok (set_amount [1] (token_amount_or_zero L [1] + 90) L)"
| "demo_runtime _ L = Ok L"

definition demo_env :: prog_env where
  "demo_env = \<lparr>spl_token_id = [50], spl_token_2022_id = [51], native_mint_id = [52]\<rparr>"

definition demo_token_account :: "u64 \<Rightarrow> account" where
  "demo_token_account v = \<lparr>acc_lamports = 1, acc_data = replicate 32 0 @ demo_titan @ to_le_bytes 8 v @ replicate 93 0,
     acc_owner = [50]\<rparr>"

definition demo_ledger :: ledger where
  "demo_ledger k = (if k = [0] then demo_token_account 500 else if k = [1] then demo_token_account 20
     else if k = [6] then demo_token_account 1000 else if k = [7] then demo_token_account 0
     else \<lparr>acc_lamports = 1, acc_data = replicate 82 6, acc_owner = [50]\<rparr>)"

definition demo_ctx :: SwapRouteV3 where
  "demo_ctx = \<lparr>sr_payer = [40], sr_user = [41], sr_titan_pda = demo_titan, sr_titan_pda_data = \<lparr>pda_bump = 255\<rparr>,
     sr_input_token_account = [6], sr_output_token_account = [7], sr_token_program = [50],
     sr_token_2022_program = [51], sr_system_program = [53], sr_token_ledger = None\<rparr>"

definition demo_info :: "u8 \<Rightarrow> AccountInfo" where
  "demo_info k = \<lparr>ai_key = [k], ai_is_signer = False, ai_is_writable = True\<rparr>"

definition demo_accounts :: "AccountInfo list" where
  "demo_accounts = [demo_info 0, demo_info 1, demo_info 10, demo_info 11, demo_info 20, demo_info 30]"

definition demo_swap :: ProgSwapSpec where
  "demo_swap = \<lparr>ps_venue = Prog_ByrealClmm True, ps_from = 0, ps_to = 1, ps_weight_nanos = 1000000000, ps_n_accounts = 2\<rparr>"

definition demo_start :: rt where
  "demo_start = \<lparr>rt_ledger = demo_ledger, rt_trace = []\<rparr>"

definition demo_run :: "rt route_result" where
  "demo_run = execute demo_runtime demo_env demo_ctx demo_accounts 100 2 [demo_swap] demo_start"

text \<open>How the demonstration ledger reads.\<close>

lemma extract_set_amount [simp]:
  "72 \<le> length (acc_data (L k)) \<Longrightarrow>
     extract_token_amount (set_amount k v L) k' = (if k' = k then Ok v else extract_token_amount L k')"
  by (simp add: extract_token_amount_def set_amount_def slice_get_def from_to_le_bytes)

lemma token_set_amount [simp]:
  "72 \<le> length (acc_data (L k)) \<Longrightarrow>
     token_amount_or_zero (set_amount k v L) k' = (if k' = k then v else token_amount_or_zero L k')"
  by (simp add: token_amount_or_zero_def)

lemma set_amount_shape [simp]:
  "72 \<le> length (acc_data (L k)) \<Longrightarrow> length (acc_data (set_amount k v L k')) = length (acc_data (L k'))"
  "acc_owner (set_amount k v L k') = acc_owner (L k')"
  "acc_lamports (set_amount k v L k') = acc_lamports (L k')"
  by (auto simp: set_amount_def)

lemma extract_demo_token_account [simp]:
  "L k = demo_token_account v \<Longrightarrow> extract_token_amount L k = Ok v"
  "L k = demo_token_account v \<Longrightarrow> token_amount_or_zero L k = v"
  "L k = demo_token_account v \<Longrightarrow> extract_token_owner L k = Ok demo_titan"
  by (simp_all add: token_amount_or_zero_def extract_token_amount_def extract_token_owner_def demo_token_account_def demo_titan_def
      slice_get_def from_to_le_bytes)

lemma length_demo_token_account [simp]: "length (acc_data (demo_token_account v)) = 165"
  "acc_owner (demo_token_account v) = [50]" "acc_lamports (demo_token_account v) = 1"
  by (simp_all add: demo_token_account_def demo_titan_def)

lemma demo_token_account_nonempty [simp]: "acc_data (demo_token_account v) \<noteq> []"
  by (simp add: demo_token_account_def demo_titan_def)

lemma demo_ledger_simps [simp]:
  "demo_ledger [0] = demo_token_account 500" "demo_ledger [1] = demo_token_account 20"
  "demo_ledger [6] = demo_token_account 1000" "demo_ledger [7] = demo_token_account 0"
  "demo_ledger [10] = \<lparr>acc_lamports = 1, acc_data = replicate 82 6, acc_owner = [50]\<rparr>"
  "demo_ledger [11] = \<lparr>acc_lamports = 1, acc_data = replicate 82 6, acc_owner = [50]\<rparr>"
  "demo_ledger [20] = \<lparr>acc_lamports = 1, acc_data = replicate 82 6, acc_owner = [50]\<rparr>"
  "demo_ledger [30] = \<lparr>acc_lamports = 1, acc_data = replicate 82 6, acc_owner = [50]\<rparr>"
  by (simp_all add: demo_ledger_def)

lemma demo_token_amounts [simp]:
  "extract_token_amount demo_ledger [0] = Ok 500" "extract_token_amount demo_ledger [1] = Ok 20"
  "extract_token_amount demo_ledger [6] = Ok 1000" "extract_token_amount demo_ledger [7] = Ok 0"
  "token_amount_or_zero demo_ledger [0] = 500" "token_amount_or_zero demo_ledger [1] = 20"
  "token_amount_or_zero demo_ledger [6] = 1000" "token_amount_or_zero demo_ledger [7] = 0"
  by simp_all

lemma demo_titan_accounts [simp]:
  "is_titan_pda_token_account demo_env demo_ledger [0] demo_titan"
  "is_titan_pda_token_account demo_env demo_ledger [1] demo_titan"
  "\<not> is_titan_pda_token_account demo_env demo_ledger [10] demo_titan"
  "\<not> is_titan_pda_token_account demo_env demo_ledger [11] demo_titan"
  "\<not> is_titan_pda_token_account demo_env demo_ledger [20] demo_titan"
  "\<not> is_titan_pda_token_account demo_env demo_ledger [30] demo_titan"
  by (simp_all add: is_titan_pda_token_account_def demo_env_def)

lemmas route_demo_defs = demo_ctx_def demo_info_def demo_accounts_def demo_swap_def demo_start_def

lemma zero_reserves: "replicate MAX_MINTS (0 :: u64) = [0, 0, 0, 0, 0, 0, 0, 0, 0, 0, 0, 0]"
  by (simp add: MAX_MINTS_def eval_nat_numeral)

lemma demo_phases:
  "validate_route 2 [demo_swap] demo_accounts = Ok ()"
  "create_missing_atas demo_runtime demo_env demo_ctx demo_accounts 2 2 0 demo_start = Ok (demo_start, 0)"
  "take_snapshot demo_env demo_ledger demo_titan 2 0 demo_accounts snapshot_new
     = Ok \<lparr>snap_bitmap = [3, 0, 0, 0], snap_balances = [500, 20],
           snap_reserved = [500, 20, 0, 0, 0, 0, 0, 0, 0, 0, 0, 0]\<rparr>"
  subgoal by (simp add: validate_route_def route_demo_defs MAX_SWAPS_def MAX_MINTS_def)
  subgoal by (simp add: route_demo_defs eval_nat_numeral remaining_get_def list_get_def account_exists_def)
  subgoal by (simp add: route_demo_defs snapshot_new_def bitmap_new_def bitmap_set_def zero_reserves)
  done

definition demo_deposited :: rt where
  "demo_deposited = \<lparr>rt_ledger = set_amount [0] 600 (set_amount [6] 900 demo_ledger),
     rt_trace = [TokenTransfer [50] [6] [0] [41] 100 None]\<rparr>"

definition demo_swapped :: rt where
  "demo_swapped = \<lparr>rt_ledger = set_amount [1] 110 (rt_ledger demo_deposited),
     rt_trace = rt_trace demo_deposited @ [leg_call demo_titan (titan_seeds demo_ctx) (drop 4 demo_accounts) 100]\<rparr>"

lemma demo_leg_amount: "leg_input_amount 600 500 1000000000 = 100"
  by (rule word_unat_eq_iff [THEN iffD2]) (simp add: unat_leg_input_amount)

lemma demo_effects:
  "deposit_input demo_runtime demo_env demo_ctx demo_accounts [10] 6 None 100 demo_start = Ok demo_deposited"
  "run_legs demo_runtime demo_titan (titan_seeds demo_ctx) [500, 20, 0, 0, 0, 0, 0, 0, 0, 0, 0, 0]
     demo_accounts 4 [demo_swap] demo_deposited = Ok demo_swapped"
  subgoal by (simp add: deposit_input_def route_demo_defs demo_deposited_def remaining_get_def list_get_def
      is_native_mint_def demo_env_def transfer_tokens_def invoke_cpi_def get_token_program_for_mint_def)
  subgoal by (simp add: route_demo_defs demo_deposited_def demo_swapped_def remaining_get_def list_get_def
      demo_leg_amount perform_cpi_swap_def swap_v3_dyn_data invoke_cpi_def leg_call_def)
  done

definition demo_final :: rt where
  "demo_final = \<lparr>rt_ledger = set_amount [7] 90 (set_amount [1] 20 (rt_ledger demo_swapped)),
     rt_trace = rt_trace demo_swapped
       @ [TokenTransfer [50] [1] [7] demo_titan 90 (Some (titan_seeds demo_ctx))]\<rparr>"

lemma demo_settle:
  "settle_output demo_runtime demo_env demo_ctx (titan_seeds demo_ctx) demo_accounts
     [500, 20, 0, 0, 0, 0, 0, 0, 0, 0, 0, 0] 1 [11] 6 demo_swapped = Ok demo_final"
  by (simp add: settle_output_def route_demo_defs demo_deposited_def demo_swapped_def demo_final_def remaining_get_def
      list_get_def saturating_sub_def account_exists_def transfer_tokens_def invoke_cpi_def
      get_token_program_for_mint_def demo_env_def Let_def)

lemma demo_final_check:
  "close_created_atas demo_runtime demo_env demo_ctx (titan_seeds demo_ctx) demo_accounts 2 0 2 s = Ok s"
  "check_balances (rt_ledger demo_final) [3, 0, 0, 0] [500, 20] 0 0 demo_accounts = Ok ()"
  subgoal by (simp add: numeral_2_eq_2)
  subgoal by (simp add: route_demo_defs demo_deposited_def demo_swapped_def demo_final_def bitmap_is_set_def list_get_def)
  done

lemma demo_run_eq: "demo_run = Ok demo_final"
proof -
  have facts: "remaining_get demo_accounts 2 = Ok (demo_info 10)" "remaining_get demo_accounts 3 = Ok (demo_info 11)"
    "ai_key (demo_info 10) = [10]" "ai_key (demo_info 11) = [11]"
    "extract_mint_decimals demo_ledger [10] = Ok 6" "extract_mint_decimals demo_ledger [11] = Ok 6"
    "rt_ledger demo_start = demo_ledger" "sr_titan_pda demo_ctx = demo_titan" "sr_token_ledger demo_ctx = None"
    "ps_to demo_swap = 1"
    by (simp_all add: route_demo_defs remaining_get_def list_get_def extract_mint_decimals_def)
  show ?thesis
    by (simp add: demo_run_def execute_def Let_def demo_phases demo_effects demo_settle [unfolded One_nat_def] demo_final_check facts
        read_token_ledger_def effective_amount_def del: run_legs.simps)
qed

lemmas demo_execute = demo_run_eq [unfolded demo_run_def]

subsection \<open>Properties\<close>

text \<open>C1: whatever the invoked programs do, a route that succeeds leaves every TitanPDA token
  account among the first 256 remaining accounts with at least the balance it had at the snapshot,
  that is after the missing token accounts were created and before any transfer.\<close>

theorem reserved_balances_kept:
  assumes "execute R E ctx ra amount mints swaps s0 = Ok s'"
  shows "\<exists>s1 created. create_missing_atas R E ctx ra (unat mints) (unat mints) 0 s0 = Ok (s1, created)
    \<and> (\<forall>j < min (length ra) 256.
         is_titan_pda_token_account E (rt_ledger s1) (ai_key (ra ! j)) (sr_titan_pda ctx)
         \<longrightarrow> token_amount_or_zero (rt_ledger s1) (ai_key (ra ! j)) \<le> token_amount_or_zero (rt_ledger s') (ai_key (ra ! j)))"
  using assms by (rule execute_OkE) (auto dest: final_check_sound)

theorem reserved_balances_kept_witness:
  "token_amount_or_zero demo_ledger [1] \<le> token_amount_or_zero (rt_ledger demo_final) [1]"
proof -
  have "length demo_accounts = 6" "ai_key (demo_accounts ! 1) = [1]" "rt_ledger demo_start = demo_ledger"
    "sr_titan_pda demo_ctx = demo_titan"
    by (simp_all add: route_demo_defs)
  then show ?thesis
    using reserved_balances_kept [OF demo_execute] by (auto simp: demo_phases dest: spec [of _ 1])
qed

text \<open>C2: a route that succeeds made exactly the calls of the abstract route, in order: creation
  of missing token accounts, the deposit of the spent amount, one venue call per leg with a positive
  amount, each over its own slice of the remaining accounts and for its weighted share of what the
  TitanPDA holds above its reserve at that moment, the payout, and the closing of created accounts;
  and the ledger changed through these calls only.\<close>

theorem execute_refines_route:
  assumes "execute R E ctx ra amount mints swaps s0 = Ok s'"
  shows "\<exists>sA sB sE eff. route_run R E ctx ra amount (unat mints) swaps s0 sA sB sE eff s'"
  using assms by (rule execute_run) blast

theorem execute_refines_route_witness:
  "\<exists>sA sB sE eff. route_run demo_runtime demo_env demo_ctx demo_accounts 100 2 [demo_swap] demo_start sA sB sE eff demo_final"
  using execute_refines_route [OF demo_execute] by simp

text \<open>C3: of the token transfers the handler makes in a successful route, the first takes the spent
  amount from the user's input account into the first TitanPDA token account with the user's
  signature, the second pays the TitanPDA's gain in the output token to the user's output account
  with the TitanPDA's signature, and there is no other; either is omitted when its amount is zero.\<close>

theorem execute_transfers:
  assumes "execute R E ctx ra amount mints swaps s0 = Ok s'"
  shows "\<exists>tr sA sE eff tpi di tpo dc. evolves R s0 tr s'
    \<and> spent_amount ctx amount (rt_ledger s0) (rt_ledger sA) eff
    \<and> filter is_transfer tr =
        transfer_calls E tpi (sr_input_token_account ctx) (ai_key (ra ! 0)) (sr_user ctx)
          (ai_key (ra ! unat mints)) eff di None
      @ transfer_calls E tpo (ai_key (ra ! unat (ps_to (last swaps)))) (sr_output_token_account ctx)
          (sr_titan_pda ctx) (ai_key (ra ! (unat mints + unat (ps_to (last swaps)))))
          (saturating_sub (token_amount_or_zero (rt_ledger sE) (ai_key (ra ! unat (ps_to (last swaps)))))
            (reserves (rt_ledger sA) ra (unat mints) ! unat (ps_to (last swaps)))) dc (Some (titan_seeds ctx))
    \<and> (\<exists>sB. route_run R E ctx ra amount (unat mints) swaps s0 sA sB sE eff s')"
proof -
  from assms obtain sA sB sE eff where run: "route_run R E ctx ra amount (unat mints) swaps s0 sA sB sE eff s'"
    by (rule execute_run)
  then have "spent_amount ctx amount (rt_ledger s0) (rt_ledger sA) eff"
    unfolding route_run_def by blast
  with run show ?thesis
    by (rule_tac route_run_transfers [OF run]) blast
qed

theorem execute_transfers_witness:
  "\<exists>tr (sA :: rt) (sE :: rt) eff tpi di tpo dc. evolves demo_runtime demo_start tr demo_final
    \<and> spent_amount demo_ctx 100 (rt_ledger demo_start) (rt_ledger sA) eff
    \<and> filter is_transfer tr =
        transfer_calls demo_env tpi [6] [0] [41] [10] eff di None
      @ transfer_calls demo_env tpo [1] [7] demo_titan [11]
          (saturating_sub (token_amount_or_zero (rt_ledger sE) [1]) (reserves (rt_ledger sA) demo_accounts 2 ! 1))
          dc (Some (titan_seeds demo_ctx))"
proof -
  have "ai_key (demo_accounts ! 0) = [0]" "ai_key (demo_accounts ! Suc 0) = [1]" "ai_key (demo_accounts ! 2) = [10]"
    "ai_key (demo_accounts ! 3) = [11]" "sr_input_token_account demo_ctx = [6]" "sr_output_token_account demo_ctx = [7]"
    "sr_user demo_ctx = [41]" "sr_titan_pda demo_ctx = demo_titan" "ps_to demo_swap = 1"
    by (simp_all add: route_demo_defs)
  then show ?thesis
    using execute_transfers [OF demo_execute] by simp blast
qed

text \<open>C16: if every invocation returns (with success or an error), the handler never panics and
  never runs forever, on any arguments, accounts and ledger.\<close>

theorem execute_never_panics:
  assumes "\<forall>c L. returns (R c L)"
  shows "returns (execute R E ctx ra amount mints swaps s0)"
  using assms by (rule returns_execute)

lemma returns_demo_runtime: "returns (demo_runtime c L)"
  by (cases c) simp_all

theorem execute_never_panics_witness:
  "returns (execute demo_runtime demo_env demo_ctx [] 0 255 [demo_swap, demo_swap] demo_start)"
  by (rule execute_never_panics) (simp add: returns_demo_runtime)

text \<open>C19: the amount of a leg is its weight's exact share, rounded down, of the balance above the
  reserve; a weight of one billion or more takes all of it, and no leg takes more.\<close>

theorem leg_input_amount_exact:
  "unat (leg_input_amount bal res w) = (unat bal - unat res) * min (unat w) 1000000000 div 1000000000
   \<and> unat (leg_input_amount bal res w) \<le> unat bal - unat res
   \<and> unat (leg_input_amount bal res 1000000000) = unat bal - unat res"
proof -
  have "(unat bal - unat res) * min (unat w) 1000000000 div 1000000000
      \<le> (unat bal - unat res) * 1000000000 div 1000000000"
    by (intro div_le_mono mult_le_mono) simp_all
  then show ?thesis
    by (simp add: unat_leg_input_amount)
qed

text \<open>C24: a route is accepted by the argument checks exactly when it has 2 to 12 mints, 1 to 12
  legs, an account and a mint per route mint, starts at the first mint and uses only its mints;
  a route rejected by them fails with that error whatever the ledger and before any invocation.\<close>

theorem invalid_routes_rejected:
  "(validate_route mints swaps ra = Ok () \<longleftrightarrow>
      2 \<le> unat mints \<and> unat mints \<le> 12 \<and> 1 \<le> length swaps \<and> length swaps \<le> 12 \<and> 2 * unat mints \<le> length ra
      \<and> ps_from (hd swaps) = 0 \<and> list_all (\<lambda>s. ps_from s < mints \<and> ps_to s < mints) swaps)
   \<and> (validate_route mints swaps ra = Ok ()
      \<or> (\<exists>e \<in> {InvalidSwapInput, MissingRemainingAccount}.
           (\<lambda>R E ctx amount s0. execute R E ctx ra amount mints swaps s0) = (\<lambda>_ _ _ _ _. Err (Route e))))"
proof
  show "validate_route mints swaps ra = Ok () \<longleftrightarrow>
      2 \<le> unat mints \<and> unat mints \<le> 12 \<and> 1 \<le> length swaps \<and> length swaps \<le> 12 \<and> 2 * unat mints \<le> length ra
      \<and> ps_from (hd swaps) = 0 \<and> list_all (\<lambda>s. ps_from s < mints \<and> ps_to s < mints) swaps"
    by (auto simp: validate_route_Ok_iff word_less_nat_alt list_all_iff Suc_le_eq)
  have "validate_route mints swaps ra \<in> {Ok (), Err (Route InvalidSwapInput), Err (Route MissingRemainingAccount)}"
    by (simp add: validate_route_def)
  then show "validate_route mints swaps ra = Ok ()
      \<or> (\<exists>e \<in> {InvalidSwapInput, MissingRemainingAccount}.
           (\<lambda>R E ctx amount s0. execute R E ctx ra amount mints swaps s0) = (\<lambda>_ _ _ _ _. Err (Route e)))"
    by (auto simp: execute_def)
qed

text \<open>C25: which accounts each venue gets.  The venue invocations of a successful route are, in the order of the
  legs and leaving out those of amount zero: leg \<open>i\<close> is invoked over the accounts from \<open>leg_offset\<close> on,
  behind the token accounts, the mints and the accounts of all earlier legs, whether these were
  funded or not; the last of its accounts is the program invoked and the others are passed on in order,
  with the amount of the leg in the data.  No leg has an empty slice or one that runs over the end.\<close>

theorem legs_partition_accounts:
  assumes "execute R E ctx ra amount mints swaps s0 = Ok s'"
  shows "\<exists>tr (amts :: u64 list). evolves R s0 tr s' \<and> length amts = length swaps
    \<and> (\<forall>i < length swaps. 0 < ps_n_accounts (swaps ! i)
         \<and> leg_offset (2 * unat mints) swaps i + unat (ps_n_accounts (swaps ! i)) \<le> length ra)
    \<and> filter is_venue_call tr =
        map (\<lambda>i. let n = unat (ps_n_accounts (swaps ! i)); accts = take n (drop (leg_offset (2 * unat mints) swaps i) ra) in
             InvokeSigned \<lparr>ix_program_id = ai_key (accts ! (n - 1)),
                 ix_accounts = leg_account_metas (sr_titan_pda ctx) (take (n - 1) accts),
                 ix_data = [229, 46, 213, 132, 105, 40, 40, 228] @ to_le_bytes 8 (amts ! i) @ replicate 24 0 @ [1]\<rparr>
               (map ai_key accts) (titan_seeds ctx))
          (filter (\<lambda>i. amts ! i \<noteq> 0) [0..<length swaps])"
proof -
  let ?idx = "2 * unat mints" and ?titan = "sr_titan_pda ctx"
  obtain sA sB sE eff where "route_run R E ctx ra amount (unat mints) swaps s0 sA sB sE eff s'"
    using assms by (rule execute_run)
  from route_run_venue_calls [OF this] obtain tr amts where tr: "evolves R s0 tr s'" "length amts = length swaps"
    "filter is_venue_call tr = leg_calls ?titan (titan_seeds ctx) (leg_slices ra ?idx swaps) amts"
    by blast
  obtain reserved s2 s3 where legs: "run_legs R ?titan (titan_seeds ctx) reserved ra ?idx swaps s2 = Ok s3"
    using assms by (rule execute_OkE)
  note range = run_legs_in_range [OF legs]
  have call: "leg_call ?titan (titan_seeds ctx) accts amt = InvokeSigned \<lparr>ix_program_id = ai_key (accts ! (n - 1)),
      ix_accounts = leg_account_metas ?titan (take (n - 1) accts),
      ix_data = [229, 46, 213, 132, 105, 40, 40, 228] @ to_le_bytes 8 amt @ replicate 24 0 @ [1]\<rparr> (map ai_key accts) (titan_seeds ctx)"
    if "length accts = n" "0 < n" for accts n amt
  proof -
    have "accts \<noteq> []" using that by auto
    then show ?thesis
      using that by (simp add: leg_call_def SWAP_V3_DYN_DISCRIMINATOR_def last_conv_nth butlast_conv_take)
  qed
  have "filter is_venue_call tr =
      map (\<lambda>i. let n = unat (ps_n_accounts (swaps ! i)); accts = take n (drop (leg_offset ?idx swaps i) ra) in
             InvokeSigned \<lparr>ix_program_id = ai_key (accts ! (n - 1)),
                 ix_accounts = leg_account_metas ?titan (take (n - 1) accts),
                 ix_data = [229, 46, 213, 132, 105, 40, 40, 228] @ to_le_bytes 8 (amts ! i) @ replicate 24 0 @ [1]\<rparr>
               (map ai_key accts) (titan_seeds ctx))
          (filter (\<lambda>i. amts ! i \<noteq> 0) [0..<length swaps])"
    unfolding tr(3) leg_calls_by_position [OF tr(2)] Let_def
  proof (rule map_cong [OF refl])
    fix i
    assume "i \<in> set (filter (\<lambda>i. amts ! i \<noteq> 0) [0..<length swaps])"
    then have "i < length swaps" by simp
    from range [OF this]
    show "leg_call ?titan (titan_seeds ctx) (take (unat (ps_n_accounts (swaps ! i))) (drop (leg_offset ?idx swaps i) ra)) (amts ! i)
      = InvokeSigned \<lparr>ix_program_id = ai_key (take (unat (ps_n_accounts (swaps ! i))) (drop (leg_offset ?idx swaps i) ra)
              ! (unat (ps_n_accounts (swaps ! i)) - 1)),
          ix_accounts = leg_account_metas ?titan (take (unat (ps_n_accounts (swaps ! i)) - 1)
              (take (unat (ps_n_accounts (swaps ! i))) (drop (leg_offset ?idx swaps i) ra))),
          ix_data = [229, 46, 213, 132, 105, 40, 40, 228] @ to_le_bytes 8 (amts ! i) @ replicate 24 0 @ [1]\<rparr>
        (map ai_key (take (unat (ps_n_accounts (swaps ! i))) (drop (leg_offset ?idx swaps i) ra))) (titan_seeds ctx)"
      by (intro call) (simp_all add: word_less_nat_alt min_absorb2 add_le_imp_le_diff)
  qed
  moreover have "\<forall>i < length swaps. 0 < ps_n_accounts (swaps ! i) \<and> leg_offset ?idx swaps i + unat (ps_n_accounts (swaps ! i)) \<le> length ra"
    using range by blast
  ultimately show ?thesis
    using tr(1,2) by (intro exI [of _ tr] exI [of _ amts] conjI)
qed

theorem legs_partition_accounts_witness:
  "\<exists>tr (amts :: u64 list). evolves demo_runtime demo_start tr demo_final \<and> length amts = 1
    \<and> (amts ! 0 \<noteq> 0 \<longrightarrow> filter is_venue_call tr =
        [InvokeSigned \<lparr>ix_program_id = [30], ix_accounts = leg_account_metas demo_titan [demo_info 20],
           ix_data = [229, 46, 213, 132, 105, 40, 40, 228] @ to_le_bytes 8 (amts ! 0) @ replicate 24 0 @ [1]\<rparr>
         [[20], [30]] (titan_seeds demo_ctx)])"
proof -
  have "drop 4 demo_accounts = [demo_info 20, demo_info 30]" "ps_n_accounts demo_swap = 2" "sr_titan_pda demo_ctx = demo_titan"
    "ai_key (demo_info 20) = [20]" "ai_key (demo_info 30) = [30]"
    by (simp_all add: demo_accounts_def demo_swap_def demo_ctx_def demo_info_def)
  note facts = this
  obtain tr and amts :: "u64 list" where tr: "evolves demo_runtime demo_start tr demo_final" "length amts = length [demo_swap]"
    and calls: "filter is_venue_call tr =
        map (\<lambda>i. let n = unat (ps_n_accounts ([demo_swap] ! i)); accts = take n (drop (leg_offset (2 * unat (2 :: u8)) [demo_swap] i) demo_accounts) in
             InvokeSigned \<lparr>ix_program_id = ai_key (accts ! (n - 1)),
                 ix_accounts = leg_account_metas (sr_titan_pda demo_ctx) (take (n - 1) accts),
                 ix_data = [229, 46, 213, 132, 105, 40, 40, 228] @ to_le_bytes 8 (amts ! i) @ replicate 24 0 @ [1]\<rparr>
               (map ai_key accts) (titan_seeds demo_ctx))
          (filter (\<lambda>i. amts ! i \<noteq> 0) [0..<length [demo_swap]])"
    using legs_partition_accounts [OF demo_execute] by (elim exE conjE) (rule that)
  show ?thesis
    using tr by (intro exI [of _ tr] exI [of _ amts]) (simp add: calls facts Let_def)
qed

text \<open>The TitanPDA bitmap is the set of the indices inserted into it, restricted to its 256
  positions; an index out of range is ignored and never aliases another.\<close>

theorem bitmap_refines_set:
  "{j. bitmap_is_set (fold bitmap_set is bitmap_new) j} = set is \<inter> {..<256}"
  by (auto simp: titan_bits.mem_of_list)

end
