(* ===== verification/Swap_Route.thy ===== *)
theory Swap_Route
  imports Program_Guarantees
begin

text \<open>
  The off-chain route builder of \<open>src/swap_route/mod.rs\<close>: turning a venue's swap instruction into a
  leg of the route instruction.  A \<open>dyn TradingVenue\<close> is a record of the four methods the builder
  calls.  The locale \<open>swap_venue\<close> is the contract a venue must meet for its legs to reach the program
  intact, for a state \<open>s\<close> of the venue that is well formed; the Byreal venue meets it (theory \<open>Byreal_Venue\<close>).
\<close>

record venue_obj =
  vo_protocol :: PoolProtocol
  vo_token_info :: "TokenInfo list"
  vo_program_id :: pubkey
  vo_generate_swap_instruction :: "QuoteRequest \<Rightarrow> pubkey \<Rightarrow> instruction venue_result"

text \<open>\<open>Iterator::position\<close>.\<close>

fun position :: "('a \<Rightarrow> bool) \<Rightarrow> 'a list \<Rightarrow> nat option" where
  "position P [] = None"
| "position P (x # xs) = (if P x then Some 0 else map_option Suc (position P xs))"

definition protocol_to_venue :: "venue_obj \<Rightarrow> QuoteRequest \<Rightarrow> Venue venue_result" where
  "protocol_to_venue venue request =
     (case vo_protocol venue of
        ByrealClmm \<Rightarrow>
          (let tokens = vo_token_info venue in
           and_then (ok_or (position (\<lambda>t. ti_pubkey t = req_input_mint request) tokens)
                      (InvalidMint (EI_Pubkey (req_input_mint request)))) (\<lambda>input_index.
           and_then (ok_or (position (\<lambda>t. ti_pubkey t = req_output_mint request) tokens)
                      (InvalidMint (EI_Pubkey (req_output_mint request)))) (\<lambda>output_index.
             if input_index = output_index \<or> length tokens < 2
             then Err (InvalidMint (EI_Pubkey (req_input_mint request)))
             else Ok (Venue_ByrealClmm (input_index = 0 \<and> output_index = 1))))))"

definition TRANSFER_FEE_UNSUPPORTED :: string where
  "TRANSFER_FEE_UNSUPPORTED = ''Token-2022 transfer-fee route mints require route-level gross/net accounting''"

fun fail_closed_tokens :: "QuoteRequest \<Rightarrow> TokenInfo list \<Rightarrow> unit venue_result" where
  "fail_closed_tokens request [] = Ok ()"
| "fail_closed_tokens request (token # tokens) =
     (if (ti_pubkey token = req_input_mint request \<or> ti_pubkey token = req_output_mint request)
         \<and> ti_transfer_fee token \<noteq> None
      then Err (UnsupportedVenue (EI_StaticStr TRANSFER_FEE_UNSUPPORTED))
      else fail_closed_tokens request tokens)"

definition fail_closed_for_transfer_fee_route_mints :: "venue_obj \<Rightarrow> QuoteRequest \<Rightarrow> unit venue_result" where
  "fail_closed_for_transfer_fee_route_mints venue request = fail_closed_tokens request (vo_token_info venue)"

definition assemble_leg_accounts :: "instruction \<Rightarrow> pubkey \<Rightarrow> pubkey \<Rightarrow> account_meta list" where
  "assemble_leg_accounts swap_ix titan_pda venue_program_id =
     map (\<lambda>acc. if am_pubkey acc = titan_pda then acc\<lparr>am_is_signer := False\<rparr> else acc) (ix_accounts swap_ix)
     @ [meta_new_readonly venue_program_id False]"

definition build_swap_leg ::
  "venue_obj \<Rightarrow> QuoteRequest \<Rightarrow> pubkey \<Rightarrow> u8 \<Rightarrow> u8 \<Rightarrow> u32 \<Rightarrow> (SwapSpecInputV2 \<times> account_meta list) venue_result" where
  "build_swap_leg venue request titan_pda src dst weight_nanos =
     and_then (fail_closed_for_transfer_fee_route_mints venue request) (\<lambda>_.
     and_then (vo_generate_swap_instruction venue request titan_pda) (\<lambda>swap_ix.
       let accounts = assemble_leg_accounts swap_ix titan_pda (vo_program_id venue) in
     and_then (protocol_to_venue venue request) (\<lambda>v.
       Ok (\<lparr>spec_venue = v, spec_from = src, spec_to = dst, spec_weight_nanos = weight_nanos,
            spec_n_accounts = word_of_nat (length accounts)\<rparr>, accounts))))"

subsection \<open>Lemmas\<close>

lemma position_Some:
  "position P xs = Some i \<Longrightarrow> i < length xs \<and> P (xs ! i) \<and> (\<forall>j < i. \<not> P (xs ! j))"
proof (induction xs arbitrary: i)
  case (Cons x xs)
  show ?case
  proof (cases "P x")
    case False
    then obtain k where "position P xs = Some k" "i = Suc k"
      using Cons.prems by auto
    with Cons.IH [of k] False show ?thesis
      by (auto simp: less_Suc_eq_0_disj)
  qed (use Cons.prems in auto)
qed simp

lemma position_None_iff: "position P xs = None \<longleftrightarrow> (\<forall>x \<in> set xs. \<not> P x)"
  by (induction xs) auto

lemma fail_closed_tokens_Ok_iff:
  "fail_closed_tokens request toks = Ok () \<longleftrightarrow>
     (\<forall>t \<in> set toks. ti_pubkey t \<in> {req_input_mint request, req_output_mint request} \<longrightarrow> ti_transfer_fee t = None)"
  by (induction toks) auto

lemma build_swap_leg_OkE:
  assumes "build_swap_leg venue request titan src dst w = Ok (spec, accs)"
  obtains ix v where "vo_generate_swap_instruction venue request titan = Ok ix"
    "accs = assemble_leg_accounts ix titan (vo_program_id venue)"
    "protocol_to_venue venue request = Ok v"
    "spec = \<lparr>spec_venue = v, spec_from = src, spec_to = dst, spec_weight_nanos = w,
             spec_n_accounts = word_of_nat (length accs)\<rparr>"
    "fail_closed_for_transfer_fee_route_mints venue request = Ok ()"
  using assms by (auto simp: build_swap_leg_def Let_def outcome_simps)

text \<open>The account infos a transaction hands to the program for a list of metas.\<close>

definition info_of :: "account_meta \<Rightarrow> AccountInfo" where
  "info_of m = \<lparr>ai_key = am_pubkey m, ai_is_signer = am_is_signer m, ai_is_writable = am_is_writable m\<rparr>"

definition titan_signs :: "pubkey \<Rightarrow> account_meta \<Rightarrow> account_meta" where
  "titan_signs titan m = m\<lparr>am_is_signer := am_pubkey m = titan \<or> am_is_signer m\<rparr>"

lemma leg_metas_restored:
  "leg_account_metas titan (map info_of (butlast (assemble_leg_accounts ix titan pid)))
     = map (titan_signs titan) (ix_accounts ix)"
  by (auto simp: assemble_leg_accounts_def leg_account_metas_def info_of_def titan_signs_def)

lemma length_assemble: "length (assemble_leg_accounts ix titan pid) = Suc (length (ix_accounts ix))"
  by (simp add: assemble_leg_accounts_def)

subsection \<open>The venue contract\<close>

locale swap_venue =
  fixes obj :: "'s \<Rightarrow> venue_obj"
    and wf :: "'s \<Rightarrow> bool"
  assumes program_id: "wf s \<Longrightarrow> vo_generate_swap_instruction (obj s) req user = Ok ix \<Longrightarrow> ix_program_id ix = vo_program_id (obj s)"
    and accounts_bound: "wf s \<Longrightarrow> vo_generate_swap_instruction (obj s) req user = Ok ix \<Longrightarrow> length (ix_accounts ix) < 255"
    and only_user_signs:
      "wf s \<Longrightarrow> vo_generate_swap_instruction (obj s) req user = Ok ix \<Longrightarrow> m \<in> set (ix_accounts ix) \<Longrightarrow> am_is_signer m
       \<Longrightarrow> am_pubkey m = user"
begin

lemma n_accounts:
  assumes "wf s" and "build_swap_leg (obj s) req titan src dst w = Ok (spec, accs)"
  shows "unat (spec_n_accounts spec) = length accs" and "0 < length accs"
proof -
  from assms(2) obtain ix where "vo_generate_swap_instruction (obj s) req titan = Ok ix"
    and accs: "accs = assemble_leg_accounts ix titan (vo_program_id (obj s))"
    and n: "spec_n_accounts spec = word_of_nat (length accs)"
    by (rule build_swap_leg_OkE) auto
  then have "length accs < 256"
    using accounts_bound [OF assms(1)] length_assemble by fastforce
  then show "unat (spec_n_accounts spec) = length accs"
    unfolding n by (rule unat_of_nat_u8)
  show "0 < length accs"
    by (simp add: accs length_assemble)
qed

lemma leg_reaches_venue:
  assumes "wf s" and "build_swap_leg (obj s) req titan src dst w = Ok (spec, accs)"
  shows "\<exists>ix. vo_generate_swap_instruction (obj s) req titan = Ok ix
    \<and> leg_call titan seeds (map info_of accs) amt =
        InvokeSigned \<lparr>ix_program_id = ix_program_id ix, ix_accounts = map (titan_signs titan) (ix_accounts ix),
          ix_data = SWAP_V3_DYN_DISCRIMINATOR @ to_le_bytes 8 amt @ replicate 24 0 @ [1]\<rparr>
        (map am_pubkey (ix_accounts ix) @ [ix_program_id ix]) seeds
    \<and> (\<forall>m \<in> set (map (titan_signs titan) (ix_accounts ix)). am_is_signer m \<longleftrightarrow> am_pubkey m = titan)"
proof -
  from assms(2) obtain ix where ix: "vo_generate_swap_instruction (obj s) req titan = Ok ix"
    and accs: "accs = assemble_leg_accounts ix titan (vo_program_id (obj s))"
    by (rule build_swap_leg_OkE)
  have "am_is_signer m \<Longrightarrow> am_pubkey m = titan" if "m \<in> set (ix_accounts ix)" for m
    using only_user_signs [OF assms(1) ix that] .
  moreover have "leg_account_metas titan (map info_of (butlast accs)) = map (titan_signs titan) (ix_accounts ix)"
    unfolding accs by (rule leg_metas_restored)
  moreover have "map am_pubkey accs = map am_pubkey (ix_accounts ix) @ [ix_program_id ix]"
    "last accs = meta_new_readonly (ix_program_id ix) False" "accs \<noteq> []"
    using program_id [OF assms(1) ix] by (auto simp: accs assemble_leg_accounts_def)
  ultimately show ?thesis
    using ix
    by (intro exI [of _ ix])
      (auto simp: leg_call_def last_map map_butlast [symmetric] titan_signs_def info_of_def comp_def)
qed

end

subsection \<open>Whole routes\<close>

text \<open>The remaining accounts of a route: token accounts, mints, and the accounts of the legs.\<close>

definition route_accounts :: "account_meta list \<Rightarrow> account_meta list \<Rightarrow> (SwapSpecInputV2 \<times> account_meta list) list
  \<Rightarrow> account_meta list" where
  "route_accounts atas mints legs = atas @ mints @ concat (map snd legs)"

lemma leg_slices_concat:
  assumes "\<forall>(spec, accs) \<in> set legs. unat (spec_n_accounts spec) = length accs"
  shows "leg_slices (pre @ concat (map (\<lambda>l. map info_of (snd l)) legs)) (length pre) (map (\<lambda>l. prog_spec (fst l)) legs)
    = map (\<lambda>l. map info_of (snd l)) legs"
  using assms
proof (induction legs arbitrary: pre)
  case (Cons leg legs)
  have "unat (ps_n_accounts (prog_spec (fst leg))) = length (snd leg)"
    using Cons.prems by (auto simp: prog_spec_def)
  moreover have "leg_slices ((pre @ map info_of (snd leg)) @ concat (map (\<lambda>l. map info_of (snd l)) legs))
      (length (pre @ map info_of (snd leg))) (map (\<lambda>l. prog_spec (fst l)) legs) = map (\<lambda>l. map info_of (snd l)) legs"
    using Cons.prems by (intro Cons.IH) auto
  ultimately show ?case
    by simp
qed simp

subsection \<open>Properties\<close>

lemma position_two:
  "position P [a, b] = (if P a then Some 0 else if P b then Some 1 else None)"
  by simp

text \<open>On a pool of two different mints the direction flag of the leg is true exactly for a swap
  of the first mint into the second, false exactly for the opposite swap, and any other request is
  rejected with \<open>InvalidMint\<close>.\<close>

theorem protocol_to_venue_direction:
  assumes "vo_token_info venue = [t0, t1]" and "ti_pubkey t0 \<noteq> ti_pubkey t1"
  shows "(protocol_to_venue venue req = Ok (Venue_ByrealClmm True) \<longleftrightarrow>
            req_input_mint req = ti_pubkey t0 \<and> req_output_mint req = ti_pubkey t1)
    \<and> (protocol_to_venue venue req = Ok (Venue_ByrealClmm False) \<longleftrightarrow>
            req_input_mint req = ti_pubkey t1 \<and> req_output_mint req = ti_pubkey t0)
    \<and> ((\<exists>v. protocol_to_venue venue req = Ok v)
        \<or> (\<exists>m \<in> {req_input_mint req, req_output_mint req}. protocol_to_venue venue req = Err (InvalidMint (EI_Pubkey m))))"
  using assms
  by (cases "vo_protocol venue") (auto simp: protocol_to_venue_def outcome_simps Let_def split: if_splits)

definition sample_token :: "u8 \<Rightarrow> u16 option \<Rightarrow> TokenInfo" where
  "sample_token k fee = \<lparr>ti_pubkey = [k], ti_decimals = 6, ti_is_token_2022 = False, ti_transfer_fee = fee,
     ti_maximum_fee = map_option ucast fee\<rparr>"

definition sample_venue :: "u16 option \<Rightarrow> venue_obj" where
  "sample_venue fee = \<lparr>vo_protocol = ByrealClmm, vo_token_info = [sample_token 1 fee, sample_token 2 None],
     vo_program_id = [7],
     vo_generate_swap_instruction = (\<lambda>req user. Ok \<lparr>ix_program_id = [7],
       ix_accounts = [meta_new user True, meta_new [8] False], ix_data = []\<rparr>)\<rparr>"

definition sample_request :: QuoteRequest where
  "sample_request = \<lparr>req_input_mint = [1], req_output_mint = [2], req_amount = 1000, req_swap_type = ExactIn\<rparr>"

theorem protocol_to_venue_direction_witness:
  "protocol_to_venue (sample_venue None) sample_request = Ok (Venue_ByrealClmm True)"
proof -
  have "vo_token_info (sample_venue None) = [sample_token 1 None, sample_token 2 None]"
    and "ti_pubkey (sample_token 1 None) \<noteq> ti_pubkey (sample_token 2 None)"
    by (simp_all add: sample_venue_def sample_token_def)
  from protocol_to_venue_direction [OF this, of sample_request] show ?thesis
    by (simp add: sample_request_def sample_token_def)
qed

text \<open>A leg whose input or output mint has a transfer fee is refused with \<open>UnsupportedVenue\<close>,
  whatever the venue would answer, and no leg is ever built for such a mint.\<close>

theorem transfer_fee_mints_refused:
  assumes "\<exists>t \<in> set (vo_token_info venue).
    ti_pubkey t \<in> {req_input_mint req, req_output_mint req} \<and> ti_transfer_fee t \<noteq> None"
  shows "build_swap_leg venue req titan src dst w
    = Err (UnsupportedVenue (EI_StaticStr TRANSFER_FEE_UNSUPPORTED))"
proof -
  have "fail_closed_tokens req toks \<in> {Ok (), Err (UnsupportedVenue (EI_StaticStr TRANSFER_FEE_UNSUPPORTED))}" for toks
    by (induction toks) auto
  from this [of "vo_token_info venue"] have "fail_closed_tokens req (vo_token_info venue) = Err (UnsupportedVenue (EI_StaticStr TRANSFER_FEE_UNSUPPORTED))"
    using assms fail_closed_tokens_Ok_iff [of req "vo_token_info venue"] by auto
  then show ?thesis
    by (simp add: build_swap_leg_def fail_closed_for_transfer_fee_route_mints_def)
qed

theorem transfer_fee_mints_refused_witness:
  "build_swap_leg (sample_venue (Some 25)) sample_request [9] 0 1 1000000000
    = Err (UnsupportedVenue (EI_StaticStr TRANSFER_FEE_UNSUPPORTED))"
  by (rule transfer_fee_mints_refused) (simp add: sample_venue_def sample_token_def sample_request_def)

end
