(* ===== verification/Clmm_Types.thy ===== *)
theory Clmm_Types
  imports Venue_Types
begin

text \<open>
  The data of the Byreal CLMM venue (\<open>src/byreal_clmm/core.rs\<close>) and its interface to the crates it
  calls.  \<open>byreal_clmm\<close>, the Pyth SDK and the SPL crates are not part of the repository: the functions
  the code calls are the fields of the records below, and a value whose inside the code never reads
  has the type \<open>'x\<close>.  The structs \<open>TickState\<close>, \<open>PoolState\<close> and \<open>Price\<close> of those crates appear with the
  fields and predicates the code reads.  A crate function that returns a \<open>Result\<close> carries its error as
  the text the code prints.
\<close>

type_synonym 'a any_result = "(string, 'a) outcome"

record TickState =
  ts_tick :: i32
  ts_liquidity_net :: i128
  ts_initialized :: bool

record 'x PoolState =
  pool_amm_config :: pubkey
  pool_token_mint_0 :: pubkey
  pool_token_mint_1 :: pubkey
  pool_token_vault_0 :: pubkey
  pool_token_vault_1 :: pubkey
  pool_observation_key :: pubkey
  pool_mint_decimals_0 :: u8
  pool_mint_decimals_1 :: u8
  pool_tick_spacing :: u16
  pool_liquidity :: u128
  pool_sqrt_price_x64 :: u128
  pool_tick_current :: i32
  pool_tick_array_bitmap :: "u64 list"
  pool_open_time :: u64
  pool_token0_pyth_feed_id :: bytes
  pool_token1_pyth_feed_id :: bytes
  pool_rest :: 'x

record Price =
  price_price :: i64
  price_publish_time :: i64

record SwapStep =
  step_sqrt_price_next_x64 :: u128
  step_amount_in :: u64
  step_amount_out :: u64
  step_fee_amount :: u64

record 'x DynamicFeeInputs =
  dfi_p_0 :: u128
  dfi_p_index :: 'x
  dfi_trade_size :: 'x
  dfi_quote_value_of_base :: u128
  dfi_quote_balance :: u128
  dfi_is_buying_base :: bool
  dfi_fee_base :: u32
  dfi_arbitrage_fee_buffer_ppm :: 'x
  dfi_trade_slippage_fee_base_milli_bp :: 'x
  dfi_trade_slippage_fee_trade_size_threshold :: 'x
  dfi_imbalance_fee_base_tenths_of_bp :: 'x
  dfi_imbalance_fee_x :: 'x

subsection \<open>The crates\<close>

text \<open>Tick arrays: the account layouts and \<open>TickUtils\<close>.\<close>

record 'x tick_lib =
  size_of_TickState :: nat
  TICK_ARRAY_SIZE :: nat
  TICK_ARRAY_SEED :: bytes
  read_TickState :: "bytes \<Rightarrow> TickState"
  TickArrayState_DISCRIMINATOR :: bytes
  DynTickArrayState_DISCRIMINATOR :: bytes
  DynTickArrayState_HEADER_LEN :: nat
  read_DynTickArrayState :: "bytes \<Rightarrow> 'x"
  dyn_start_tick_index :: "'x \<Rightarrow> i32"
  dyn_next_initialized_tick_index :: "'x \<Rightarrow> TickState list \<Rightarrow> i32 \<Rightarrow> u16 \<Rightarrow> bool \<Rightarrow> nat option any_result"
  dyn_first_initialized_tick_index :: "'x \<Rightarrow> TickState list \<Rightarrow> bool \<Rightarrow> nat any_result"
  dyn_get_tick_index_in_array :: "'x \<Rightarrow> i32 \<Rightarrow> u16 \<Rightarrow> nat any_result"
  get_array_start_index :: "i32 \<Rightarrow> u16 \<Rightarrow> i32"
  get_tick_offset_in_tick_array :: "i32 \<Rightarrow> i32 \<Rightarrow> u16 \<Rightarrow> nat any_result"

text \<open>The tick-array bitmaps and the methods of \<open>PoolState\<close>.\<close>

record 'x pool_lib =
  MIN_TICK :: i32
  MAX_TICK :: i32
  check_current_tick_array_is_initialized :: "u64 list \<Rightarrow> i32 \<Rightarrow> u16 \<Rightarrow> (bool \<times> i32) any_result"
  bitmap_next_initialized :: "u64 list \<Rightarrow> i32 \<Rightarrow> u16 \<Rightarrow> bool \<Rightarrow> (bool \<times> i32) any_result"
  ext_check_tick_array_is_initialized :: "'x \<Rightarrow> i32 \<Rightarrow> u16 \<Rightarrow> (bool \<times> i32) any_result"
  ext_next_initialized_from_one_bitmap :: "'x \<Rightarrow> i32 \<Rightarrow> u16 \<Rightarrow> bool \<Rightarrow> (bool \<times> i32) any_result"
  tick_array_start_index_range :: "'x PoolState \<Rightarrow> i32 \<times> i32"
  is_swap_dynamic_fee_enabled :: "'x PoolState \<Rightarrow> bool"
  pool_get_first_initialized_tick_array :: "'x PoolState \<Rightarrow> 'x option \<Rightarrow> bool \<Rightarrow> string + (bool \<times> i32)"
  pool_next_initialized_tick_array :: "'x PoolState \<Rightarrow> 'x option \<Rightarrow> i32 \<Rightarrow> bool \<Rightarrow> string + i32 option"
  pool_is_overflow_default_tickarray_bitmap :: "'x PoolState \<Rightarrow> i32 list \<Rightarrow> bool"
  calculate_base_trade_fee_rate :: "'x PoolState \<Rightarrow> 'x \<Rightarrow> bool \<Rightarrow> u64 \<Rightarrow> u32 any_result"
  is_token1_quote :: "'x PoolState \<Rightarrow> bool"
  status_swap_enabled :: "'x PoolState \<Rightarrow> bool"

text \<open>Swap, price and fee arithmetic; the last five read fields of the pool state that are only
  passed on to the fee computation.\<close>

record 'x math_lib =
  get_sqrt_price_at_tick :: "i32 \<Rightarrow> u128 any_result"
  get_tick_at_sqrt_price :: "u128 \<Rightarrow> i32 any_result"
  compute_swap_step :: "u128 \<Rightarrow> u128 \<Rightarrow> u128 \<Rightarrow> u64 \<Rightarrow> u32 \<Rightarrow> bool \<Rightarrow> bool \<Rightarrow> u32 \<Rightarrow> SwapStep any_result"
  add_delta :: "u128 \<Rightarrow> i128 \<Rightarrow> u128 any_result"
  MIN_SQRT_PRICE_X64 :: u128
  MAX_SQRT_PRICE_X64 :: u128
  Q64 :: u128
  FEE_RATE_DENOMINATOR_VALUE :: u32
  price_from_sqrt_price_x64 :: "u128 \<Rightarrow> u128 any_result"
  quote_amount_from_base :: "u128 \<Rightarrow> u128 \<Rightarrow> bool \<Rightarrow> u128 any_result"
  normalize_trade_size :: "u128 \<Rightarrow> u8 \<Rightarrow> 'x any_result"
  calculate_price_index :: "Price \<Rightarrow> Price \<Rightarrow> u8 \<Rightarrow> u8 \<Rightarrow> 'x any_result"
  calculate_dynamic_fee_rate :: "'x DynamicFeeInputs \<Rightarrow> u32 any_result"
  arbitrage_fee_buffer_ppm :: "'x PoolState \<Rightarrow> 'x"
  trade_slippage_fee_base_milli_bp :: "'x PoolState \<Rightarrow> 'x"
  trade_slippage_fee_trade_size_threshold :: "'x PoolState \<Rightarrow> 'x"
  imbalance_fee_base_tenths_of_bp :: "'x PoolState \<Rightarrow> 'x"
  imbalance_fee_x :: "'x PoolState \<Rightarrow> 'x"

text \<open>Account decoders, program ids and address derivation.\<close>

record 'x codec_lib =
  decode_PoolState :: "bytes \<Rightarrow> 'x PoolState any_result"
  decode_AmmConfig :: "bytes \<Rightarrow> 'x any_result"
  decode_TickArrayBitmapExtension :: "bytes \<Rightarrow> 'x any_result"
  decode_Clock_unix_timestamp :: "bytes \<Rightarrow> i64 any_result"
  decode_Clock_epoch :: "bytes \<Rightarrow> u64 any_result"
  decode_PriceUpdateV2 :: "bytes \<Rightarrow> 'x any_result"
  get_price_unchecked :: "'x \<Rightarrow> bytes \<Rightarrow> Price any_result"
  unpack_token_amount :: "bytes \<Rightarrow> u64 any_result"
  unpack_token_2022_amount :: "bytes \<Rightarrow> u64 any_result"
  SwapV3Dyn_data :: "u64 \<Rightarrow> u64 \<Rightarrow> u128 \<Rightarrow> bool \<Rightarrow> bytes"
  find_program_address :: "bytes list \<Rightarrow> pubkey \<Rightarrow> pubkey"
  show_pubkey :: "pubkey \<Rightarrow> string"
  clock_id :: pubkey
  pyth_receiver_id :: pubkey
  pyth_push_oracle_id :: pubkey
  spl_memo_id :: pubkey
  lib_spl :: "'x spl_lib"

record 'x clmm_lib =
  lib_tick :: "'x tick_lib"
  lib_pool :: "'x pool_lib"
  lib_math :: "'x math_lib"
  lib_codec :: "'x codec_lib"

subsection \<open>The venue state\<close>

record FixedTickArraySnapshot =
  fixed_start_tick_index :: i32
  fixed_ticks :: "TickState list"

datatype 'x DynamicTickArrayState =
    Dynamic 'x "TickState list"
  | Fixed FixedTickArraySnapshot

record TickNavState =
  nav_is_match_pool_current_tick_array :: bool
  nav_current_valid_tick_array_start_index :: i32

record SwapState =
  ss_amount_specified_remaining :: u64
  ss_amount_calculated :: u64
  ss_sqrt_price_x64 :: u128
  ss_tick :: i32
  ss_liquidity :: u128
  ss_fee_amount :: u64

record SwapResult =
  sw_amount_in :: u64
  sw_amount_out :: u64
  sw_sqrt_price_x64 :: u128
  sw_fee_rate :: u32

record CoreQuoteResult =
  cq_in_amount :: u64
  cq_out_amount :: u64
  cq_not_enough_liquidity :: bool
  cq_price :: f64

record SwapBuildRequest =
  sb_user_authority :: pubkey
  sb_source_mint :: pubkey
  sb_destination_mint :: pubkey
  sb_source_token_account :: pubkey
  sb_destination_token_account :: pubkey
  sb_amount :: u64
  sb_other_amount_threshold :: u64

text \<open>\<open>dynamic_tick_arrays\<close> is a \<open>HashMap\<close>: an association list with distinct keys, whose order stands for
  the iteration order of the hash map.\<close>

record 'x ClmmVenue =
  cv_market_id :: pubkey
  cv_program_id :: pubkey
  cv_reserve_mints :: "pubkey \<times> pubkey"
  cv_pool_state :: "'x PoolState"
  cv_amm_config :: "'x option"
  cv_bitmap_extension :: "'x option"
  cv_dynamic_tick_arrays :: "(pubkey \<times> 'x DynamicTickArrayState) list"
  cv_token0_vault_amount :: u64
  cv_token1_vault_amount :: u64
  cv_token0_program_id :: pubkey
  cv_token1_program_id :: pubkey
  cv_token0_pyth_oracle_data :: "Price option"
  cv_token1_pyth_oracle_data :: "Price option"
  cv_max_one_side_tick_arrays :: nat
  cv_current_unix_timestamp :: i64

definition ZERO_PUBKEY :: pubkey where
  "ZERO_PUBKEY = replicate 32 0"

text \<open>The program that owns the pools (\<open>src/byreal_clmm/mod.rs\<close>).\<close>

definition BYREAL_CLMM_PROGRAM_ID :: pubkey where
  "BYREAL_CLMM_PROGRAM_ID = [6, 52, 210, 15, 27, 245, 109, 209, 100, 227, 193, 60, 120, 54, 164, 34,
     158, 197, 171, 33, 255, 84, 82, 131, 144, 165, 23, 137, 243, 205, 187, 219]"

end
