(* ===== verification/Tick_Arrays.thy ===== *)
theory Tick_Arrays
  imports Clmm_Types "HOL-Library.Signed_Division"
begin

text \<open>
  Tick arrays of \<open>src/byreal_clmm/core.rs\<close>: decoding the fixed and the dynamic account layout, and
  looking for initialised ticks in them.  A lookup that indexes an array out of range panics.  The
  lemmas compare the search loops with \<open>find\<close> on the list of ticks, and read back accounts written in the
  two layouts.
\<close>

subsection \<open>Fixed arrays\<close>

definition fixed_from_account_data :: "'x tick_lib \<Rightarrow> bytes \<Rightarrow> FixedTickArraySnapshot option" where
  "fixed_from_account_data T data =
     Option.bind (slice_get 8 (length data) data) (\<lambda>body.
       let start_offset = 32; ticks_offset = start_offset + 4;
           ticks_len = size_of_TickState T * TICK_ARRAY_SIZE T
       in if length body < ticks_offset + ticks_len then None
          else let ticks_bytes = take ticks_len (drop ticks_offset body)
               in Some \<lparr>fixed_start_tick_index = sint (from_le_bytes (take 4 (drop start_offset body)) :: u32),
                        fixed_ticks = map (\<lambda>i. read_TickState T
                            (take (size_of_TickState T) (drop (i * size_of_TickState T) ticks_bytes)))
                          [0..<TICK_ARRAY_SIZE T]\<rparr>)"

definition fixed_tick_offset ::
  "'x tick_lib \<Rightarrow> FixedTickArraySnapshot \<Rightarrow> i32 \<Rightarrow> u16 \<Rightarrow> nat option any_result" where
  "fixed_tick_offset T ta tick_index spacing =
     (if get_array_start_index T tick_index spacing \<noteq> fixed_start_tick_index ta then Ok None
      else result_ok (get_tick_offset_in_tick_array T (fixed_start_tick_index ta) tick_index spacing))"

text \<open>The loops: \<open>scan_down ticks n\<close> visits the indices \<open>n - 1, \<dots>, 0\<close>, \<open>scan_up ticks i n\<close> the \<open>n\<close>
  indices from \<open>i\<close> on.\<close>

fun scan_down :: "TickState list \<Rightarrow> nat \<Rightarrow> i32 option any_result" where
  "scan_down ticks 0 = Ok None"
| "scan_down ticks (Suc k) =
     and_then (index_or_panic ticks k) (\<lambda>tick.
       if ts_initialized tick then Ok (Some (ts_tick tick)) else scan_down ticks k)"

fun scan_up :: "TickState list \<Rightarrow> nat \<Rightarrow> nat \<Rightarrow> i32 option any_result" where
  "scan_up ticks i 0 = Ok None"
| "scan_up ticks i (Suc k) =
     and_then (index_or_panic ticks i) (\<lambda>tick.
       if ts_initialized tick then Ok (Some (ts_tick tick)) else scan_up ticks (Suc i) k)"

definition fixed_next_initialized_tick ::
  "'x tick_lib \<Rightarrow> FixedTickArraySnapshot \<Rightarrow> i32 \<Rightarrow> u16 \<Rightarrow> bool \<Rightarrow> i32 option any_result" where
  "fixed_next_initialized_tick T ta current_tick_index tick_spacing zero_for_one =
     (if get_array_start_index T current_tick_index tick_spacing \<noteq> fixed_start_tick_index ta then Ok None
      else if tick_spacing = 0 then Panic
      else let offset = wrap_i32 (current_tick_index - fixed_start_tick_index ta) sdiv uint tick_spacing
           in if zero_for_one
              then if 0 \<le> offset then scan_down (fixed_ticks ta) (Suc (nat offset)) else Ok None
              else let offset = wrap_i32 (offset + 1)
                   in if \<not> offset < int (TICK_ARRAY_SIZE T) then Ok None
                      else if offset < 0 then Panic
                      else scan_up (fixed_ticks ta) (nat offset) (TICK_ARRAY_SIZE T - nat offset))"

definition fixed_first_initialized_tick ::
  "'x tick_lib \<Rightarrow> FixedTickArraySnapshot \<Rightarrow> bool \<Rightarrow> i32 option any_result" where
  "fixed_first_initialized_tick T ta zero_for_one =
     (if zero_for_one then scan_down (fixed_ticks ta) (TICK_ARRAY_SIZE T)
      else scan_up (fixed_ticks ta) 0 (TICK_ARRAY_SIZE T))"

definition fixed_get_tick_liquidity_net ::
  "'x tick_lib \<Rightarrow> FixedTickArraySnapshot \<Rightarrow> i32 \<Rightarrow> u16 \<Rightarrow> i128 option any_result" where
  "fixed_get_tick_liquidity_net T ta tick_index spacing =
     and_then (fixed_tick_offset T ta tick_index spacing) (\<lambda>offset.
       case offset of None \<Rightarrow> Ok None
       | Some i \<Rightarrow> and_then (index_or_panic (fixed_ticks ta) i) (\<lambda>t. Ok (Some (ts_liquidity_net t))))"

subsection \<open>Both layouts\<close>

fun start_tick_index :: "'x tick_lib \<Rightarrow> 'x DynamicTickArrayState \<Rightarrow> i32" where
  "start_tick_index T (Dynamic header ticks) = dyn_start_tick_index T header"
| "start_tick_index T (Fixed ta) = fixed_start_tick_index ta"

text \<open>\<open>chunks_exact(n)\<close>, for a length that is a multiple of \<open>n\<close>.\<close>

function chunks_exact :: "nat \<Rightarrow> 'a list \<Rightarrow> 'a list list" where
  "chunks_exact n xs = (if n = 0 \<or> length xs < n then [] else take n xs # chunks_exact n (drop n xs))"
  by auto
termination by (relation "measure (\<lambda>(n, xs). length xs)") auto

declare chunks_exact.simps [simp del]

definition decode_dyn_tick_array :: "'x tick_lib \<Rightarrow> bytes \<Rightarrow> ('x \<times> TickState list) option" where
  "decode_dyn_tick_array T data =
     (if length data < 8 then None
      else if take 8 data \<noteq> DynTickArrayState_DISCRIMINATOR T then None
      else if length data < DynTickArrayState_HEADER_LEN T then None
      else let header = read_DynTickArrayState T (drop 8 (take (DynTickArrayState_HEADER_LEN T) data));
               ticks_bytes = drop (DynTickArrayState_HEADER_LEN T) data;
               tick_size = size_of_TickState T
           in if tick_size = 0 \<or> length ticks_bytes mod tick_size \<noteq> 0 then None
              else Some (header, map (read_TickState T) (chunks_exact tick_size ticks_bytes)))"

definition tick_array_from_account_data :: "'x tick_lib \<Rightarrow> bytes \<Rightarrow> 'x DynamicTickArrayState option" where
  "tick_array_from_account_data T data =
     (if length data < 8 then None
      else let discriminator = take 8 data
           in if discriminator = DynTickArrayState_DISCRIMINATOR T
              then map_option (\<lambda>(header, ticks). Dynamic header ticks) (decode_dyn_tick_array T data)
              else if discriminator = TickArrayState_DISCRIMINATOR T
              then map_option Fixed (fixed_from_account_data T data)
              else None)"

fun next_initialized_tick ::
  "'x tick_lib \<Rightarrow> 'x DynamicTickArrayState \<Rightarrow> i32 \<Rightarrow> u16 \<Rightarrow> bool \<Rightarrow> i32 option any_result" where
  "next_initialized_tick T (Dynamic header ticks) cur_tick spacing zero_for_one =
     and_then (result_ok (dyn_next_initialized_tick_index T header ticks cur_tick spacing zero_for_one)) (\<lambda>r.
       case r of
         Some (Some local_idx) \<Rightarrow> and_then (index_or_panic ticks local_idx) (\<lambda>t. Ok (Some (ts_tick t)))
       | _ \<Rightarrow> Ok None)"
| "next_initialized_tick T (Fixed ta) cur_tick spacing zero_for_one =
     fixed_next_initialized_tick T ta cur_tick spacing zero_for_one"

fun first_initialized_tick ::
  "'x tick_lib \<Rightarrow> 'x DynamicTickArrayState \<Rightarrow> bool \<Rightarrow> i32 option any_result" where
  "first_initialized_tick T (Dynamic header ticks) zero_for_one =
     and_then (result_ok (dyn_first_initialized_tick_index T header ticks zero_for_one)) (\<lambda>r.
       case r of
         Some local_idx \<Rightarrow> and_then (index_or_panic ticks local_idx) (\<lambda>t. Ok (Some (ts_tick t)))
       | None \<Rightarrow> Ok None)"
| "first_initialized_tick T (Fixed ta) zero_for_one = fixed_first_initialized_tick T ta zero_for_one"

fun array_tick_liquidity_net ::
  "'x tick_lib \<Rightarrow> 'x DynamicTickArrayState \<Rightarrow> i32 \<Rightarrow> u16 \<Rightarrow> i128 option any_result" where
  "array_tick_liquidity_net T (Dynamic header ticks) tick_index spacing =
     and_then (result_ok (dyn_get_tick_index_in_array T header tick_index spacing)) (\<lambda>r.
       case r of
         Some i \<Rightarrow> and_then (index_or_panic ticks i) (\<lambda>t. Ok (Some (ts_liquidity_net t)))
       | None \<Rightarrow> Ok None)"
| "array_tick_liquidity_net T (Fixed ta) tick_index spacing = fixed_get_tick_liquidity_net T ta tick_index spacing"

subsection \<open>Decoding\<close>

lemma fixed_from_account_data_ticks:
  "fixed_from_account_data T data = Some ta \<Longrightarrow> length (fixed_ticks ta) = TICK_ARRAY_SIZE T"
  by (auto simp: fixed_from_account_data_def Let_def split: if_splits bind_splits)

lemma concat_chunks_exact: "n \<noteq> 0 \<Longrightarrow> length xs mod n = 0 \<Longrightarrow> concat (chunks_exact n xs) = xs"
proof (induction n xs rule: chunks_exact.induct)
  case (1 n xs)
  show ?case
  proof (cases "length xs < n")
    case True
    then show ?thesis
      using "1.prems" by (simp add: chunks_exact.simps)
  next
    case False
    then have eq: "chunks_exact n xs = take n xs # chunks_exact n (drop n xs)"
      using "1.prems" by (simp add: chunks_exact.simps [of n xs])
    have "concat (chunks_exact n (drop n xs)) = drop n xs"
      using "1.prems" False by (intro "1.IH") (auto simp: le_mod_geq)
    then show ?thesis
      by (simp add: eq)
  qed
qed

lemma length_chunks_exact: "c \<in> set (chunks_exact n xs) \<Longrightarrow> length c = n"
proof (induction n xs rule: chunks_exact.induct)
  case (1 n xs)
  then show ?case
    by (subst (asm) (2) chunks_exact.simps) (auto split: if_splits)
qed

lemma int_div_less:
  fixes a b n :: int
  assumes "0 < b" and "a < n * b"
  shows "a div b < n"
proof (rule ccontr)
  assume "\<not> a div b < n"
  then have "n * b \<le> a div b * b"
    using assms(1) by (intro mult_right_mono) auto
  also have "\<dots> \<le> a"
    using assms(1) pos_mod_sign [of b a] by (simp add: minus_mod_eq_div_mult [symmetric])
  finally show False
    using assms(2) by simp
qed

lemma sdiv_nonneg: "0 \<le> a \<Longrightarrow> 0 < b \<Longrightarrow> a sdiv b = a div (b :: int)"
  by (cases "a = 0") (simp_all add: signed_divide_int_def)

subsection \<open>Search\<close>

lemma scan_down_find:
  "n \<le> length ticks \<Longrightarrow> scan_down ticks n = Ok (map_option ts_tick (find ts_initialized (rev (take n ticks))))"
  by (induction n) (simp_all add: take_Suc_conv_app_nth)

lemma scan_up_find:
  "i + n \<le> length ticks \<Longrightarrow>
     scan_up ticks i n = Ok (map_option ts_tick (find ts_initialized (take n (drop i ticks))))"
proof (induction n arbitrary: i)
  case (Suc n)
  then have "drop i ticks = ticks ! i # drop (Suc i) ticks"
    by (simp add: Cons_nth_drop_Suc)
  then show ?case
    using Suc by simp
qed simp

text \<open>What the tick search promises: from a tick of the array, downwards the nearest initialised tick at
  or below it, upwards the nearest one above it.\<close>

definition nearest_initialized :: "TickState list \<Rightarrow> nat \<Rightarrow> bool \<Rightarrow> i32 option" where
  "nearest_initialized ticks k zero_for_one =
     map_option ts_tick (find ts_initialized (if zero_for_one then rev (take (Suc k) ticks) else drop (Suc k) ticks))"

lemma fixed_next_initialized_tick_nearest:
  fixes spacing :: u16
  assumes "get_array_start_index T cur spacing = fixed_start_tick_index ta"
    and "length (fixed_ticks ta) = TICK_ARRAY_SIZE T" and "TICK_ARRAY_SIZE T < 2 ^ 15" and "spacing \<noteq> 0"
    and "0 \<le> cur - fixed_start_tick_index ta"
    and "cur - fixed_start_tick_index ta < int (TICK_ARRAY_SIZE T) * uint spacing"
  shows "fixed_next_initialized_tick T ta cur spacing z =
    Ok (nearest_initialized (fixed_ticks ta) (nat ((cur - fixed_start_tick_index ta) div uint spacing)) z)"
proof -
  let ?d = "cur - fixed_start_tick_index ta" and ?n = "TICK_ARRAY_SIZE T"
  have sp: "0 < uint spacing" "uint spacing < 65536"
    using assms(4) unsigned_less [of spacing, where 'a = int] by (simp_all add: word_neq_0_conv word_less_def)
  have "int ?n * uint spacing \<le> 2 ^ 15 * 65536"
    using assms(3) sp by (intro mult_mono) auto
  then have "in_i32 ?d"
    using assms(5, 6) by (simp add: in_i32_def)
  then have off: "wrap_i32 ?d sdiv uint spacing = ?d div uint spacing"
    using assms(5) sp by (simp add: wrap_i32_id sdiv_nonneg)
  have k: "0 \<le> ?d div uint spacing" "?d div uint spacing < int ?n"
    using assms(5, 6) sp by (simp_all add: pos_imp_zdiv_nonneg_iff int_div_less)
  have w: "wrap_i32 (?d div uint spacing + 1) = ?d div uint spacing + 1"
    using k assms(3) by (intro wrap_i32_id) (simp add: in_i32_def)
  show ?thesis
  proof (cases z)
    case True
    then show ?thesis
      using assms(1, 2, 4) k
      by (simp add: fixed_next_initialized_tick_def off scan_down_find nearest_initialized_def Suc_le_eq nat_less_iff
          Let_def del: scan_down.simps)
  next
    case False
    then show ?thesis
      using assms(1, 2, 4) k
      by (auto simp: fixed_next_initialized_tick_def off w scan_up_find nearest_initialized_def Let_def
          nat_add_distrib not_less)
  qed
qed

subsection \<open>Properties\<close>

text \<open>C33: on an array the current tick lies in, the search never indexes out of range and returns the
  nearest initialised tick at or below the current one when selling token 0, the nearest one
  strictly above it otherwise, and nothing exactly when there is none.\<close>

theorem next_initialized_tick_nearest:
  fixes spacing :: u16
  assumes "get_array_start_index T cur spacing = fixed_start_tick_index ta"
    and "length (fixed_ticks ta) = TICK_ARRAY_SIZE T" and "TICK_ARRAY_SIZE T < 2 ^ 15" and "spacing \<noteq> 0"
    and "0 \<le> cur - fixed_start_tick_index ta"
    and "cur - fixed_start_tick_index ta < int (TICK_ARRAY_SIZE T) * uint spacing"
  shows "next_initialized_tick T (Fixed ta) cur spacing z =
    Ok (nearest_initialized (fixed_ticks ta) (nat ((cur - fixed_start_tick_index ta) div uint spacing)) z)"
  using fixed_next_initialized_tick_nearest [OF assms] by simp

definition sample_tick :: "int \<Rightarrow> bool \<Rightarrow> TickState" where
  "sample_tick t b = \<lparr>ts_tick = t, ts_liquidity_net = 5, ts_initialized = b\<rparr>"

text \<open>Four ticks per array.\<close>

definition sample_tick_lib :: "unit tick_lib" where
  "sample_tick_lib = \<lparr>size_of_TickState = 1, TICK_ARRAY_SIZE = 4, TICK_ARRAY_SEED = [116],
     read_TickState = (\<lambda>bs. sample_tick 0 (bs = [1])),
     TickArrayState_DISCRIMINATOR = replicate 8 1, DynTickArrayState_DISCRIMINATOR = replicate 8 2,
     DynTickArrayState_HEADER_LEN = 8, read_DynTickArrayState = (\<lambda>_. ()), dyn_start_tick_index = (\<lambda>_. 0),
     dyn_next_initialized_tick_index = (\<lambda>_ _ _ _ _. Ok None),
     dyn_first_initialized_tick_index = (\<lambda>_ _ _. Err ''none''),
     dyn_get_tick_index_in_array = (\<lambda>_ _ _. Err ''none''),
     get_array_start_index = (\<lambda>t sp. t div (4 * uint sp) * (4 * uint sp)),
     get_tick_offset_in_tick_array = (\<lambda>s t sp. Ok (nat ((t - s) div uint sp)))\<rparr>"

definition sample_array :: FixedTickArraySnapshot where
  "sample_array = \<lparr>fixed_start_tick_index = - 40,
     fixed_ticks = [sample_tick (-40) True, sample_tick (-30) True, sample_tick (-20) False, sample_tick (-10) True]\<rparr>"

theorem next_initialized_tick_nearest_witness:
  "next_initialized_tick sample_tick_lib (Fixed sample_array) (-15) 10 True = Ok (Some (-30))"
proof -
  have sel: "get_array_start_index sample_tick_lib = (\<lambda>t sp. t div (4 * uint sp) * (4 * uint sp))"
    "TICK_ARRAY_SIZE sample_tick_lib = 4" "fixed_start_tick_index sample_array = - 40"
    by (simp_all add: sample_tick_lib_def sample_array_def)
  have ticks: "fixed_ticks sample_array
      = [sample_tick (-40) True, sample_tick (-30) True, sample_tick (-20) False, sample_tick (-10) True]"
    by (simp add: sample_array_def)
  have "next_initialized_tick sample_tick_lib (Fixed sample_array) (-15) 10 True =
      Ok (nearest_initialized (fixed_ticks sample_array) (nat ((-15 - fixed_start_tick_index sample_array) div uint (10 :: u16))) True)"
    by (rule next_initialized_tick_nearest) (simp_all add: sel ticks)
  then show ?thesis
    by (simp add: sel ticks nearest_initialized_def sample_tick_def)
qed

text \<open>Tick array accounts as they lie on chain: discriminator, pool id, start index and all ticks of a fixed array;
  discriminator, header and the allocated ticks of a dynamic one.  \<open>write\<close> is the memory layout of a tick,
  which \<open>read_TickState\<close> reads back.\<close>

definition tick_bytes :: "'x tick_lib \<Rightarrow> (TickState \<Rightarrow> bytes) \<Rightarrow> TickState list \<Rightarrow> bool" where
  "tick_bytes T write ticks \<longleftrightarrow> 0 < size_of_TickState T
     \<and> (\<forall>tick \<in> set ticks. length (write tick) = size_of_TickState T \<and> read_TickState T (write tick) = tick)"

definition fixed_account :: "'x tick_lib \<Rightarrow> (TickState \<Rightarrow> bytes) \<Rightarrow> pubkey \<Rightarrow> FixedTickArraySnapshot \<Rightarrow> bytes" where
  "fixed_account T write pool ta = TickArrayState_DISCRIMINATOR T @ pool
     @ to_le_bytes 4 (word_of_int (fixed_start_tick_index ta) :: u32) @ concat (map write (fixed_ticks ta))"

definition dyn_account :: "'x tick_lib \<Rightarrow> (TickState \<Rightarrow> bytes) \<Rightarrow> bytes \<Rightarrow> TickState list \<Rightarrow> bytes" where
  "dyn_account T write header ticks = DynTickArrayState_DISCRIMINATOR T @ header @ concat (map write ticks)"

lemma tick_bytes_Cons:
  "tick_bytes T write (tick # ticks) \<longleftrightarrow> tick_bytes T write ticks \<and> length (write tick) = size_of_TickState T \<and> read_TickState T (write tick) = tick"
  by (auto simp: tick_bytes_def)

lemma length_tick_bytes: "tick_bytes T write ticks \<Longrightarrow> length (concat (map write ticks)) = size_of_TickState T * length ticks"
  by (induction ticks) (simp_all add: tick_bytes_Cons)

lemma chunks_of_tick_bytes:
  "tick_bytes T write ticks \<Longrightarrow> map (read_TickState T) (chunks_exact (size_of_TickState T) (concat (map write ticks))) = ticks"
proof (induction ticks)
  case (Cons tick ticks)
  then have "0 < size_of_TickState T" "length (write tick) = size_of_TickState T"
    by (simp_all add: tick_bytes_def)
  then have "chunks_exact (size_of_TickState T) (concat (map write (tick # ticks)))
      = write tick # chunks_exact (size_of_TickState T) (concat (map write ticks))"
    by (subst chunks_exact.simps) simp
  with Cons show ?case
    by (simp add: tick_bytes_Cons)
qed (simp add: chunks_exact.simps tick_bytes_def)

lemma nth_tick_bytes:
  "tick_bytes T write ticks \<Longrightarrow> i < length ticks \<Longrightarrow>
     read_TickState T (take (size_of_TickState T) (drop (i * size_of_TickState T) (concat (map write ticks)))) = ticks ! i"
proof (induction ticks arbitrary: i)
  case (Cons tick ticks)
  then show ?case
    by (cases i) (simp_all add: tick_bytes_Cons)
qed simp

lemma sint_word_of_i32: "in_i32 i \<Longrightarrow> sint (word_of_int i :: u32) = i"
  unfolding in_i32_def by transfer (simp add: signed_take_bit_int_eq_self)

lemma fixed_account_decodes:
  assumes "length (TickArrayState_DISCRIMINATOR T) = 8" and "length pool = 32" and "in_i32 (fixed_start_tick_index ta)"
    and "tick_bytes T write (fixed_ticks ta)" and "length (fixed_ticks ta) = TICK_ARRAY_SIZE T"
  shows "fixed_from_account_data T (fixed_account T write pool ta @ rest) = Some ta"
proof -
  let ?ticks = "concat (map write (fixed_ticks ta))" and ?start = "word_of_int (fixed_start_tick_index ta) :: u32"
  have len: "length ?ticks = size_of_TickState T * TICK_ARRAY_SIZE T"
    using length_tick_bytes [OF assms(4)] assms(5) by simp
  have start: "sint ?start = fixed_start_tick_index ta"
    by (rule sint_word_of_i32 [OF assms(3)])
  have ticks: "map (\<lambda>i. read_TickState T (take (size_of_TickState T) (drop (i * size_of_TickState T) ?ticks))) [0..<TICK_ARRAY_SIZE T] = fixed_ticks ta"
    using nth_tick_bytes [OF assms(4)] assms(5) by (intro nth_equalityI) simp_all
  have "slice_get 8 (length (fixed_account T write pool ta @ rest)) (fixed_account T write pool ta @ rest)
      = Some (pool @ to_le_bytes 4 ?start @ ?ticks @ rest)"
    using assms(1) by (simp add: slice_get_def fixed_account_def)
  then show ?thesis
    using assms(2) len start ticks by (simp add: fixed_from_account_data_def Let_def from_to_le_bytes)
qed

lemma length_fixed_account:
  assumes "length (TickArrayState_DISCRIMINATOR T) = 8" and "length pool = 32" and "tick_bytes T write (fixed_ticks ta)"
    and "length (fixed_ticks ta) = TICK_ARRAY_SIZE T"
  shows "length (fixed_account T write pool ta) = 44 + size_of_TickState T * TICK_ARRAY_SIZE T"
  using assms length_tick_bytes [OF assms(3)] by (simp add: fixed_account_def)

lemma short_account_refused:
  assumes "TickArrayState_DISCRIMINATOR T \<noteq> DynTickArrayState_DISCRIMINATOR T" and "take 8 data = TickArrayState_DISCRIMINATOR T"
    and "length data < 44 + size_of_TickState T * TICK_ARRAY_SIZE T"
  shows "tick_array_from_account_data T data = None"
proof (cases "length data < 8")
  case False
  then have "fixed_from_account_data T data = None"
    using assms(3) by (simp add: fixed_from_account_data_def slice_get_def Let_def)
  then show ?thesis
    using assms(1,2) by (simp add: tick_array_from_account_data_def Let_def)
qed (simp add: tick_array_from_account_data_def)

text \<open>C38: tick array accounts are read back.  From the bytes of a fixed array \<open>from_account_data\<close> gives exactly its
  start index and its ticks, each at its own offset, whatever follows them, and from a truncated account
  nothing; from the bytes of a dynamic array it gives its header and its allocated ticks in order,
  and nothing when the ticks do not end at the end of the account.\<close>

theorem tick_array_decode_complete:
  assumes "length (TickArrayState_DISCRIMINATOR T) = 8" and "length (DynTickArrayState_DISCRIMINATOR T) = 8"
    and "TickArrayState_DISCRIMINATOR T \<noteq> DynTickArrayState_DISCRIMINATOR T"
    and "length pool = 32" and "in_i32 (fixed_start_tick_index ta)" and "length (fixed_ticks ta) = TICK_ARRAY_SIZE T"
    and "tick_bytes T write (fixed_ticks ta)"
    and "8 + length header = DynTickArrayState_HEADER_LEN T" and "tick_bytes T write ticks"
  shows "tick_array_from_account_data T (fixed_account T write pool ta @ rest) = Some (Fixed ta)
    \<and> (n < length (fixed_account T write pool ta) \<longrightarrow> tick_array_from_account_data T (take n (fixed_account T write pool ta)) = None)
    \<and> tick_array_from_account_data T (dyn_account T write header ticks) = Some (Dynamic (read_DynTickArrayState T header) ticks)
    \<and> (0 < length part \<and> length part < size_of_TickState T \<longrightarrow>
         tick_array_from_account_data T (dyn_account T write header ticks @ part) = None)"
proof (intro conjI impI)
  have disc: "take 8 (fixed_account T write pool ta @ rest) = TickArrayState_DISCRIMINATOR T"
    and len: "8 \<le> length (fixed_account T write pool ta @ rest)"
    using assms(1) by (simp_all add: fixed_account_def)
  then show "tick_array_from_account_data T (fixed_account T write pool ta @ rest) = Some (Fixed ta)"
    using assms(3) fixed_account_decodes [OF assms(1,4,5,7,6)] by (simp add: tick_array_from_account_data_def Let_def)
next
  assume n: "n < length (fixed_account T write pool ta)"
  let ?data = "take n (fixed_account T write pool ta)"
  have short: "length ?data < 44 + size_of_TickState T * TICK_ARRAY_SIZE T"
    using n length_fixed_account [OF assms(1,4,7,6)] by simp
  show "tick_array_from_account_data T ?data = None"
  proof (cases "length ?data < 8")
    case False
    then have "8 \<le> n"
      by (metis length_take min.boundedE not_le)
    then have "take 8 ?data = take 8 (fixed_account T write pool ta)"
      by (simp add: min_absorb1)
    also have "\<dots> = TickArrayState_DISCRIMINATOR T"
      using assms(1) by (simp add: fixed_account_def)
    finally have "take 8 ?data = TickArrayState_DISCRIMINATOR T" .
    then show ?thesis
      by (rule short_account_refused [OF assms(3) _ short])
  qed (simp add: tick_array_from_account_data_def)
next
  have dyn: "tick_array_from_account_data T (dyn_account T write header ticks @ part) =
      (if length part mod size_of_TickState T \<noteq> 0 then None
       else Some (Dynamic (read_DynTickArrayState T header)
         (map (read_TickState T) (chunks_exact (size_of_TickState T) (concat (map write ticks) @ part)))))" for part
  proof -
    have "take 8 (dyn_account T write header ticks @ part) = DynTickArrayState_DISCRIMINATOR T"
      "drop 8 (take (DynTickArrayState_HEADER_LEN T) (dyn_account T write header ticks @ part)) = header"
      "drop (DynTickArrayState_HEADER_LEN T) (dyn_account T write header ticks @ part) = concat (map write ticks) @ part"
      "DynTickArrayState_HEADER_LEN T \<le> length (dyn_account T write header ticks @ part)" "8 \<le> length (dyn_account T write header ticks @ part)"
      using assms(2) by (simp_all add: dyn_account_def flip: assms(8))
    moreover have "0 < size_of_TickState T" "length (concat (map write ticks) @ part) mod size_of_TickState T = length part mod size_of_TickState T"
      using assms(9) length_tick_bytes [OF assms(9)] by (simp_all add: tick_bytes_def)
    ultimately show ?thesis
      by (simp add: tick_array_from_account_data_def decode_dyn_tick_array_def Let_def)
  qed
  show "tick_array_from_account_data T (dyn_account T write header ticks) = Some (Dynamic (read_DynTickArrayState T header) ticks)"
    using dyn [of "[]"] chunks_of_tick_bytes [OF assms(9)] by simp
  assume "0 < length part \<and> length part < size_of_TickState T"
  then show "tick_array_from_account_data T (dyn_account T write header ticks @ part) = None"
    using dyn [of part] by simp
qed

text \<open>Two bytes per tick.\<close>

definition wide_tick_lib :: "unit tick_lib" where
  "wide_tick_lib = sample_tick_lib\<lparr>size_of_TickState := 2, TICK_ARRAY_SIZE := 2,
     read_TickState := (\<lambda>bs. sample_tick (uint (bs ! 0)) (bs ! 1 = 1))\<rparr>"

definition wide_tick :: "TickState \<Rightarrow> bytes" where
  "wide_tick tick = [word_of_int (ts_tick tick), if ts_initialized tick then 1 else 0]"

theorem tick_array_decode_complete_witness:
  "tick_array_from_account_data wide_tick_lib
     (fixed_account wide_tick_lib wide_tick (replicate 32 7) \<lparr>fixed_start_tick_index = - 3, fixed_ticks = [sample_tick 5 True, sample_tick 9 False]\<rparr> @ [1, 2, 3])
     = Some (Fixed \<lparr>fixed_start_tick_index = - 3, fixed_ticks = [sample_tick 5 True, sample_tick 9 False]\<rparr>)
   \<and> tick_array_from_account_data wide_tick_lib (dyn_account wide_tick_lib wide_tick [] [sample_tick 6 True, sample_tick 7 False, sample_tick 8 True])
     = Some (Dynamic () [sample_tick 6 True, sample_tick 7 False, sample_tick 8 True])
   \<and> tick_array_from_account_data wide_tick_lib
       (dyn_account wide_tick_lib wide_tick [] [sample_tick 6 True, sample_tick 7 False, sample_tick 8 True] @ [4]) = None"
proof -
  have lib: "length (TickArrayState_DISCRIMINATOR wide_tick_lib) = 8" "length (DynTickArrayState_DISCRIMINATOR wide_tick_lib) = 8"
    "TickArrayState_DISCRIMINATOR wide_tick_lib \<noteq> DynTickArrayState_DISCRIMINATOR wide_tick_lib"
    "TICK_ARRAY_SIZE wide_tick_lib = 2" "DynTickArrayState_HEADER_LEN wide_tick_lib = 8" "size_of_TickState wide_tick_lib = 2"
    by (simp_all add: wide_tick_lib_def sample_tick_lib_def)
  have "tick_bytes wide_tick_lib wide_tick [sample_tick 5 True, sample_tick 9 False]"
    "tick_bytes wide_tick_lib wide_tick [sample_tick 6 True, sample_tick 7 False, sample_tick 8 True]"
    by (simp_all add: tick_bytes_def wide_tick_lib_def wide_tick_def sample_tick_def)
  note ticks = this
  show ?thesis
    using tick_array_decode_complete [OF lib(1-3), of "replicate 32 7"
        "\<lparr>fixed_start_tick_index = - 3, fixed_ticks = [sample_tick 5 True, sample_tick 9 False]\<rparr>" wide_tick "[]"
        "[sample_tick 6 True, sample_tick 7 False, sample_tick 8 True]" "[1, 2, 3]" 0 "[4]"] lib ticks
    by (simp add: in_i32_def)
qed

end
