(* ===== verification/Loops.thy ===== *)
theory Loops
  imports Prelude
begin

text \<open>
  Rust's \<open>loop\<close> and \<open>while\<close> with early returns: a step either returns (\<open>Inl\<close>), goes round again with a
  new state (\<open>Inr\<close>), or fails.  A loop that never ends has the value \<open>Diverge\<close>.  The lemmas are the
  invariant rule and the termination rule the loops of the program use.
\<close>

partial_function (option) iterate ::
  "('s \<Rightarrow> ('e, 'r + 's) outcome) \<Rightarrow> 's \<Rightarrow> ('e, 'r) outcome option" where
  "iterate step s =
     (case step s of
        Ok x \<Rightarrow> (case x of Inl r \<Rightarrow> Some (Ok r) | Inr s' \<Rightarrow> iterate step s')
      | Err e \<Rightarrow> Some (Err e)
      | Panic \<Rightarrow> Some Panic
      | Diverge \<Rightarrow> Some Diverge)"

definition run_loop :: "('s \<Rightarrow> ('e, 'r + 's) outcome) \<Rightarrow> 's \<Rightarrow> ('e, 'r) outcome" where
  "run_loop step s = of_run (iterate step s)"

lemma run_loop_unfold:
  "run_loop step s = and_then (step s) (\<lambda>x. case x of Inl r \<Rightarrow> Ok r | Inr s' \<Rightarrow> run_loop step s')"
  unfolding run_loop_def
  by (subst iterate.simps) (auto simp: of_run_def split: outcome.splits sum.splits)

definition keeps :: "('s \<Rightarrow> ('e, 'r + 's) outcome) \<Rightarrow> ('s \<Rightarrow> bool) \<Rightarrow> ('r \<Rightarrow> bool) \<Rightarrow> bool" where
  "keeps step P Q \<longleftrightarrow> (\<forall>s. P s \<longrightarrow> (\<forall>s'. step s = Ok (Inr s') \<longrightarrow> P s') \<and> (\<forall>r. step s = Ok (Inl r) \<longrightarrow> Q r))"

lemma iterate_Ok_invariant:
  fixes step :: "'s \<Rightarrow> ('e, 'r + 's) outcome"
  assumes "iterate step s = Some res"
  shows "keeps step P Q \<longrightarrow> P s \<longrightarrow> (\<forall>r. res = Ok r \<longrightarrow> Q r)"
proof (rule iterate.raw_induct [OF _ assms])
  fix f :: "('s \<Rightarrow> ('e, 'r + 's) outcome) \<Rightarrow> 's \<Rightarrow> ('e, 'r) outcome option" and step s res
  assume IH: "\<And>st s res. f st s = Some res \<Longrightarrow> keeps st P Q \<longrightarrow> P s \<longrightarrow> (\<forall>r. res = Ok r \<longrightarrow> Q r)"
    and res: "(case step s of Ok (Inl r) \<Rightarrow> Some (Ok r) | Ok (Inr s') \<Rightarrow> f step s' | Err e \<Rightarrow> Some (Err e)
      | Panic \<Rightarrow> Some Panic | Diverge \<Rightarrow> Some Diverge) = Some res"
  show "keeps step P Q \<longrightarrow> P s \<longrightarrow> (\<forall>r. res = Ok r \<longrightarrow> Q r)"
  proof (cases "\<exists>s'. step s = Ok (Inr s')")
    case True
    then obtain s' where s': "step s = Ok (Inr s')" by blast
    then have "f step s' = Some res"
      using res by simp
    from IH [OF this] s' show ?thesis
      unfolding keeps_def by blast
  next
    case False
    then show ?thesis
      using res unfolding keeps_def by (cases "step s") (auto split: sum.split_asm)
  qed
qed

lemma run_loop_invariant:
  assumes "run_loop step s = Ok r" and "P s"
    and "\<And>s s'. P s \<Longrightarrow> step s = Ok (Inr s') \<Longrightarrow> P s'"
    and "\<And>s r. P s \<Longrightarrow> step s = Ok (Inl r) \<Longrightarrow> Q r"
  shows "Q r"
proof (cases "iterate step s")
  case (Some res)
  with assms(1) have "res = Ok r"
    by (simp add: run_loop_def of_run_def)
  moreover have "keeps step P Q"
    using assms(3,4) unfolding keeps_def by blast
  ultimately show ?thesis
    using iterate_Ok_invariant [OF Some] assms(2) by blast
qed (use assms(1) in \<open>simp add: run_loop_def of_run_def\<close>)

lemma run_loop_returns [returns_intros]:
  fixes m :: "'s \<Rightarrow> nat"
  assumes "P s"
    and "\<And>s. P s \<Longrightarrow> returns (step s)"
    and "\<And>s s'. P s \<Longrightarrow> step s = Ok (Inr s') \<Longrightarrow> P s' \<and> m s' < m s"
  shows "returns (run_loop step s)"
  using assms(1)
proof (induction s rule: measure_induct_rule [of m])
  case (less s)
  show ?case
    by (subst run_loop_unfold, rule returns_and_then [OF assms(2) [OF less.prems]])
      (use less assms(3) in \<open>auto split: sum.splits\<close>)
qed

end
