(* ===== verification/Clmm_Nav.thy ===== *)
theory Clmm_Nav
  imports Tick_Arrays Loops
begin

text \<open>
  Navigation between tick arrays in \<open>src/byreal_clmm/core.rs\<close>: derived addresses, the search for the
  next initialised array through the default bitmap and its extension, the accounts a swap needs, and
  the search for the next initialised tick across arrays.  The two \<open>loop\<close>s are \<open>run_loop\<close>s of theory
  \<open>Loops\<close>, so that running forever is a value; the predicate \<open>advancing\<close> of \<open>Clmm_Nav_Properties\<close> gives the conditions
  under which they end.
\<close>

subsection \<open>Addresses\<close>

definition POOL_TICK_ARRAY_BITMAP_SEED :: bytes where
  "POOL_TICK_ARRAY_BITMAP_SEED = str_bytes ''pool_tick_array_bitmap_extension''"

definition i32_to_be_bytes :: "i32 \<Rightarrow> bytes" where
  "i32_to_be_bytes x = rev (nat_le_bytes 4 (nat (x mod 2 ^ 32)))"

definition tick_array_bitmap_extension_key :: "'x clmm_lib \<Rightarrow> 'x ClmmVenue \<Rightarrow> pubkey" where
  "tick_array_bitmap_extension_key L v =
     find_program_address (lib_codec L) [POOL_TICK_ARRAY_BITMAP_SEED, cv_market_id v] (cv_program_id v)"

definition get_price_feed_account_address :: "'x clmm_lib \<Rightarrow> u16 \<Rightarrow> bytes \<Rightarrow> pubkey" where
  "get_price_feed_account_address L shard_id price_feed_id =
     find_program_address (lib_codec L) [to_le_bytes 2 shard_id, price_feed_id] (pyth_push_oracle_id (lib_codec L))"

definition token0_pyth_oracle_pubkey :: "'x clmm_lib \<Rightarrow> 'x ClmmVenue \<Rightarrow> pubkey option" where
  "token0_pyth_oracle_pubkey L v =
     (if pool_token0_pyth_feed_id (cv_pool_state v) \<noteq> replicate 32 0
      then Some (get_price_feed_account_address L 0 (pool_token0_pyth_feed_id (cv_pool_state v))) else None)"

definition token1_pyth_oracle_pubkey :: "'x clmm_lib \<Rightarrow> 'x ClmmVenue \<Rightarrow> pubkey option" where
  "token1_pyth_oracle_pubkey L v =
     (if pool_token1_pyth_feed_id (cv_pool_state v) \<noteq> replicate 32 0
      then Some (get_price_feed_account_address L 0 (pool_token1_pyth_feed_id (cv_pool_state v))) else None)"

definition venue_dynamic_fee_enabled :: "'x clmm_lib \<Rightarrow> 'x ClmmVenue \<Rightarrow> bool" where
  "venue_dynamic_fee_enabled L v \<longleftrightarrow> is_swap_dynamic_fee_enabled (lib_pool L) (cv_pool_state v)"

definition get_tick_array_address :: "'x clmm_lib \<Rightarrow> 'x ClmmVenue \<Rightarrow> i32 \<Rightarrow> pubkey" where
  "get_tick_array_address L v start_index =
     find_program_address (lib_codec L)
       [TICK_ARRAY_SEED (lib_tick L), cv_market_id v, i32_to_be_bytes start_index] (cv_program_id v)"

subsection \<open>The next initialised tick array\<close>

abbreviation spacing_of :: "'x ClmmVenue \<Rightarrow> u16" where
  "spacing_of v \<equiv> pool_tick_spacing (cv_pool_state v)"

abbreviation array_start :: "'x clmm_lib \<Rightarrow> 'x ClmmVenue \<Rightarrow> i32 \<Rightarrow> i32" where
  "array_start L v t \<equiv> get_array_start_index (lib_tick L) t (spacing_of v)"

definition is_overflow_default_tickarray_bitmap :: "'x clmm_lib \<Rightarrow> 'x ClmmVenue \<Rightarrow> i32 \<Rightarrow> bool" where
  "is_overflow_default_tickarray_bitmap L v tick_index =
     (let (min_start, max_start) = tick_array_start_index_range (lib_pool L) (cv_pool_state v);
          tick_array_start_index = array_start L v tick_index
      in max_start \<le> tick_array_start_index \<or> tick_array_start_index < min_start)"

definition MISSING_EXTENSION :: string where
  "MISSING_EXTENSION = ''Missing tick array bitmap extension account''"

text \<open>One turn of the \<open>loop\<close>: \<open>Inl\<close> is a return, \<open>Inr\<close> the start index of the next turn.\<close>

definition next_array_step ::
  "'x clmm_lib \<Rightarrow> 'x ClmmVenue \<Rightarrow> bool \<Rightarrow> i32 \<Rightarrow> (i32 option + i32) any_result" where
  "next_array_step L v zero_for_one prev =
     and_then (bitmap_next_initialized (lib_pool L)
            (pool_tick_array_bitmap (cv_pool_state v)) prev (spacing_of v) zero_for_one) (\<lambda>(is_found, start_index).
         if is_found then Ok (Inl (Some start_index))
         else and_then (ok_or (cv_bitmap_extension v) MISSING_EXTENSION) (\<lambda>ext.
              and_then (ext_next_initialized_from_one_bitmap (lib_pool L) ext start_index (spacing_of v) zero_for_one)
                (\<lambda>(is_found, start_index).
                if is_found then Ok (Inl (Some start_index))
                else if start_index < MIN_TICK (lib_pool L) \<or> MAX_TICK (lib_pool L) < start_index
                then Ok (Inl None)
                else Ok (Inr start_index))))"

definition next_initialized_tick_array_start_index ::
  "'x clmm_lib \<Rightarrow> 'x ClmmVenue \<Rightarrow> i32 \<Rightarrow> bool \<Rightarrow> i32 option any_result" where
  "next_initialized_tick_array_start_index L v prev zero_for_one =
     run_loop (next_array_step L v zero_for_one) (array_start L v prev)"

definition NO_ARRAY_FOR_DIRECTION :: string where
  "NO_ARRAY_FOR_DIRECTION = ''Liquidity insufficient: no initialized tick array for direction''"

definition first_initialized_tick_array ::
  "'x clmm_lib \<Rightarrow> 'x ClmmVenue \<Rightarrow> bool \<Rightarrow> (bool \<times> i32) any_result" where
  "first_initialized_tick_array L v zero_for_one =
     (let current_start = array_start L v (pool_tick_current (cv_pool_state v)) in
      and_then
        (if is_overflow_default_tickarray_bitmap L v (pool_tick_current (cv_pool_state v))
         then and_then (ok_or (cv_bitmap_extension v) MISSING_EXTENSION) (\<lambda>ext.
                ext_check_tick_array_is_initialized (lib_pool L) ext current_start (spacing_of v))
         else check_current_tick_array_is_initialized (lib_pool L) (pool_tick_array_bitmap (cv_pool_state v))
                (pool_tick_current (cv_pool_state v)) (spacing_of v)) (\<lambda>(is_initialized, start_index).
        if is_initialized then Ok (True, start_index)
        else and_then (next_initialized_tick_array_start_index L v current_start zero_for_one) (\<lambda>next_start.
               ok_or (map_option (\<lambda>start. (False, start)) next_start) NO_ARRAY_FOR_DIRECTION)))"

definition init_tick_nav_state :: "'x clmm_lib \<Rightarrow> 'x ClmmVenue \<Rightarrow> bool \<Rightarrow> TickNavState any_result" where
  "init_tick_nav_state L v zero_for_one =
     and_then (first_initialized_tick_array L v zero_for_one) (\<lambda>(is_match, first_start).
       Ok \<lparr>nav_is_match_pool_current_tick_array = is_match,
           nav_current_valid_tick_array_start_index = first_start\<rparr>)"

subsection \<open>The arrays an update or a swap needs\<close>

text \<open>A \<open>BTreeSet<i32>\<close> is a sorted list without duplicates.\<close>

definition btree_insert :: "int \<Rightarrow> int list \<Rightarrow> int list" where
  "btree_insert x xs = (if x \<in> set xs then xs else insort x xs)"

text \<open>The crate's own walk, as far as it succeeds, at most \<open>n\<close> further arrays.\<close>

fun follow_arrays :: "'x clmm_lib \<Rightarrow> 'x ClmmVenue \<Rightarrow> bool \<Rightarrow> nat \<Rightarrow> i32 \<Rightarrow> i32 list" where
  "follow_arrays L v zero_for_one 0 start = []"
| "follow_arrays L v zero_for_one (Suc n) start =
     (case pool_next_initialized_tick_array (lib_pool L) (cv_pool_state v) (cv_bitmap_extension v) start zero_for_one of
        Inr (Some nxt) \<Rightarrow> nxt # follow_arrays L v zero_for_one n nxt
      | _ \<Rightarrow> [])"

definition collect_dir :: "'x clmm_lib \<Rightarrow> 'x ClmmVenue \<Rightarrow> bool \<Rightarrow> nat \<Rightarrow> int list \<Rightarrow> int list" where
  "collect_dir L v zero_for_one limit start_indexes =
     (if limit = 0 then start_indexes
      else case pool_get_first_initialized_tick_array (lib_pool L) (cv_pool_state v) (cv_bitmap_extension v) zero_for_one of
             Inr (_, start) \<Rightarrow>
               fold btree_insert (start # follow_arrays L v zero_for_one (limit - 1) start) start_indexes
           | _ \<Rightarrow> start_indexes)"

definition fallback_offset :: "'x clmm_lib \<Rightarrow> 'x ClmmVenue \<Rightarrow> nat \<Rightarrow> i32" where
  "fallback_offset L v i =
     wrap_i32 (wrap_i32 (int (TICK_ARRAY_SIZE (lib_tick L)) * wrap_i32 (int i)) * uint (spacing_of v))"

definition all_tick_array_starts :: "'x clmm_lib \<Rightarrow> 'x ClmmVenue \<Rightarrow> int list" where
  "all_tick_array_starts L v =
     (let limit = cv_max_one_side_tick_arrays v;
          overflow_default = pool_is_overflow_default_tickarray_bitmap (lib_pool L) (cv_pool_state v)
            [pool_tick_current (cv_pool_state v)];
          can_use_bitmap_helpers = cv_bitmap_extension v \<noteq> None \<or> \<not> overflow_default;
          start_indexes = (if can_use_bitmap_helpers
                           then collect_dir L v False limit (collect_dir L v True limit []) else [])
      in if start_indexes = []
         then let current_start_index = array_start L v (pool_tick_current (cv_pool_state v))
              in fold btree_insert
                   (current_start_index # map (\<lambda>i. saturating_i32 (current_start_index - fallback_offset L v i)) [1..<limit])
                   start_indexes
         else start_indexes)"

definition get_all_tick_array_addresses :: "'x clmm_lib \<Rightarrow> 'x ClmmVenue \<Rightarrow> pubkey list" where
  "get_all_tick_array_addresses L v = map (get_tick_array_address L v) (all_tick_array_starts L v)"

definition swap_tick_array_starts :: "'x clmm_lib \<Rightarrow> 'x ClmmVenue \<Rightarrow> bool \<Rightarrow> int list" where
  "swap_tick_array_starts L v zero_for_one =
     (case pool_get_first_initialized_tick_array (lib_pool L) (cv_pool_state v) (cv_bitmap_extension v) zero_for_one of
        Inr (_, first_start) \<Rightarrow>
          first_start # follow_arrays L v zero_for_one (cv_max_one_side_tick_arrays v - 1) first_start
      | _ \<Rightarrow>
          let current_start_index = array_start L v (pool_tick_current (cv_pool_state v))
          in current_start_index # map (\<lambda>i. saturating_i32
               (if zero_for_one then current_start_index - fallback_offset L v i
                else current_start_index + fallback_offset L v i)) [1..<cv_max_one_side_tick_arrays v])"

definition get_swap_tick_arrays :: "'x clmm_lib \<Rightarrow> 'x ClmmVenue \<Rightarrow> bool \<Rightarrow> pubkey list" where
  "get_swap_tick_arrays L v zero_for_one = map (get_tick_array_address L v) (swap_tick_array_starts L v zero_for_one)"

fun collect_live ::
  "'x clmm_lib \<Rightarrow> 'x ClmmVenue \<Rightarrow> pubkey list \<Rightarrow> pubkey list \<Rightarrow> pubkey list venue_result" where
  "collect_live L v live [] = Ok live"
| "collect_live L v live (tick_array # rest) =
     (if map_of (cv_dynamic_tick_arrays v) tick_array \<noteq> None
      then collect_live L v (live @ [tick_array]) rest
      else if live = []
      then Err (MissingState (EI_String (''directional first tick array account missing for swap: ''
             @ show_pubkey (lib_codec L) tick_array)))
      else collect_live L v live rest)"

definition live_directional_tick_arrays :: "'x clmm_lib \<Rightarrow> 'x ClmmVenue \<Rightarrow> bool \<Rightarrow> pubkey list venue_result" where
  "live_directional_tick_arrays L v zero_for_one =
     and_then (collect_live L v [] (get_swap_tick_arrays L v zero_for_one)) (\<lambda>live.
       if live = []
       then Err (MissingState (EI_StaticStr
              ''no directional tick array accounts available; call update_state() with tick arrays''))
       else Ok live)"

subsection \<open>The next initialised tick\<close>

definition loaded_tick_array_by_start_index ::
  "'x clmm_lib \<Rightarrow> 'x ClmmVenue \<Rightarrow> i32 \<Rightarrow> 'x DynamicTickArrayState option" where
  "loaded_tick_array_by_start_index L v start_index =
     find (\<lambda>ta. start_tick_index (lib_tick L) ta = start_index) (map snd (cv_dynamic_tick_arrays v))"

definition NO_FURTHER_ARRAYS :: string where
  "NO_FURTHER_ARRAYS = ''Liquidity insufficient: no further initialized tick arrays''"

definition missing_array :: "string \<Rightarrow> i32 \<Rightarrow> string" where
  "missing_array what i = ''Missing tick array data for '' @ what @ show_int i"

text \<open>One turn of the loop: \<open>Inl\<close> is a return, \<open>Inr\<close> the navigation state of the next turn.\<close>

definition nav_step ::
  "'x clmm_lib \<Rightarrow> 'x ClmmVenue \<Rightarrow> i32 \<Rightarrow> bool \<Rightarrow> TickNavState \<Rightarrow> ((i32 \<times> TickNavState) + TickNavState) any_result" where
  "nav_step L v current_tick zero_for_one nav =
     and_then (ok_or (loaded_tick_array_by_start_index L v (nav_current_valid_tick_array_start_index nav))
                (missing_array ''start_index '' (nav_current_valid_tick_array_start_index nav))) (\<lambda>tick_array.
     and_then (next_initialized_tick (lib_tick L) tick_array current_tick (spacing_of v) zero_for_one) (\<lambda>found.
       case found of
         Some t \<Rightarrow> Ok (Inl (t, nav))
       | None \<Rightarrow>
           and_then
             (if \<not> nav_is_match_pool_current_tick_array nav
              then first_initialized_tick (lib_tick L) tick_array zero_for_one else Ok None) (\<lambda>first.
           let nav1 = nav\<lparr>nav_is_match_pool_current_tick_array := True\<rparr> in
           case first of
             Some t \<Rightarrow> Ok (Inl (t, nav1))
           | None \<Rightarrow>
               and_then (next_initialized_tick_array_start_index L v
                          (nav_current_valid_tick_array_start_index nav) zero_for_one) (\<lambda>next_arr.
               and_then (ok_or next_arr NO_FURTHER_ARRAYS) (\<lambda>next_start.
                 let nav2 = nav1\<lparr>nav_current_valid_tick_array_start_index := next_start\<rparr> in
               and_then (ok_or (loaded_tick_array_by_start_index L v next_start)
                          (missing_array ''advanced start_index '' next_start)) (\<lambda>next_tick_array.
               and_then (first_initialized_tick (lib_tick L) next_tick_array zero_for_one) (\<lambda>first2.
                 case first2 of Some t \<Rightarrow> Ok (Inl (t, nav2)) | None \<Rightarrow> Ok (Inr nav2))))))))"

definition find_next_initialized_tick_with_nav ::
  "'x clmm_lib \<Rightarrow> 'x ClmmVenue \<Rightarrow> i32 \<Rightarrow> bool \<Rightarrow> TickNavState \<Rightarrow> (i32 \<times> TickNavState) any_result" where
  "find_next_initialized_tick_with_nav L v current_tick zero_for_one nav =
     run_loop (nav_step L v current_tick zero_for_one) nav"

definition get_tick_liquidity_net :: "'x clmm_lib \<Rightarrow> 'x ClmmVenue \<Rightarrow> i32 \<Rightarrow> i128 option any_result" where
  "get_tick_liquidity_net L v tick_index =
     (case loaded_tick_array_by_start_index L v (array_start L v tick_index) of
        None \<Rightarrow> Ok None
      | Some ta \<Rightarrow> array_tick_liquidity_net (lib_tick L) ta tick_index (spacing_of v))"

end
