(* ===== verification/Clmm_Swap.thy ===== *)
theory Clmm_Swap
  imports Clmm_Nav
begin

text \<open>
  Fees, the swap simulation and quoting of \<open>src/byreal_clmm/core.rs\<close>.  The \<open>while\<close> loop of
  \<open>simulate_swap_steps\<close> is a \<open>run_loop\<close> over the swap state and the navigation state.  Errors of the
  \<open>anyhow\<close> kind are their texts, because \<open>quote_with_price_upper_bound\<close> decides on the text.
\<close>

subsection \<open>Dynamic fees\<close>

definition DYNAMIC_MAX_PYTH_AGE_SECONDS :: i64 where
  "DYNAMIC_MAX_PYTH_AGE_SECONDS = 3600"

definition PYTH_ACCOUNTS_MISSING :: string where
  "PYTH_ACCOUNTS_MISSING = ''dynamic fee pyth oracle accounts missing''"

definition load_dynamic_pyth_prices :: "'x ClmmVenue \<Rightarrow> (Price \<times> Price) any_result" where
  "load_dynamic_pyth_prices v =
     and_then (ok_or (cv_token0_pyth_oracle_data v) PYTH_ACCOUNTS_MISSING) (\<lambda>token0_price.
     and_then (ok_or (cv_token1_pyth_oracle_data v) PYTH_ACCOUNTS_MISSING) (\<lambda>token1_price.
       if price_price token0_price \<le> 0 \<or> price_price token1_price \<le> 0
       then Err ''pyth price is non-positive''
       else let oldest_allowed = wrap_i64 (cv_current_unix_timestamp v - DYNAMIC_MAX_PYTH_AGE_SECONDS)
            in if price_publish_time token0_price < oldest_allowed \<or> price_publish_time token1_price < oldest_allowed
               then Err ''pyth price is stale''
               else Ok (token0_price, token1_price)))"

definition dynamic_fee_rate ::
  "'x clmm_lib \<Rightarrow> 'x ClmmVenue \<Rightarrow> bool \<Rightarrow> u64 \<Rightarrow> i64 \<Rightarrow> u32 any_result" where
  "dynamic_fee_rate L v zero_for_one amount_specified current_timestamp =
     (let M = lib_math L; pool = cv_pool_state v in
      and_then (ok_or (cv_amm_config v) ''AMM config not loaded'') (\<lambda>amm_config.
      and_then (calculate_base_trade_fee_rate (lib_pool L) pool amm_config zero_for_one
                  (word_of_int current_timestamp)) (\<lambda>fee_rate.
        if \<not> venue_dynamic_fee_enabled L v then Ok fee_rate
        else if cv_token0_program_id v = ZERO_PUBKEY \<or> cv_token1_program_id v = ZERO_PUBKEY
        then Err ''dynamic fee vault accounts missing''
        else
      and_then (load_dynamic_pyth_prices v) (\<lambda>(token0_price, token1_price).
      and_then (calculate_price_index M token0_price token1_price (pool_mint_decimals_0 pool)
                  (pool_mint_decimals_1 pool)) (\<lambda>p_index.
      and_then (price_from_sqrt_price_x64 M (pool_sqrt_price_x64 pool)) (\<lambda>p_0.
        let token1_as_quote = is_token1_quote (lib_pool L) pool;
            input_is_quote = (if token1_as_quote then \<not> zero_for_one else zero_for_one);
            is_buying_base = input_is_quote
        in
      and_then (if input_is_quote then Ok (ucast amount_specified)
                else quote_amount_from_base M (ucast amount_specified) p_0 token1_as_quote) (\<lambda>quote_amount.
        let quote_decimals = (if token1_as_quote then pool_mint_decimals_1 pool else pool_mint_decimals_0 pool) in
      and_then (normalize_trade_size M quote_amount quote_decimals) (\<lambda>trade_size.
        let token0_vault_amount = (ucast (cv_token0_vault_amount v) :: u128);
            token1_vault_amount = (ucast (cv_token1_vault_amount v) :: u128)
        in
      and_then
        (if token1_as_quote
         then and_then (quote_amount_from_base M token0_vault_amount p_0 True) (\<lambda>q. Ok (q, token1_vault_amount))
         else and_then (quote_amount_from_base M token1_vault_amount p_0 False) (\<lambda>q. Ok (q, token0_vault_amount)))
        (\<lambda>(quote_value_of_base, quote_balance).
        calculate_dynamic_fee_rate M
          \<lparr>dfi_p_0 = p_0, dfi_p_index = p_index, dfi_trade_size = trade_size,
           dfi_quote_value_of_base = quote_value_of_base, dfi_quote_balance = quote_balance,
           dfi_is_buying_base = is_buying_base, dfi_fee_base = fee_rate,
           dfi_arbitrage_fee_buffer_ppm = arbitrage_fee_buffer_ppm M pool,
           dfi_trade_slippage_fee_base_milli_bp = trade_slippage_fee_base_milli_bp M pool,
           dfi_trade_slippage_fee_trade_size_threshold = trade_slippage_fee_trade_size_threshold M pool,
           dfi_imbalance_fee_base_tenths_of_bp = imbalance_fee_base_tenths_of_bp M pool,
           dfi_imbalance_fee_x = imbalance_fee_x M pool\<rparr>)))))))))"

definition compute_trade_fee_rate ::
  "'x clmm_lib \<Rightarrow> 'x ClmmVenue \<Rightarrow> bool \<Rightarrow> u64 \<Rightarrow> i64 \<Rightarrow> u32 any_result" where
  "compute_trade_fee_rate L v zero_for_one amount_specified current_timestamp =
     dynamic_fee_rate L v zero_for_one amount_specified current_timestamp"

subsection \<open>The swap loop\<close>

definition swap_target_price :: "bool \<Rightarrow> u128 \<Rightarrow> u128 \<Rightarrow> u128" where
  "swap_target_price zero_for_one sqrt_price_next sqrt_price_limit =
     (if (zero_for_one \<and> sqrt_price_next < sqrt_price_limit) \<or> (\<not> zero_for_one \<and> sqrt_price_limit < sqrt_price_next)
      then sqrt_price_limit else sqrt_price_next)"

text \<open>The bookkeeping of one step on the amounts.\<close>

definition apply_step :: "SwapStep \<Rightarrow> SwapState \<Rightarrow> SwapState any_result" where
  "apply_step step state =
     and_then (ok_or (checked_add (ss_fee_amount state) (step_fee_amount step))
                ''compute_swap: fee_amount overflow'') (\<lambda>fee_amount.
     and_then (ok_or (checked_add (step_amount_in step) (step_fee_amount step))
                ''compute_swap: step.amount_in + fee_amount overflow'') (\<lambda>step_amount_in_with_fee.
     and_then (ok_or (checked_sub (ss_amount_specified_remaining state) step_amount_in_with_fee)
                ''compute_swap: step.amount_in + fee_amount exceeds remaining'') (\<lambda>remaining.
     and_then (ok_or (checked_add (ss_amount_calculated state) (step_amount_out step))
                ''compute_swap: amount_calculated overflow when adding amount_out'') (\<lambda>calculated.
       Ok (state\<lparr>ss_sqrt_price_x64 := step_sqrt_price_next_x64 step, ss_fee_amount := fee_amount,
                 ss_amount_specified_remaining := remaining, ss_amount_calculated := calculated\<rparr>)))))"

text \<open>Crossing the tick the step reached, or finding the tick of the price it stopped at.\<close>

definition cross_tick ::
  "'x clmm_lib \<Rightarrow> 'x ClmmVenue \<Rightarrow> bool \<Rightarrow> i32 \<Rightarrow> u128 \<Rightarrow> SwapState \<Rightarrow> SwapState any_result" where
  "cross_tick L v zero_for_one next_tick sqrt_price_next state =
     (if ss_sqrt_price_x64 state = sqrt_price_next
      then and_then (get_tick_liquidity_net L v next_tick) (\<lambda>found.
           and_then (ok_or found (''Missing tick array data for tick '' @ show_int next_tick)) (\<lambda>net.
             let liq_net = (if zero_for_one then wrap_i128 (- net) else net) in
           and_then (map_err (\<lambda>e. ''Failed to adjust liquidity at tick '' @ show_int next_tick @ '': '' @ e)
                      (add_delta (lib_math L) (ss_liquidity state) liq_net)) (\<lambda>liquidity.
             Ok (state\<lparr>ss_liquidity := liquidity,
                       ss_tick := if zero_for_one then wrap_i32 (next_tick - 1) else next_tick\<rparr>))))
      else and_then (map_err (\<lambda>e. ''Failed to get tick at sqrt price: '' @ e)
                       (get_tick_at_sqrt_price (lib_math L) (ss_sqrt_price_x64 state))) (\<lambda>tick.
             Ok (state\<lparr>ss_tick := tick\<rparr>)))"

definition swap_step ::
  "'x clmm_lib \<Rightarrow> 'x ClmmVenue \<Rightarrow> u32 \<Rightarrow> u128 \<Rightarrow> bool \<Rightarrow> i64 \<Rightarrow> SwapState \<times> TickNavState
   \<Rightarrow> (SwapState + SwapState \<times> TickNavState) any_result" where
  "swap_step L v fee_rate sqrt_price_limit zero_for_one current_timestamp = (\<lambda>(state, nav).
     if \<not> (ss_amount_specified_remaining state \<noteq> 0 \<and> ss_sqrt_price_x64 state \<noteq> sqrt_price_limit)
     then Ok (Inl state)
     else
     and_then (find_next_initialized_tick_with_nav L v (ss_tick state) zero_for_one nav) (\<lambda>(next_tick, nav1).
     and_then (map_err (\<lambda>e. ''Failed to get sqrt price at tick '' @ show_int next_tick @ '': '' @ e)
                (get_sqrt_price_at_tick (lib_math L) next_tick)) (\<lambda>sqrt_price_next.
     and_then (map_err (\<lambda>e. ''Swap step computation failed: '' @ e)
                (compute_swap_step (lib_math L) (ss_sqrt_price_x64 state)
                   (swap_target_price zero_for_one sqrt_price_next sqrt_price_limit)
                   (ss_liquidity state) (ss_amount_specified_remaining state) fee_rate True zero_for_one
                   (word_of_int current_timestamp))) (\<lambda>step.
     and_then (apply_step step state) (\<lambda>state1.
     and_then (cross_tick L v zero_for_one next_tick sqrt_price_next state1) (\<lambda>state2.
       Ok (Inr (state2, nav1))))))))"

definition simulate_swap_steps ::
  "'x clmm_lib \<Rightarrow> 'x ClmmVenue \<Rightarrow> u32 \<Rightarrow> u64 \<Rightarrow> u128 \<Rightarrow> bool \<Rightarrow> i64 \<Rightarrow> SwapState any_result" where
  "simulate_swap_steps L v fee_rate amount_specified sqrt_price_limit zero_for_one current_timestamp =
     (let state = \<lparr>ss_amount_specified_remaining = amount_specified, ss_amount_calculated = 0,
                   ss_sqrt_price_x64 = pool_sqrt_price_x64 (cv_pool_state v),
                   ss_tick = pool_tick_current (cv_pool_state v),
                   ss_liquidity = pool_liquidity (cv_pool_state v), ss_fee_amount = 0\<rparr>
      in and_then (init_tick_nav_state L v zero_for_one) (\<lambda>nav.
           run_loop (swap_step L v fee_rate sqrt_price_limit zero_for_one current_timestamp) (state, nav)))"

definition run_swap ::
  "'x clmm_lib \<Rightarrow> 'x ClmmVenue \<Rightarrow> bool \<Rightarrow> u64 \<Rightarrow> u128 \<Rightarrow> i64 \<Rightarrow> (SwapState \<times> u32) any_result" where
  "run_swap L v zero_for_one amount_specified sqrt_price_limit current_timestamp =
     and_then (compute_trade_fee_rate L v zero_for_one amount_specified current_timestamp) (\<lambda>final_fee.
     and_then (simulate_swap_steps L v final_fee amount_specified sqrt_price_limit zero_for_one current_timestamp)
       (\<lambda>state. Ok (state, final_fee)))"

definition compute_swap ::
  "'x clmm_lib \<Rightarrow> 'x ClmmVenue \<Rightarrow> bool \<Rightarrow> u64 \<Rightarrow> u128 option \<Rightarrow> i64 \<Rightarrow> SwapResult any_result" where
  "compute_swap L v zero_for_one amount_specified sqrt_price_limit_x64 current_timestamp =
     (let sqrt_price_limit = (case sqrt_price_limit_x64 of Some p \<Rightarrow> p | None \<Rightarrow>
            if zero_for_one then MIN_SQRT_PRICE_X64 (lib_math L) + 1 else MAX_SQRT_PRICE_X64 (lib_math L) - 1)
      in and_then (run_swap L v zero_for_one amount_specified sqrt_price_limit current_timestamp) (\<lambda>(state, fee_rate).
         and_then (ok_or (checked_sub amount_specified (ss_amount_specified_remaining state))
                    ''compute_swap: raw input underflow'') (\<lambda>amount_in.
           Ok \<lparr>sw_amount_in = amount_in, sw_amount_out = ss_amount_calculated state,
               sw_sqrt_price_x64 = ss_sqrt_price_x64 state, sw_fee_rate = fee_rate\<rparr>)))"

subsection \<open>Prices\<close>

definition marginal_price_from_swap_state ::
  "'x clmm_lib \<Rightarrow> bool \<Rightarrow> u128 \<Rightarrow> u32 \<Rightarrow> f64 any_result" where
  "marginal_price_from_swap_state L zero_for_one sqrt_price_x64 fee_rate =
     and_then (price_from_sqrt_price_x64 (lib_math L) sqrt_price_x64) (\<lambda>price_x64.
       let pool_price = f64_div (f64_of_word price_x64) (f64_of_word (Q64 (lib_math L)));
           fee_multiplier = f64_div (f64_of_word (FEE_RATE_DENOMINATOR_VALUE (lib_math L) - fee_rate))
                              (f64_of_word (FEE_RATE_DENOMINATOR_VALUE (lib_math L)))
       in if zero_for_one then Ok (f64_mul pool_price fee_multiplier) else Ok (f64_div fee_multiplier pool_price))"

definition input_token_unit :: "'x ClmmVenue \<Rightarrow> bool \<Rightarrow> u64 option" where
  "input_token_unit v zero_for_one =
     (let decimals = (if zero_for_one then pool_mint_decimals_0 (cv_pool_state v)
                      else pool_mint_decimals_1 (cv_pool_state v));
          unit = (10 :: nat) ^ unat decimals
      in if unit < 2 ^ 64 then Some (word_of_nat unit) else None)"

definition dynamic_fee_price_step :: "'x ClmmVenue \<Rightarrow> bool \<Rightarrow> u64 \<Rightarrow> u64 option" where
  "dynamic_fee_price_step v zero_for_one amount =
     Option.bind (input_token_unit v zero_for_one) (\<lambda>input_unit.
       if amount < input_unit div 10 then None
       else let step = min (max (amount div 1000) (input_unit div 10)) amount
            in if 0 < step then Some step else None)"

definition actual_curve_price ::
  "'x clmm_lib \<Rightarrow> 'x ClmmVenue \<Rightarrow> bool \<Rightarrow> u64 \<Rightarrow> SwapResult \<Rightarrow> f64 \<Rightarrow> i64 \<Rightarrow> u64 option \<Rightarrow> f64 any_result" where
  "actual_curve_price L v zero_for_one amount swap constant_fee_price current_timestamp upper_bound =
     (if \<not> venue_dynamic_fee_enabled L v then Ok constant_fee_price
      else case dynamic_fee_price_step v zero_for_one amount of
        None \<Rightarrow> Ok constant_fee_price
      | Some step \<Rightarrow>
          and_then (compute_swap L v zero_for_one (amount - step) None current_timestamp) (\<lambda>previous_swap.
            if sw_amount_out swap \<le> sw_amount_out previous_swap then Ok constant_fee_price
            else
              let realized_price = f64_div (f64_of_word (sw_amount_out swap - sw_amount_out previous_swap)) (f64_of_word step);
                  upper_price = (if f64_is_finite realized_price \<and> f64_lt (Fin 0) realized_price
                                 then f64_min constant_fee_price realized_price else constant_fee_price)
              in case upper_bound of
                   None \<Rightarrow> Ok upper_price
                 | Some ub \<Rightarrow>
                     if ub \<le> amount then Ok upper_price
                     else
                       let next_step = min step (ub - amount) in
                       and_then (compute_swap L v zero_for_one (amount + next_step) None current_timestamp) (\<lambda>next_swap.
                         if sw_amount_out next_swap \<le> sw_amount_out swap then Ok upper_price
                         else
                           let lower_price = f64_div (f64_of_word (sw_amount_out next_swap - sw_amount_out swap))
                                               (f64_of_word next_step)
                           in if \<not> f64_is_finite lower_price \<or> f64_le lower_price (Fin 0) then Ok upper_price
                              else if f64_le lower_price upper_price
                              then f64_clamp constant_fee_price lower_price upper_price
                              else Ok (f64_max constant_fee_price lower_price))))"

subsection \<open>Quotes\<close>

definition validate_mints :: "'x ClmmVenue \<Rightarrow> pubkey \<Rightarrow> pubkey \<Rightarrow> (bool \<times> bool) venue_result" where
  "validate_mints v input output =
     (let input_is_0 = (input = fst (cv_reserve_mints v)); input_is_1 = (input = snd (cv_reserve_mints v));
          output_is_0 = (output = fst (cv_reserve_mints v)); output_is_1 = (output = snd (cv_reserve_mints v))
      in if \<not> input_is_0 \<and> \<not> input_is_1 then Err (InvalidMint (EI_StaticStr ''input mint not part of pool''))
         else if \<not> output_is_0 \<and> \<not> output_is_1 then Err (InvalidMint (EI_StaticStr ''output mint not part of pool''))
         else if input = output then Err (InvalidMint (EI_StaticStr ''input/output mint must differ''))
         else Ok (input_is_0, output_is_0))"

definition ensure_swap_status_enabled :: "'x clmm_lib \<Rightarrow> 'x ClmmVenue \<Rightarrow> unit venue_result" where
  "ensure_swap_status_enabled L v =
     (if status_swap_enabled (lib_pool L) (cv_pool_state v) then Ok ()
      else Err (InactivePoolError (cv_market_id v) ByrealClmm))"

definition MISSING_CLOCK :: string where
  "MISSING_CLOCK = ''missing clock; call update_state() with sysvar clock''"

definition POOL_NOT_OPEN :: string where
  "POOL_NOT_OPEN = ''pool is not open yet''"

text \<open>The readiness checks of a quote, lines 1290 to 1322.\<close>

definition check_quote_ready :: "'x clmm_lib \<Rightarrow> 'x ClmmVenue \<Rightarrow> unit venue_result" where
  "check_quote_ready L v =
     (if cv_current_unix_timestamp v \<le> 0 then Err (MissingState (EI_StaticStr MISSING_CLOCK))
      else if (word_of_int (cv_current_unix_timestamp v) :: u64) \<le> pool_open_time (cv_pool_state v)
      then Err (MissingState (EI_StaticStr POOL_NOT_OPEN))
      else and_then (ensure_swap_status_enabled L v) (\<lambda>_.
        if cv_amm_config v = None
        then Err (MissingState (EI_StaticStr ''amm config missing; call update_state()''))
        else and_then
          (if venue_dynamic_fee_enabled L v
           then if cv_token0_program_id v = ZERO_PUBKEY \<or> cv_token1_program_id v = ZERO_PUBKEY
                then Err (MissingState (EI_StaticStr
                       ''dynamic fee vault accounts missing; call update_state() with required accounts''))
                else map_err (\<lambda>e. MissingState (EI_String (''dynamic pyth state invalid: '' @ e)))
                       (and_then (load_dynamic_pyth_prices v) (\<lambda>_. Ok ()))
           else Ok ()) (\<lambda>_.
          if cv_dynamic_tick_arrays v = []
          then Err (MissingState (EI_StaticStr
                 ''tick arrays missing; call update_state() with required tick accounts''))
          else Ok ())))"

text \<open>How a failed simulation is reported.\<close>

definition classify_swap_error :: "string \<Rightarrow> CoreQuoteResult venue_result" where
  "classify_swap_error msg =
     (if contains msg ''Liquidity insufficient''
      then Ok \<lparr>cq_in_amount = 0, cq_out_amount = 0, cq_not_enough_liquidity = True, cq_price = Fin 0\<rparr>
      else if contains msg ''dynamic fee'' \<or> contains msg ''pyth'' \<or> contains msg ''vault''
      then Err (MissingState (EI_String (''compute_swap failed: '' @ msg)))
      else Err (MathError (EI_String (''compute_swap failed: '' @ msg))))"

definition math_error :: "string \<Rightarrow> string \<Rightarrow> TradingVenueError" where
  "math_error what e = MathError (EI_String (what @ '' failed: '' @ e))"

definition quote_with_price_upper_bound ::
  "'x clmm_lib \<Rightarrow> 'x ClmmVenue \<Rightarrow> QuoteRequest \<Rightarrow> u64 option \<Rightarrow> CoreQuoteResult venue_result" where
  "quote_with_price_upper_bound L v request upper_bound =
     and_then (validate_mints v (req_input_mint request) (req_output_mint request)) (\<lambda>(zero_for_one, _).
     and_then (check_quote_ready L v) (\<lambda>_.
       let now = cv_current_unix_timestamp v in
       if req_amount request = 0
       then
         and_then (map_err (math_error ''spot price fee calculation'')
                    (compute_trade_fee_rate L v zero_for_one 0 now)) (\<lambda>fee_rate.
         and_then (map_err (math_error ''spot price calculation'')
                    (marginal_price_from_swap_state L zero_for_one (pool_sqrt_price_x64 (cv_pool_state v)) fee_rate))
           (\<lambda>price. Ok \<lparr>cq_in_amount = 0, cq_out_amount = 0, cq_not_enough_liquidity = False, cq_price = price\<rparr>))
       else
         (case compute_swap L v zero_for_one (req_amount request) None now of
            Err msg \<Rightarrow> classify_swap_error msg
          | Panic \<Rightarrow> Panic
          | Diverge \<Rightarrow> Diverge
          | Ok swap \<Rightarrow>
              and_then (map_err (math_error ''marginal price calculation'')
                         (marginal_price_from_swap_state L zero_for_one (sw_sqrt_price_x64 swap) (sw_fee_rate swap)))
                (\<lambda>constant_fee_price.
              and_then (map_err (math_error ''actual curve price calculation'')
                         (actual_curve_price L v zero_for_one (req_amount request) swap constant_fee_price now upper_bound))
                (\<lambda>price.
                Ok \<lparr>cq_in_amount = sw_amount_in swap, cq_out_amount = sw_amount_out swap,
                    cq_not_enough_liquidity = sw_amount_in swap < req_amount request, cq_price = price\<rparr>)))))"

definition core_quote :: "'x clmm_lib \<Rightarrow> 'x ClmmVenue \<Rightarrow> QuoteRequest \<Rightarrow> CoreQuoteResult venue_result" where
  "core_quote L v request = quote_with_price_upper_bound L v request None"

end
