(* ===== verification/Clmm_State.thy ===== *)
theory Clmm_State
  imports Clmm_Swap
begin

text \<open>
  The state of the CLMM venue in \<open>src/byreal_clmm/core.rs\<close>: construction from the pool account, the
  accounts an update needs, \<open>update_state\<close>, and the swap instruction.  \<open>update_state\<close> mutates the venue
  step by step and may fail in between, so its model returns the state reached together with the
  outcome.
\<close>

type_synonym account_map = "pubkey \<rightharpoonup> account"

definition decode_failed :: "string \<Rightarrow> string \<Rightarrow> TradingVenueError" where
  "decode_failed what e = DeserializationFailed (EI_String (''decode '' @ what @ '' failed: '' @ e))"

definition from_pool_state_account ::
  "'x clmm_lib \<Rightarrow> pubkey \<Rightarrow> pubkey \<Rightarrow> bytes \<Rightarrow> 'x ClmmVenue venue_result" where
  "from_pool_state_account L market_id owner pool_state_data =
     and_then (map_err (decode_failed ''PoolState'') (decode_PoolState (lib_codec L) pool_state_data)) (\<lambda>pool_state.
       Ok \<lparr>cv_market_id = market_id, cv_program_id = owner,
           cv_reserve_mints = (pool_token_mint_0 pool_state, pool_token_mint_1 pool_state),
           cv_pool_state = pool_state, cv_amm_config = None, cv_bitmap_extension = None,
           cv_dynamic_tick_arrays = [], cv_token0_vault_amount = 0, cv_token1_vault_amount = 0,
           cv_token0_program_id = ZERO_PUBKEY, cv_token1_program_id = ZERO_PUBKEY,
           cv_token0_pyth_oracle_data = None, cv_token1_pyth_oracle_data = None,
           cv_max_one_side_tick_arrays = 6, cv_current_unix_timestamp = 0\<rparr>)"

definition token_mints :: "'x ClmmVenue \<Rightarrow> pubkey list" where
  "token_mints v = [pool_token_mint_0 (cv_pool_state v), pool_token_mint_1 (cv_pool_state v)]"

definition mint_decimals :: "'x ClmmVenue \<Rightarrow> u8 list" where
  "mint_decimals v = [pool_mint_decimals_0 (cv_pool_state v), pool_mint_decimals_1 (cv_pool_state v)]"

subsection \<open>The accounts of an update\<close>

definition dynamic_fee_accounts :: "'x clmm_lib \<Rightarrow> 'x ClmmVenue \<Rightarrow> pubkey list" where
  "dynamic_fee_accounts L v =
     (if venue_dynamic_fee_enabled L v
      then [pool_token_vault_0 (cv_pool_state v), pool_token_vault_1 (cv_pool_state v)]
           @ (case token0_pyth_oracle_pubkey L v of Some k \<Rightarrow> [k] | None \<Rightarrow> [])
           @ (case token1_pyth_oracle_pubkey L v of Some k \<Rightarrow> [k] | None \<Rightarrow> [])
      else [])"

definition accounts_to_update :: "'x clmm_lib \<Rightarrow> 'x ClmmVenue \<Rightarrow> pubkey list" where
  "accounts_to_update L v =
     [cv_market_id v, pool_amm_config (cv_pool_state v), pool_token_mint_0 (cv_pool_state v),
      pool_token_mint_1 (cv_pool_state v), tick_array_bitmap_extension_key L v]
     @ get_all_tick_array_addresses L v @ dynamic_fee_accounts L v @ [clock_id (lib_codec L)]"

definition base_accounts_to_update :: "'x clmm_lib \<Rightarrow> 'x ClmmVenue \<Rightarrow> pubkey list" where
  "base_accounts_to_update L v =
     [cv_market_id v, pool_amm_config (cv_pool_state v), pool_token_mint_0 (cv_pool_state v),
      pool_token_mint_1 (cv_pool_state v), tick_array_bitmap_extension_key L v, clock_id (lib_codec L)]
     @ dynamic_fee_accounts L v"

subsection \<open>update_state\<close>

definition load_clock :: "'x clmm_lib \<Rightarrow> account_map \<Rightarrow> 'x ClmmVenue \<Rightarrow> 'x ClmmVenue \<times> unit venue_result" where
  "load_clock L accounts v =
     (case accounts (clock_id (lib_codec L)) of
        None \<Rightarrow> (v, Err (MissingState (EI_StaticStr ''missing sysvar clock'')))
      | Some acc \<Rightarrow>
          st_then (v, map_err (decode_failed ''sysvar clock'') (decode_Clock_unix_timestamp (lib_codec L) (acc_data acc)))
            (\<lambda>v t. (v\<lparr>cv_current_unix_timestamp := t\<rparr>, Ok ())))"

definition decode_vault_amount :: "'x clmm_lib \<Rightarrow> pubkey \<Rightarrow> bytes \<Rightarrow> string \<Rightarrow> u64 venue_result" where
  "decode_vault_amount L vault_owner vault_data vault_name =
     (if vault_owner = token_program_id (lib_spl (lib_codec L))
      then map_err (decode_failed vault_name) (unpack_token_amount (lib_codec L) vault_data)
      else if vault_owner = token_2022_program_id (lib_spl (lib_codec L))
      then map_err (decode_failed vault_name) (unpack_token_2022_amount (lib_codec L) vault_data)
      else Err (decode_failed vault_name
             (''unsupported token program owner '' @ show_pubkey (lib_codec L) vault_owner)))"

definition decode_pyth_price :: "'x clmm_lib \<Rightarrow> bytes \<Rightarrow> bytes \<Rightarrow> Price venue_result" where
  "decode_pyth_price L account_data expected_feed_id =
     and_then (map_err (decode_failed ''pyth oracle'') (decode_PriceUpdateV2 (lib_codec L) account_data)) (\<lambda>update.
       map_err (\<lambda>_. MissingState (EI_StaticStr ''pyth feed id mismatch''))
         (get_price_unchecked (lib_codec L) update expected_feed_id))"

definition update_pool :: "'x clmm_lib \<Rightarrow> account_map \<Rightarrow> 'x ClmmVenue \<Rightarrow> 'x ClmmVenue \<times> unit venue_result" where
  "update_pool L accounts v =
     (case accounts (cv_market_id v) of
        None \<Rightarrow> (v, Ok ())
      | Some pool_acc \<Rightarrow>
          if acc_owner pool_acc \<noteq> cv_program_id v
          then (v, Err (UnsupportedVenue (EI_String
                 (''Byreal CLMM pool owner must remain '' @ show_pubkey (lib_codec L) (cv_program_id v)
                  @ '', got '' @ show_pubkey (lib_codec L) (acc_owner pool_acc)))))
          else st_then (v, map_err (decode_failed ''PoolState'') (decode_PoolState (lib_codec L) (acc_data pool_acc)))
                 (\<lambda>v pool_state.
                   (v\<lparr>cv_pool_state := pool_state,
                      cv_reserve_mints := (pool_token_mint_0 pool_state, pool_token_mint_1 pool_state)\<rparr>, Ok ())))"

definition update_amm_config :: "'x clmm_lib \<Rightarrow> account_map \<Rightarrow> 'x ClmmVenue \<Rightarrow> 'x ClmmVenue \<times> unit venue_result" where
  "update_amm_config L accounts v =
     (case accounts (pool_amm_config (cv_pool_state v)) of
        None \<Rightarrow> (v\<lparr>cv_amm_config := None\<rparr>, Ok ())
      | Some amm_acc \<Rightarrow>
          st_then (v, map_err (decode_failed ''AmmConfig'') (decode_AmmConfig (lib_codec L) (acc_data amm_acc)))
            (\<lambda>v cfg. (v\<lparr>cv_amm_config := Some cfg\<rparr>, Ok ())))"

definition update_vaults :: "'x clmm_lib \<Rightarrow> account_map \<Rightarrow> 'x ClmmVenue \<Rightarrow> 'x ClmmVenue \<times> unit venue_result" where
  "update_vaults L accounts v =
     st_then
       (case accounts (pool_token_vault_0 (cv_pool_state v)) of
          None \<Rightarrow> (v\<lparr>cv_token0_vault_amount := 0, cv_token0_program_id := ZERO_PUBKEY\<rparr>, Ok ())
        | Some acc \<Rightarrow>
            st_then (v, decode_vault_amount L (acc_owner acc) (acc_data acc) ''token0 vault'') (\<lambda>v amt.
              (v\<lparr>cv_token0_vault_amount := amt, cv_token0_program_id := acc_owner acc\<rparr>, Ok ())))
       (\<lambda>v _.
        case accounts (pool_token_vault_1 (cv_pool_state v)) of
          None \<Rightarrow> (v\<lparr>cv_token1_vault_amount := 0, cv_token1_program_id := ZERO_PUBKEY\<rparr>, Ok ())
        | Some acc \<Rightarrow>
            st_then (v, decode_vault_amount L (acc_owner acc) (acc_data acc) ''token1 vault'') (\<lambda>v amt.
              (v\<lparr>cv_token1_vault_amount := amt, cv_token1_program_id := acc_owner acc\<rparr>, Ok ())))"

definition load_oracle ::
  "'x clmm_lib \<Rightarrow> account_map \<Rightarrow> string \<Rightarrow> pubkey \<Rightarrow> bytes \<Rightarrow> Price venue_result" where
  "load_oracle L accounts name key feed_id =
     (case accounts key of
        None \<Rightarrow> Err (MissingState (EI_StaticStr
          (''missing '' @ name @ '' pyth oracle; call update_state() with required accounts'')))
      | Some acc \<Rightarrow>
          if acc_owner acc \<noteq> pyth_receiver_id (lib_codec L)
          then Err (MissingState (EI_StaticStr (name @ '' pyth oracle owner mismatch'')))
          else decode_pyth_price L (acc_data acc) feed_id)"

definition update_oracles :: "'x clmm_lib \<Rightarrow> account_map \<Rightarrow> 'x ClmmVenue \<Rightarrow> 'x ClmmVenue \<times> unit venue_result" where
  "update_oracles L accounts v =
     (if venue_dynamic_fee_enabled L v
      then if cv_token0_program_id v = ZERO_PUBKEY \<or> cv_token1_program_id v = ZERO_PUBKEY
           then (v, Err (MissingState (EI_StaticStr
                  ''missing dynamic fee vault accounts; call update_state() with required accounts'')))
           else case token0_pyth_oracle_pubkey L v of
             None \<Rightarrow> (v, Err (MissingState (EI_StaticStr ''token0 pyth feed id is not configured'')))
           | Some pyth0_key \<Rightarrow>
               (case token1_pyth_oracle_pubkey L v of
                  None \<Rightarrow> (v, Err (MissingState (EI_StaticStr ''token1 pyth feed id is not configured'')))
                | Some pyth1_key \<Rightarrow>
                    st_then (v, load_oracle L accounts ''token0'' pyth0_key (pool_token0_pyth_feed_id (cv_pool_state v)))
                      (\<lambda>v pyth0.
                    st_then (v\<lparr>cv_token0_pyth_oracle_data := Some pyth0\<rparr>,
                             load_oracle L accounts ''token1'' pyth1_key (pool_token1_pyth_feed_id (cv_pool_state v)))
                      (\<lambda>v pyth1. (v\<lparr>cv_token1_pyth_oracle_data := Some pyth1\<rparr>, Ok ()))))
      else (v\<lparr>cv_token0_pyth_oracle_data := None, cv_token1_pyth_oracle_data := None\<rparr>, Ok ()))"

definition update_bitmap_extension :: "'x clmm_lib \<Rightarrow> account_map \<Rightarrow> 'x ClmmVenue \<Rightarrow> 'x ClmmVenue \<times> unit venue_result" where
  "update_bitmap_extension L accounts v =
     (case accounts (tick_array_bitmap_extension_key L v) of
        None \<Rightarrow> (v\<lparr>cv_bitmap_extension := None\<rparr>, Ok ())
      | Some acc \<Rightarrow>
          st_then (v, result_ok (decode_TickArrayBitmapExtension (lib_codec L) (acc_data acc)))
            (\<lambda>v ext. (v\<lparr>cv_bitmap_extension := ext\<rparr>, Ok ())))"

text \<open>\<open>HashMap::insert\<close>.\<close>

fun map_insert :: "'k \<Rightarrow> 'v \<Rightarrow> ('k \<times> 'v) list \<Rightarrow> ('k \<times> 'v) list" where
  "map_insert k x [] = [(k, x)]"
| "map_insert k x ((k', y) # rest) = (if k = k' then (k, x) # rest else (k', y) # map_insert k x rest)"

fun load_tick_arrays ::
  "'x clmm_lib \<Rightarrow> account_map \<Rightarrow> pubkey list \<Rightarrow> (pubkey \<times> 'x DynamicTickArrayState) list
   \<Rightarrow> (pubkey \<times> 'x DynamicTickArrayState) list" where
  "load_tick_arrays L accounts [] arrays = arrays"
| "load_tick_arrays L accounts (tick_key # keys) arrays =
     load_tick_arrays L accounts keys
       (case accounts tick_key of
          None \<Rightarrow> arrays
        | Some acc \<Rightarrow>
            (case tick_array_from_account_data (lib_tick L) (acc_data acc) of
               None \<Rightarrow> arrays
             | Some parsed \<Rightarrow> map_insert tick_key parsed arrays))"

definition update_tick_arrays :: "'x clmm_lib \<Rightarrow> account_map \<Rightarrow> 'x ClmmVenue \<Rightarrow> 'x ClmmVenue \<times> unit venue_result" where
  "update_tick_arrays L accounts v =
     (v\<lparr>cv_dynamic_tick_arrays := load_tick_arrays L accounts (get_all_tick_array_addresses L v) []\<rparr>, Ok ())"

definition core_update_state :: "'x clmm_lib \<Rightarrow> account_map \<Rightarrow> 'x ClmmVenue \<Rightarrow> 'x ClmmVenue \<times> unit venue_result" where
  "core_update_state L accounts v =
     st_then (load_clock L accounts v) (\<lambda>v _.
     st_then (update_pool L accounts v) (\<lambda>v _.
     st_then (update_amm_config L accounts v) (\<lambda>v _.
     st_then (update_vaults L accounts v) (\<lambda>v _.
     st_then (update_oracles L accounts v) (\<lambda>v _.
     st_then (update_bitmap_extension L accounts v) (\<lambda>v _.
       update_tick_arrays L accounts v))))))"

subsection \<open>The swap instruction\<close>

text \<open>The accounts before the tick arrays, with the vaults and mints in the direction of the swap.\<close>

definition swap_base_accounts :: "'x clmm_lib \<Rightarrow> 'x ClmmVenue \<Rightarrow> SwapBuildRequest \<Rightarrow> bool \<Rightarrow> account_meta list" where
  "swap_base_accounts L v request zero_for_one =
     (let pool = cv_pool_state v; S = lib_spl (lib_codec L);
          (input_vault, output_vault, input_vault_mint, output_vault_mint) =
            (if zero_for_one
             then (pool_token_vault_0 pool, pool_token_vault_1 pool, pool_token_mint_0 pool, pool_token_mint_1 pool)
             else (pool_token_vault_1 pool, pool_token_vault_0 pool, pool_token_mint_1 pool, pool_token_mint_0 pool))
      in [meta_new_readonly (sb_user_authority request) True,
          meta_new_readonly (pool_amm_config pool) False,
          meta_new (cv_market_id v) False,
          meta_new (sb_source_token_account request) False,
          meta_new (sb_destination_token_account request) False,
          meta_new input_vault False,
          meta_new output_vault False,
          meta_new (pool_observation_key pool) False,
          meta_new_readonly (token_program_id S) False,
          meta_new_readonly (token_2022_program_id S) False,
          meta_new_readonly (spl_memo_id (lib_codec L)) False,
          meta_new_readonly input_vault_mint False,
          meta_new_readonly output_vault_mint False,
          meta_new_readonly (tick_array_bitmap_extension_key L v) False])"

definition swap_pyth_accounts :: "'x clmm_lib \<Rightarrow> 'x ClmmVenue \<Rightarrow> account_meta list venue_result" where
  "swap_pyth_accounts L v =
     (if venue_dynamic_fee_enabled L v
      then and_then (ok_or (token0_pyth_oracle_pubkey L v)
             (MissingState (EI_StaticStr ''token0 pyth feed id is not configured''))) (\<lambda>token0_pyth.
           and_then (ok_or (token1_pyth_oracle_pubkey L v)
             (MissingState (EI_StaticStr ''token1 pyth feed id is not configured''))) (\<lambda>token1_pyth.
             Ok [meta_new_readonly token0_pyth False, meta_new_readonly token1_pyth False]))
      else Ok [])"

definition build_swap_instruction ::
  "'x clmm_lib \<Rightarrow> 'x ClmmVenue \<Rightarrow> SwapBuildRequest \<Rightarrow> instruction venue_result" where
  "build_swap_instruction L v request =
     (if cv_current_unix_timestamp v \<le> 0 then Err (MissingState (EI_StaticStr MISSING_CLOCK))
      else if (word_of_int (cv_current_unix_timestamp v) :: u64) \<le> pool_open_time (cv_pool_state v)
      then Err (MissingState (EI_StaticStr POOL_NOT_OPEN))
      else and_then (ensure_swap_status_enabled L v) (\<lambda>_.
           and_then (validate_mints v (sb_source_mint request) (sb_destination_mint request)) (\<lambda>(zero_for_one, _).
           and_then (live_directional_tick_arrays L v zero_for_one) (\<lambda>live.
           and_then (swap_pyth_accounts L v) (\<lambda>pyth.
             Ok \<lparr>ix_program_id = cv_program_id v,
                 ix_accounts = swap_base_accounts L v request zero_for_one @ map (\<lambda>k. meta_new k False) live @ pyth,
                 ix_data = SwapV3Dyn_data (lib_codec L) (sb_amount request) (sb_other_amount_threshold request) 0 True\<rparr>)))))"

end
