(* ===== verification/Bounds.thy ===== *)
theory Bounds
  imports Venue_Types
begin

text \<open>
  The boundary search of \<open>src/trading_venue/bounds.rs\<close>: an exponential search for the first quotable
  power of two and for the end of the quotable range, then two bisections.  The quoting closure is an
  argument \<open>f\<close>; \<open>probe f x\<close> is what every loop asks of it.  The bisections are
  \<open>partial_function\<close>s because with \<open>low > high\<close> (which the caller never passes) the release build
  would loop forever; \<open>lower.returns\<close> and \<open>upper.returns\<close> show that they return
  otherwise.  The locale \<open>bisection\<close> states what the two bisections share.
\<close>

subsection \<open>Definitions\<close>

definition SCALING_FACTOR :: u64 where
  "SCALING_FACTOR = 2"

definition valid_quote :: "QuoteResult \<Rightarrow> bool" where
  "valid_quote q \<longleftrightarrow> \<not> (res_not_enough_liquidity q \<or> res_expected_output q = 0)"

type_synonym quote_fn = "u64 \<Rightarrow> QuoteResult venue_result"

text \<open>The \<open>match f(x)\<close> of the loops: errors count as invalid, a panic propagates.\<close>

definition probe :: "quote_fn \<Rightarrow> u64 \<Rightarrow> bool venue_result" where
  "probe f x =
     (case f x of
        Ok q \<Rightarrow> Ok (valid_quote q)
      | Err _ \<Rightarrow> Ok False
      | Panic \<Rightarrow> Panic
      | Diverge \<Rightarrow> Diverge)"

definition U64_MAX :: u64 where
  "U64_MAX = - 1"

text \<open>Phase 1 of the coarse search: double until a valid quote is found.\<close>

function coarse_lower :: "quote_fn \<Rightarrow> u64 \<Rightarrow> u64 \<Rightarrow> (u64 \<times> u64) venue_result" where
  "coarse_lower f lower_low lower_high =
     and_then (probe f lower_high) (\<lambda>ok.
       if ok then Ok (lower_low, lower_high)
       else
         let low = lower_high;
             high = saturating_mul lower_high SCALING_FACTOR
         in if high \<le> low \<or> high = U64_MAX then Ok (low, U64_MAX)
            else coarse_lower f low high)"
  by pat_completeness auto
termination
  by (relation "measure (\<lambda>(f, l, h). 2 ^ 64 - unat h)")
    (auto simp: not_le intro: u64_gap_decreases)

text \<open>Phase 2: double until the quotes become invalid again.\<close>

function coarse_upper :: "quote_fn \<Rightarrow> u64 \<Rightarrow> u64 \<Rightarrow> (u64 \<times> u64) venue_result" where
  "coarse_upper f upper_low upper_high =
     and_then (probe f upper_high) (\<lambda>ok.
       if \<not> ok then Ok (upper_low, upper_high)
       else
         let low = upper_high;
             high = saturating_mul upper_high SCALING_FACTOR
         in if high \<le> low \<or> high = U64_MAX then Ok (low, U64_MAX)
            else coarse_upper f low high)"
  by pat_completeness auto
termination
  by (relation "measure (\<lambda>(f, l, h). 2 ^ 64 - unat h)")
    (auto simp: not_le intro: u64_gap_decreases)

declare coarse_lower.simps [simp del] coarse_upper.simps [simp del]

definition find_boundaries_coarse :: "quote_fn \<Rightarrow> (u64 \<times> u64 \<times> u64 \<times> u64) venue_result" where
  "find_boundaries_coarse f =
     and_then (coarse_lower f 0 1) (\<lambda>(lower_low, lower_high).
       let upper_low = lower_high;
           upper_high = saturating_mul upper_low SCALING_FACTOR
       in if upper_high \<le> upper_low
          then Ok (lower_low, lower_high, upper_low, upper_low)
          else and_then (coarse_upper f upper_low upper_high) (\<lambda>(ul, uh).
                 Ok (lower_low, lower_high, ul, uh)))"

definition midpoint :: "u64 \<Rightarrow> u64 \<Rightarrow> u64" where
  "midpoint low high = high div 2 + low div 2"

partial_function (option) refine_lower ::
  "quote_fn \<Rightarrow> u64 \<Rightarrow> u64 \<Rightarrow> u64 venue_result option" where
  "refine_lower f low high =
     (if 100 < high - low
      then (case probe f (midpoint low high) of
              Ok ok \<Rightarrow> if ok then refine_lower f low (midpoint low high)
                      else refine_lower f (midpoint low high) high
            | Err e \<Rightarrow> Some (Err e)
            | Panic \<Rightarrow> Some Panic
            | Diverge \<Rightarrow> Some Diverge)
      else Some (Ok high))"

partial_function (option) refine_upper ::
  "quote_fn \<Rightarrow> u64 \<Rightarrow> u64 \<Rightarrow> u64 venue_result option" where
  "refine_upper f low high =
     (if 100 < high - low
      then (case probe f (midpoint low high) of
              Ok ok \<Rightarrow> if ok then refine_upper f (midpoint low high) high
                      else refine_upper f low (midpoint low high)
            | Err e \<Rightarrow> Some (Err e)
            | Panic \<Rightarrow> Some Panic
            | Diverge \<Rightarrow> Some Diverge)
      else Some (Ok low))"

definition find_boundaries :: "quote_fn \<Rightarrow> (u64 \<times> u64) venue_result" where
  "find_boundaries f =
     and_then (find_boundaries_coarse f) (\<lambda>(lower_low, lower_high, upper_low, upper_high).
       if lower_low = upper_high
       then Err (BoundarySearchFailed
              (EI_StaticStr ''Search boundaries are all equal; search space collapsed''))
       else if lower_high = U64_MAX
       then Err (NoQuotableValue
              (EI_StaticStr ''No quotable value found; exponential search hit u64::MAX''))
       else and_then (of_run (refine_lower f lower_low lower_high)) (\<lambda>lower_bound.
            and_then (of_run (refine_upper f upper_low upper_high)) (\<lambda>upper_bound.
              Ok (lower_bound, upper_bound))))"

text \<open>The default \<open>bounds\<close> method of the trait, over the venue's token list and quote function.\<close>

definition default_bounds ::
  "TokenInfo list \<Rightarrow> (QuoteRequest \<Rightarrow> QuoteResult venue_result) \<Rightarrow> u8 \<Rightarrow> u8
   \<Rightarrow> (u64 \<times> u64) venue_result" where
  "default_bounds toks quote i j =
     and_then (get_token toks (unat i)) (\<lambda>ti.
     and_then (get_token toks (unat j)) (\<lambda>tj.
       find_boundaries (\<lambda>x. quote \<lparr>req_input_mint = ti_pubkey ti, req_output_mint = ti_pubkey tj,
                                    req_amount = x, req_swap_type = ExactIn\<rparr>)))"

subsection \<open>Vocabulary of the properties\<close>

definition quotable :: "quote_fn \<Rightarrow> u64 \<Rightarrow> bool" where
  "quotable f x \<longleftrightarrow> probe f x = Ok True"

definition unquotable :: "quote_fn \<Rightarrow> u64 \<Rightarrow> bool" where
  "unquotable f x \<longleftrightarrow> probe f x = Ok False"

text \<open>The shape the documentation assumes of a venue: the quotable amounts form one interval.\<close>

definition interval_quotes :: "quote_fn \<Rightarrow> bool" where
  "interval_quotes f \<longleftrightarrow>
     (\<forall>x y z. x \<le> y \<longrightarrow> y \<le> z \<longrightarrow> quotable f x \<longrightarrow> quotable f z \<longrightarrow> quotable f y)"

text \<open>A closure that returns (with a quote or an error) at every amount.\<close>

definition total_quotes :: "quote_fn \<Rightarrow> bool" where
  "total_quotes f \<longleftrightarrow> (\<forall>x. f x \<noteq> Panic \<and> f x \<noteq> Diverge)"

lemma probe_total: "total_quotes f \<Longrightarrow> quotable f x \<or> unquotable f x"
  by (cases "f x") (auto simp: total_quotes_def quotable_def unquotable_def probe_def)

lemma not_quotable_and_unquotable: "\<not> (quotable f x \<and> unquotable f x)"
  by (simp add: quotable_def unquotable_def)

lemma probe_never_Err: "probe f x \<noteq> Err e"
  by (cases "f x") (auto simp: probe_def)

subsection \<open>Bisection\<close>

lemma midpoint_between:
  assumes "low \<le> high" and "100 < high - low"
  shows "low < midpoint low high" and "midpoint low high < high"
proof -
  have d: "unat high - unat low > 100"
    using assms by (simp add: word_less_nat_alt unat_sub)
  have "unat high div 2 + unat low div 2 < 18446744073709551616"
    using unat_u64_less [of high] unat_u64_less [of low] by linarith
  then have "unat (midpoint low high) = unat high div 2 + unat low div 2"
    by (simp add: midpoint_def unat_word_ariths unat_div)
  with d show "low < midpoint low high" "midpoint low high < high"
    by (simp_all add: word_less_nat_alt)
qed

locale bisection =
  fixes refine :: "'f \<Rightarrow> u64 \<Rightarrow> u64 \<Rightarrow> ('e, u64) outcome option"
    and goes_left :: "'f \<Rightarrow> u64 \<Rightarrow> ('e, bool) outcome"
    and pick :: "u64 \<Rightarrow> u64 \<Rightarrow> u64"
  assumes stop: "\<not> 100 < high - low \<Longrightarrow> refine f low high = Some (Ok (pick low high))"
    and left: "100 < high - low \<Longrightarrow> goes_left f (midpoint low high) = Ok True
      \<Longrightarrow> refine f low high = refine f low (midpoint low high)"
    and right: "100 < high - low \<Longrightarrow> goes_left f (midpoint low high) = Ok False
      \<Longrightarrow> refine f low high = refine f (midpoint low high) high"
    and fail: "100 < high - low \<Longrightarrow> \<not> is_ok (goes_left f (midpoint low high))
      \<Longrightarrow> \<exists>r. refine f low high = Some r \<and> \<not> is_ok r"
begin

lemma returns:
  "low \<le> high \<Longrightarrow> \<exists>r. refine f low high = Some r \<and> ((\<forall>x. is_ok (goes_left f x)) \<longrightarrow> is_ok r)"
proof (induction "unat high - unat low" arbitrary: low high rule: less_induct)
  case less
  show ?case
  proof (cases "100 < high - low")
    case True
    let ?m = "midpoint low high"
    have m: "low < ?m" "?m < high"
      using less.prems True by (rule midpoint_between)+
    then have d: "unat ?m - unat low < unat high - unat low" "unat high - unat ?m < unat high - unat low"
      by (auto simp: word_less_nat_alt)
    show ?thesis
    proof (cases "is_ok (goes_left f ?m)")
      case ok: True
      then obtain b where "goes_left f ?m = Ok b"
        by (auto simp: is_ok_iff)
      then show ?thesis
        using m True less.hyps [OF d(1)] less.hyps [OF d(2)]
        by (cases b) (auto simp: left right)
    next
      case False
      then show ?thesis
        using fail [OF True, of f] by blast
    qed
  qed (auto simp: stop)
qed

lemma brackets:
  assumes "low \<le> high" and "refine f low high = Some (Ok r)"
  shows "\<exists>l h. r = pick l h \<and> low \<le> l \<and> l \<le> h \<and> h \<le> high \<and> h - l \<le> 100 \<and> (low < high \<longrightarrow> l < h)
    \<and> (l = low \<or> goes_left f l = Ok False) \<and> (h = high \<or> goes_left f h = Ok True)"
  using assms
proof (induction "unat high - unat low" arbitrary: low high rule: less_induct)
  case less
  show ?case
  proof (cases "100 < high - low")
    case True
    let ?m = "midpoint low high"
    have m: "low < ?m" "?m < high"
      using less.prems(1) True by (rule midpoint_between)+
    then have d: "unat ?m - unat low < unat high - unat low" "unat high - unat ?m < unat high - unat low"
      by (auto simp: word_less_nat_alt)
    show ?thesis
    proof (cases "goes_left f ?m")
      case (Ok b)
      show ?thesis
      proof (cases b)
        case True
        then have "refine f low ?m = Some (Ok r)"
          using less.prems Ok \<open>100 < high - low\<close> by (simp add: left)
        from less.hyps [OF d(1) less_imp_le [OF m(1)] this] obtain l h where
          "r = pick l h" "low \<le> l" "l \<le> h" "h \<le> ?m" "h - l \<le> 100" "low < ?m \<longrightarrow> l < h"
          "l = low \<or> goes_left f l = Ok False" "h = ?m \<or> goes_left f h = Ok True"
          by blast
        then show ?thesis
          using m Ok True by (intro exI [of _ l] exI [of _ h]) auto
      next
        case False
        then have "refine f ?m high = Some (Ok r)"
          using less.prems Ok \<open>100 < high - low\<close> by (simp add: right)
        from less.hyps [OF d(2) less_imp_le [OF m(2)] this] obtain l h where
          "r = pick l h" "?m \<le> l" "l \<le> h" "h \<le> high" "h - l \<le> 100" "?m < high \<longrightarrow> l < h"
          "l = ?m \<or> goes_left f l = Ok False" "h = high \<or> goes_left f h = Ok True"
          by blast
        then show ?thesis
          using m Ok False by (intro exI [of _ l] exI [of _ h]) auto
      qed
    qed (use fail [OF True, of f] less.prems(2) in auto)
  next
    case False
    then show ?thesis
      using less.prems by (auto simp: stop not_less)
  qed
qed

end

interpretation lower: bisection refine_lower probe "\<lambda>low high. high"
  by unfold_locales
    (subst refine_lower.simps; auto simp: probe_never_Err split: outcome.splits)+

interpretation upper: bisection refine_upper "\<lambda>f x. and_then (probe f x) (\<lambda>ok. Ok (\<not> ok))" "\<lambda>low high. low"
  by unfold_locales
    (subst refine_upper.simps; auto simp: probe_never_Err outcome_simps split: outcome.splits)+

lemma probe_left_iff: "and_then (probe f x) (\<lambda>ok. Ok (\<not> ok)) = Ok b \<longleftrightarrow> probe f x = Ok (\<not> b)"
  by (auto simp: outcome_simps)

subsection \<open>The exponential searches\<close>

lemma unat_pow2 [simp]:
  assumes "k < 64"
  shows "unat ((2::u64) ^ k) = 2 ^ k"
proof -
  have "(2::nat) ^ k < 2 ^ 64"
    using assms by (rule power_strict_increasing) simp
  then show ?thesis
    using unat_of_nat [where 'a = 64, of "2 ^ k"] by simp
qed

lemma unat_U64_MAX: "unat U64_MAX = 18446744073709551615"
  by (simp add: U64_MAX_def unsigned_minus_1_eq_mask mask_eq_exp_minus_1)

lemma saturating_double:
  "k < 64 \<Longrightarrow> saturating_mul ((2::u64) ^ k) SCALING_FACTOR = (if k < 63 then 2 ^ Suc k else U64_MAX)"
proof -
  assume k: "k < 64"
  have "(2::nat) ^ k * 2 < 2 ^ 64 \<longleftrightarrow> k < 63"
    using power_strict_increasing_iff [of "2::nat" "Suc k" 64] by simp
  with k show ?thesis
    by (auto simp: saturating_mul_def SCALING_FACTOR_def U64_MAX_def)
qed

lemma pow2_less_u64: "j < k \<Longrightarrow> k < 64 \<Longrightarrow> (2::u64) ^ j < 2 ^ k"
  by (simp add: word_less_nat_alt)

lemma pow2_neq_max: "k < 64 \<Longrightarrow> (2::u64) ^ k \<noteq> U64_MAX"
proof
  assume k: "k < 64" and "(2::u64) ^ k = U64_MAX"
  then have "unat ((2::u64) ^ k) = unat U64_MAX"
    by simp
  then have "(2::nat) ^ k = 18446744073709551615"
    using k by (simp add: unat_U64_MAX)
  moreover have "even ((2::nat) ^ k) \<or> (2::nat) ^ k = 1"
    by (cases k) auto
  ultimately show False
    by auto
qed

lemma u64_le_max [simp]: "x \<le> U64_MAX"
  by (simp add: U64_MAX_def)

text \<open>One unfolding of phase 1 on a power of two.\<close>

lemma coarse_lower_pow2:
  assumes "k < 64"
  shows "coarse_lower f low (2 ^ k) =
    and_then (probe f (2 ^ k)) (\<lambda>ok.
      if ok then Ok (low, 2 ^ k)
      else if k < 63 then coarse_lower f (2 ^ k) (2 ^ Suc k) else Ok (2 ^ 63, U64_MAX))"
proof (cases "k < 63")
  case True
  then have "\<not> (2::u64) ^ Suc k \<le> 2 ^ k" "(2::u64) ^ Suc k \<noteq> U64_MAX"
    using pow2_less_u64 [of k "Suc k"] pow2_neq_max [of "Suc k"] by auto
  then show ?thesis
    using True by (subst coarse_lower.simps, cases "probe f (2 ^ k)")
      (simp_all add: Let_def saturating_double del: power_Suc)
next
  case False
  then have "k = 63"
    using assms by simp
  then show ?thesis
    by (subst coarse_lower.simps, cases "probe f (2 ^ 63)")
      (simp_all add: Let_def saturating_double del: power_numeral)
qed

lemma coarse_lower_result:
  assumes "k < 64" and "coarse_lower f low (2 ^ k) = Ok (l, h)"
  shows "(h = U64_MAX \<and> l = 2 ^ 63 \<and> (\<forall>j. k \<le> j \<longrightarrow> j < 64 \<longrightarrow> unquotable f (2 ^ j)))
    \<or> (\<exists>j. k \<le> j \<and> j < 64 \<and> h = 2 ^ j \<and> quotable f h
         \<and> (if j = k then l = low else l = 2 ^ (j - 1) \<and> unquotable f l)
         \<and> (\<forall>i. k \<le> i \<longrightarrow> i < j \<longrightarrow> unquotable f (2 ^ i)))"
  using assms
proof (induction "63 - k" arbitrary: k low)
  case 0
  then have "k = 63"
    by simp
  then show ?case
    using "0.prems"(2) unfolding coarse_lower_pow2 [OF "0.prems"(1)]
    by (force simp: outcome_simps quotable_def unquotable_def less_Suc_eq_le numeral_eq_Suc split: if_splits)
next
  case (Suc d)
  then have k: "k < 63"
    by simp
  show ?case
  proof (cases "quotable f (2 ^ k)")
    case True
    then show ?thesis
      using Suc.prems unfolding coarse_lower_pow2 [OF Suc.prems(1)]
      by (intro disjI2 exI [of _ k]) (auto simp: quotable_def)
  next
    case False
    then have u: "unquotable f (2 ^ k)" and r: "coarse_lower f (2 ^ k) (2 ^ Suc k) = Ok (l, h)"
      using Suc.prems k unfolding coarse_lower_pow2 [OF Suc.prems(1)]
      by (auto simp: outcome_simps quotable_def unquotable_def split: if_splits)
    have "d = 63 - Suc k" "Suc k < 64"
      using Suc.hyps(2) k by auto
    from Suc.hyps(1) [OF this r] show ?thesis
    proof (elim disjE exE conjE)
      fix j
      assume j: "Suc k \<le> j" "j < 64" "h = 2 ^ j" "quotable f h"
        "if j = Suc k then l = 2 ^ k else l = 2 ^ (j - 1) \<and> unquotable f l"
        "\<forall>i. Suc k \<le> i \<longrightarrow> i < j \<longrightarrow> unquotable f (2 ^ i)"
      then show ?thesis
        using u by (intro disjI2 exI [of _ j]) (auto simp: Suc_le_eq dest: le_neq_implies_less split: if_splits)
    qed (use u in \<open>auto simp: Suc_le_eq dest: le_neq_implies_less\<close>)
  qed
qed

lemma coarse_upper_result:
  assumes "low < high" and "quotable f low" and "coarse_upper f low high = Ok (l, h)"
  shows "low \<le> l \<and> l \<le> h \<and> quotable f l \<and> (unquotable f h \<or> h = U64_MAX)"
  using assms
proof (induction f low high rule: coarse_upper.induct)
  case (1 f low high)
  let ?high = "saturating_mul high SCALING_FACTOR"
  show ?case
  proof (cases "probe f high")
    case (Ok b)
    show ?thesis
    proof (cases "b \<and> \<not> (?high \<le> high \<or> ?high = U64_MAX)")
      case True
      then have "coarse_upper f high ?high = Ok (l, h)"
        using "1.prems"(3) Ok by (subst (asm) coarse_upper.simps) (simp add: Let_def)
      then show ?thesis
        using "1.IH" [of b high ?high] True Ok "1.prems"(1)
        by (auto simp: quotable_def not_le intro: order_trans less_imp_le)
    next
      case False
      then show ?thesis
        using "1.prems" Ok
        by (subst (asm) coarse_upper.simps)
          (auto simp: Let_def quotable_def unquotable_def split: if_splits)
    qed
  qed (use "1.prems"(3) in \<open>subst (asm) coarse_upper.simps; simp\<close>)+
qed

lemma coarse_lower_total: "total_quotes f \<Longrightarrow> \<exists>r. coarse_lower f low high = Ok r"
proof (induction f low high rule: coarse_lower.induct)
  case (1 f low high)
  then obtain b where "probe f high = Ok b"
    using probe_total by (fastforce simp: quotable_def unquotable_def)
  with "1" show ?case
    by (subst coarse_lower.simps) (auto simp: Let_def)
qed

lemma coarse_upper_total: "total_quotes f \<Longrightarrow> \<exists>r. coarse_upper f low high = Ok r"
proof (induction f low high rule: coarse_upper.induct)
  case (1 f low high)
  then obtain b where "probe f high = Ok b"
    using probe_total by (fastforce simp: quotable_def unquotable_def)
  with "1" show ?case
    by (subst coarse_upper.simps) (auto simp: Let_def)
qed

subsection \<open>The unified search\<close>

text \<open>What a successful coarse search hands to the bisections.\<close>

lemma find_boundaries_coarse_result:
  assumes "find_boundaries_coarse f = Ok (ll, lh, ul, uh)"
  shows "(lh = U64_MAX \<and> ll = 2 ^ 63 \<and> ul = U64_MAX \<and> uh = U64_MAX \<and> (\<forall>j < 64. unquotable f (2 ^ j)))
    \<or> (lh \<noteq> U64_MAX \<and> ll < lh \<and> lh \<le> ul \<and> ul \<le> uh \<and> quotable f lh \<and> quotable f ul
       \<and> (ll = 0 \<or> unquotable f ll) \<and> (uh = U64_MAX \<or> unquotable f uh) \<and> (\<exists>j < 64. lh = 2 ^ j))"
proof -
  obtain l h where lower: "coarse_lower f 0 (2 ^ 0) = Ok (l, h)"
    and rest: "l = ll" "h = lh"
      "if saturating_mul lh SCALING_FACTOR \<le> lh then ul = lh \<and> uh = lh
       else coarse_upper f lh (saturating_mul lh SCALING_FACTOR) = Ok (ul, uh)"
    using assms
    by (auto simp: find_boundaries_coarse_def outcome_simps Let_def split: if_splits)
  from coarse_lower_result [OF zero_less_numeral lower] show ?thesis
  proof (elim disjE conjE exE)
    assume "h = U64_MAX" "l = 2 ^ 63" "\<forall>j. 0 \<le> j \<longrightarrow> j < 64 \<longrightarrow> unquotable f (2 ^ j)"
    moreover have "saturating_mul U64_MAX SCALING_FACTOR \<le> U64_MAX"
      by simp
    ultimately show ?thesis
      using rest by simp
  next
    fix j
    assume j: "j < 64" "h = 2 ^ j" "quotable f h"
      "if j = 0 then l = 0 else l = 2 ^ (j - 1) \<and> unquotable f l"
    have lt: "l < h"
      using j pow2_less_u64 [of "j - 1" j] by (cases "j = 0") auto
    have "h < 2 ^ Suc j" if "j < 63"
      using that j(2) pow2_less_u64 [of j "Suc j"] by (simp del: power_Suc)
    moreover have "h < U64_MAX"
      using pow2_neq_max [OF j(1)] j(2) by (simp add: order_less_le)
    ultimately have gt: "\<not> saturating_mul h SCALING_FACTOR \<le> h"
      using saturating_double [OF j(1)] j(2) by (simp add: not_le del: power_Suc split: if_splits)
    then have "coarse_upper f h (saturating_mul h SCALING_FACTOR) = Ok (ul, uh)"
      using rest by simp
    then have "h \<le> ul \<and> ul \<le> uh \<and> quotable f ul \<and> (unquotable f uh \<or> uh = U64_MAX)"
      using gt by (intro coarse_upper_result [OF _ j(3)]) (auto simp: not_le)
    moreover have "\<exists>i < 64. lh = 2 ^ i"
      using j rest by blast
    moreover have "ll = 0 \<or> unquotable f ll"
      using j rest by (auto split: if_splits)
    moreover have "lh \<noteq> U64_MAX" "ll < lh" "quotable f lh"
      using lt j(3) pow2_neq_max [OF j(1)] j(2) rest(1,2) by auto
    ultimately show ?thesis
      using rest(2) by blast
  qed
qed

lemma find_boundaries_coarse_total:
  assumes "total_quotes f"
  shows "\<exists>r. find_boundaries_coarse f = Ok r"
proof -
  obtain l h where "coarse_lower f 0 1 = Ok (l, h)"
    using coarse_lower_total [OF assms, of 0 1] by auto
  moreover obtain l' h' where "coarse_upper f h (saturating_mul h SCALING_FACTOR) = Ok (l', h')"
    using coarse_upper_total [OF assms, of h "saturating_mul h SCALING_FACTOR"] by auto
  ultimately show ?thesis
    by (simp add: find_boundaries_coarse_def Let_def)
qed

lemma find_boundaries_Ok:
  assumes "find_boundaries f = Ok (lo, hi)"
  obtains ll lh ul uh where "find_boundaries_coarse f = Ok (ll, lh, ul, uh)" "lh \<noteq> U64_MAX"
    "refine_lower f ll lh = Some (Ok lo)" "refine_upper f ul uh = Some (Ok hi)"
proof -
  from assms obtain ll lh ul uh where "find_boundaries_coarse f = Ok (ll, lh, ul, uh)"
    "lh \<noteq> U64_MAX" "of_run (refine_lower f ll lh) = Ok lo" "of_run (refine_upper f ul uh) = Ok hi"
    by (auto simp: find_boundaries_def outcome_simps split: if_splits)
  then show thesis
    by (intro that) (auto simp: of_run_def split: option.splits)
qed

subsection \<open>Properties\<close>

text \<open>A closure that quotes every amount from 3 to 1000 one to one, for the witnesses.\<close>

definition sample_quotes :: quote_fn where
  "sample_quotes x =
     (if 3 \<le> x \<and> x \<le> 1000
      then Ok \<lparr>res_input_mint = [], res_output_mint = [], res_amount = x, res_expected_output = x,
              res_not_enough_liquidity = False, res_price = Fin 1\<rparr>
      else Err (MathError (EI_StaticStr ''out of range'')))"

lemmas bounds_eval = find_boundaries_def find_boundaries_coarse_def coarse_lower.simps
  coarse_upper.simps refine_lower.simps refine_upper.simps probe_def valid_quote_def
  saturating_mul_def SCALING_FACTOR_def U64_MAX_def midpoint_def Let_def

lemma sample_quotes_bounds: "find_boundaries sample_quotes = Ok (4, 960)"
  by (simp add: bounds_eval sample_quotes_def word_le_nat_alt word_less_nat_alt)

lemma sample_quotes_quotable: "quotable sample_quotes x \<longleftrightarrow> 3 \<le> x \<and> x \<le> 1000"
  by (auto simp: quotable_def probe_def sample_quotes_def valid_quote_def)

text \<open>The shared unpacking: both bounds, and the brackets the bisections leave.\<close>

lemma find_boundaries_brackets:
  assumes "find_boundaries f = Ok (lo, hi)"
  shows "\<exists>a b. quotable f lo \<and> quotable f hi \<and> lo \<le> hi
    \<and> a < lo \<and> lo - a \<le> 100 \<and> (a = 0 \<or> unquotable f a)
    \<and> hi \<le> b \<and> b - hi \<le> 100 \<and> (b = U64_MAX \<or> unquotable f b)"
proof -
  from assms obtain ll lh ul uh where c: "find_boundaries_coarse f = Ok (ll, lh, ul, uh)"
    "lh \<noteq> U64_MAX" "refine_lower f ll lh = Some (Ok lo)" "refine_upper f ul uh = Some (Ok hi)"
    by (rule find_boundaries_Ok)
  from find_boundaries_coarse_result [OF c(1)] c(2) have
    o: "ll < lh" "lh \<le> ul" "ul \<le> uh" "quotable f lh" "quotable f ul" "ll = 0 \<or> unquotable f ll"
      "uh = U64_MAX \<or> unquotable f uh"
    by auto
  from lower.brackets [OF less_imp_le [OF o(1)] c(3)] obtain l where
    l: "ll \<le> l" "l < lo" "lo \<le> lh" "lo - l \<le> 100" "l = ll \<or> unquotable f l"
      "lo = lh \<or> quotable f lo"
    using o(1) by (auto simp: unquotable_def quotable_def)
  from upper.brackets [OF o(3) c(4)] obtain h where
    h: "ul \<le> hi" "hi \<le> h" "h \<le> uh" "h - hi \<le> 100" "hi = ul \<or> quotable f hi"
      "h = uh \<or> unquotable f h"
    by (auto simp: unquotable_def quotable_def probe_left_iff)
  have "quotable f lo" "quotable f hi" "lo \<le> hi"
    using l h o by auto
  then show ?thesis
    using l h o by (intro exI [of _ l] exI [of _ h]) auto
qed

lemma find_boundaries_total:
  assumes "total_quotes f"
  shows "if \<exists>k < 64. quotable f (2 ^ k) then \<exists>lo hi. find_boundaries f = Ok (lo, hi)
    else find_boundaries f = Err (NoQuotableValue
      (EI_StaticStr ''No quotable value found; exponential search hit u64::MAX''))"
proof -
  from find_boundaries_coarse_total [OF assms] obtain ll lh ul uh
    where c: "find_boundaries_coarse f = Ok (ll, lh, ul, uh)"
    by (metis prod_cases4)
  have ok: "\<exists>b. probe f x = Ok b" for x
    using probe_total [OF assms, of x] by (auto simp: quotable_def unquotable_def)
  show ?thesis
  proof (cases "lh = U64_MAX")
    case True
    then have m: "ll = 2 ^ 63" "uh = U64_MAX" "\<forall>j<64. unquotable f (2 ^ j)"
      using find_boundaries_coarse_result [OF c] by auto
    then have "\<not> (\<exists>k<64. quotable f (2 ^ k))"
      using not_quotable_and_unquotable by blast
    then show ?thesis
      using m True c pow2_neq_max [of 63] by (simp add: find_boundaries_def)
  next
    case False
    then have o: "ll < lh" "lh \<le> ul" "ul \<le> uh" "quotable f lh" "\<exists>j<64. lh = 2 ^ j"
      using find_boundaries_coarse_result [OF c] by auto
    obtain lo where "refine_lower f ll lh = Some (Ok lo)"
      using lower.returns [of ll lh f] o ok by (force simp: is_ok_iff)
    moreover obtain hi where "refine_upper f ul uh = Some (Ok hi)"
      using upper.returns [of ul uh f] o ok by (force simp: is_ok_iff outcome_simps)
    ultimately have "find_boundaries f = Ok (lo, hi)"
      using c o False by (auto simp: find_boundaries_def)
    then show ?thesis
      using o by auto
  qed
qed

text \<open>C12: When the boundary search succeeds, both reported bounds are themselves quotable (the venue
  returns a quote with enough liquidity and a positive output at exactly those amounts), the lower
  bound is positive and the bounds are in order.\<close>

theorem find_boundaries_sound:
  assumes "find_boundaries f = Ok (lo, hi)"
  shows "quotable f lo \<and> quotable f hi \<and> 0 < lo \<and> lo \<le> hi"
  using find_boundaries_brackets [OF assms] by (auto simp: word_gt_0 not_less_iff_gr_or_eq)

theorem find_boundaries_sound_witness:
  "find_boundaries sample_quotes = Ok (4, 960) \<and> quotable sample_quotes 4 \<and> quotable sample_quotes 960"
  using find_boundaries_sound [OF sample_quotes_bounds] sample_quotes_bounds by simp

text \<open>C13: The bounds are tight to 100 atoms on an interval-shaped venue: every amount between them
  is quotable, and every quotable amount outside them is within 100 atoms of the nearer bound.\<close>

theorem find_boundaries_tight:
  assumes "find_boundaries f = Ok (lo, hi)"
    and "interval_quotes f"
  shows "(\<forall>x. lo \<le> x \<and> x \<le> hi \<longrightarrow> quotable f x)
    \<and> (\<forall>x. quotable f x \<and> x < lo \<longrightarrow> lo - x \<le> 100)
    \<and> (\<forall>x. quotable f x \<and> hi < x \<longrightarrow> x - hi \<le> 100)"
proof -
  have conv: "x \<le> y \<Longrightarrow> y \<le> z \<Longrightarrow> quotable f x \<Longrightarrow> quotable f z \<Longrightarrow> quotable f y" for x y z
    using assms(2) by (simp add: interval_quotes_def)
  from find_boundaries_brackets [OF assms(1)] obtain a b where
    q: "quotable f lo" "quotable f hi" "lo \<le> hi"
    and a: "a < lo" "lo - a \<le> 100" "a = 0 \<or> unquotable f a"
    and b: "hi \<le> b" "b - hi \<le> 100" "b = U64_MAX \<or> unquotable f b"
    by blast
  have "a \<le> x" if "quotable f x" "x < lo" for x
    using that a conv [of x a lo] q not_quotable_and_unquotable [of f a] by force
  then have low: "lo - x \<le> 100" if "quotable f x" "x < lo" for x
    using that a by (meson less_imp_le order_trans word_sub_le_mono)
  have "x \<le> b" if "quotable f x" "hi < x" for x
    using that b conv [of hi b x] q not_quotable_and_unquotable [of f b] by force
  then have "x - hi \<le> 100" if "quotable f x" "hi < x" for x
    using that b by (meson less_imp_le order_trans word_sub_le_mono2)
  with low conv q show ?thesis
    by blast
qed

theorem find_boundaries_tight_witness:
  "find_boundaries sample_quotes = Ok (4, 960) \<and> quotable sample_quotes 500"
proof -
  have "interval_quotes sample_quotes"
    unfolding interval_quotes_def sample_quotes_quotable by (meson order_trans)
  from find_boundaries_tight [OF sample_quotes_bounds this] show ?thesis
    using sample_quotes_bounds by simp
qed

text \<open>C14: On a closure that always returns, the search terminates, never panics, never reports
  \<open>BoundarySearchFailed\<close>, and succeeds exactly when some power of two is quotable; otherwise it
  reports \<open>NoQuotableValue\<close>.\<close>

theorem find_boundaries_outcome:
  assumes "total_quotes f"
  shows "if \<exists>k < 64. quotable f (2 ^ k) then \<exists>lo hi. find_boundaries f = Ok (lo, hi)
    else find_boundaries f = Err (NoQuotableValue
      (EI_StaticStr ''No quotable value found; exponential search hit u64::MAX''))"
  using assms by (rule find_boundaries_total)

definition gap_quotes :: quote_fn where
  "gap_quotes x = (if x = 3 then sample_quotes x else Err ExactOutNotSupported)"

lemma gap_quotes_total: "total_quotes gap_quotes"
  by (simp add: total_quotes_def gap_quotes_def sample_quotes_def)

lemma gap_quotes_pow2: "k < 64 \<Longrightarrow> (2::u64) ^ k \<noteq> 3"
proof
  assume "k < 64" and "(2::u64) ^ k = 3"
  then have "(2::nat) ^ k = 3"
    using unat_pow2 [of k] by simp
  then show False
    by (cases k) (simp, simp, presburger)
qed

theorem find_boundaries_outcome_witness:
  "total_quotes gap_quotes \<and> find_boundaries gap_quotes = Err (NoQuotableValue
      (EI_StaticStr ''No quotable value found; exponential search hit u64::MAX''))"
  using find_boundaries_outcome [OF gap_quotes_total] gap_quotes_total gap_quotes_pow2
  by (auto simp: quotable_def probe_def gap_quotes_def split: if_splits)

text \<open>A venue can have a quotable amount and still be reported as having none: the search only
  looks at powers of two, so a venue quotable at 3 alone gives \<open>NoQuotableValue\<close>.\<close>

theorem find_boundaries_misses_gap:
  "quotable gap_quotes 3 \<and> find_boundaries gap_quotes = Err (NoQuotableValue
      (EI_StaticStr ''No quotable value found; exponential search hit u64::MAX''))"
proof
  show "quotable gap_quotes 3"
    by (simp add: quotable_def probe_def gap_quotes_def sample_quotes_def valid_quote_def)
  show "find_boundaries gap_quotes = Err (NoQuotableValue
      (EI_StaticStr ''No quotable value found; exponential search hit u64::MAX''))"
    using find_boundaries_total [OF gap_quotes_total] gap_quotes_pow2
    by (auto simp: quotable_def probe_def gap_quotes_def split: if_splits)
qed

end
