(* ===== verification/Account_Cache.thy ===== *)
theory Account_Cache
  imports Venue_Types
begin

text \<open>
  The account layer of \<open>src/account_caching/\<close>.  The locale \<open>accounts_cache\<close> is the contract of the
  \<open>AccountsCache\<close> trait a venue updates through; \<open>RpcClientCache\<close> (\<open>rpc_cache.rs\<close>) implements it.  The RPC
  client is a parameter: its two methods are fields of the cache record, and \<open>rpc_serves\<close> says that
  they answer from one snapshot of the chain.  The \<open>DashMap\<close> is a map from keys to cached lookups, a
  lookup being an account or the knowledge that it is missing.
\<close>

type_synonym 'a cache_result = "(AccountCacheError, 'a) outcome"

record RpcClient =
  rpc_get_account :: "pubkey \<Rightarrow> (string, account) outcome"
  rpc_get_multiple_accounts :: "pubkey list \<Rightarrow> (string, account option list) outcome"

record RpcClientCache =
  rc_rpc_client :: RpcClient
  rc_cache :: "pubkey \<rightharpoonup> account option"

subsection \<open>Operations\<close>

definition cache_new :: "RpcClient \<Rightarrow> RpcClientCache" where
  "cache_new rpc = \<lparr>rc_rpc_client = rpc, rc_cache = Map.empty\<rparr>"

definition reset_cache :: "RpcClientCache \<Rightarrow> RpcClientCache" where
  "reset_cache c = c\<lparr>rc_cache := Map.empty\<rparr>"

definition get_multiple :: "RpcClientCache \<Rightarrow> pubkey list \<Rightarrow> account option list" where
  "get_multiple c pubkeys = map (\<lambda>key. case rc_cache c key of Some value \<Rightarrow> value | None \<Rightarrow> None) pubkeys"

definition cache_get_account :: "RpcClientCache \<Rightarrow> pubkey \<Rightarrow> RpcClientCache \<times> account option cache_result" where
  "cache_get_account c pubkey =
     (case rc_cache c pubkey of
        Some acc \<Rightarrow> (c, Ok acc)
      | None \<Rightarrow>
          st_then (c, map_err FailedToFetchAccount (rpc_get_account (rc_rpc_client c) pubkey)) (\<lambda>c response.
            (c\<lparr>rc_cache := (rc_cache c)(pubkey \<mapsto> Some response)\<rparr>, Ok (Some response))))"

text \<open>The first loop of \<open>get_accounts\<close>: hits go to the result map, misses to \<open>keys\<close>.\<close>

fun split_hits ::
  "(pubkey \<rightharpoonup> account option) \<Rightarrow> pubkey list \<Rightarrow> pubkey list \<Rightarrow> (pubkey \<rightharpoonup> account option)
   \<Rightarrow> pubkey list \<times> (pubkey \<rightharpoonup> account option)" where
  "split_hits cache [] keys result_map = (keys, result_map)"
| "split_hits cache (pubkey # rest) keys result_map =
     (case cache pubkey of
        Some acc \<Rightarrow> split_hits cache rest keys (result_map(pubkey \<mapsto> acc))
      | None \<Rightarrow> split_hits cache rest (keys @ [pubkey]) result_map)"

text \<open>The loop over the zipped response, on one of the two maps it fills.\<close>

fun store_response :: "(pubkey \<times> account option) list \<Rightarrow> (pubkey \<rightharpoonup> account option) \<Rightarrow> (pubkey \<rightharpoonup> account option)" where
  "store_response [] m = m"
| "store_response ((pubkey, acc) # rest) m = store_response rest (m(pubkey \<mapsto> acc))"

text \<open>The last loop; \<open>unwrap\<close> on an absent key panics.\<close>

fun reassemble :: "(pubkey \<rightharpoonup> account option) \<Rightarrow> pubkey list \<Rightarrow> account option list cache_result" where
  "reassemble result_map [] = Ok []"
| "reassemble result_map (pubkey # rest) =
     (case result_map pubkey of
        None \<Rightarrow> Panic
      | Some item \<Rightarrow> and_then (reassemble result_map rest) (\<lambda>items. Ok (item # items)))"

definition cache_get_accounts :: "RpcClientCache \<Rightarrow> pubkey list \<Rightarrow> RpcClientCache \<times> account option list cache_result" where
  "cache_get_accounts c pubkeys =
     (let (keys, result_map) = split_hits (rc_cache c) pubkeys [] Map.empty in
      st_then
        (if keys = [] then (c, Ok result_map)
         else st_then (c, map_err FailedToFetchAccount (rpc_get_multiple_accounts (rc_rpc_client c) keys)) (\<lambda>c response.
           (c\<lparr>rc_cache := store_response (zip keys response) (rc_cache c)\<rparr>,
            Ok (store_response (zip keys response) result_map))))
        (\<lambda>c result_map. (c, reassemble result_map pubkeys)))"

subsection \<open>The contract of a cache\<close>

text \<open>
  \<open>shows_snapshot c S\<close>: every answer of the cache \<open>c\<close> from now on is the one of the chain snapshot \<open>S\<close>.
\<close>

locale accounts_cache =
  fixes get_accounts :: "'c \<Rightarrow> pubkey list \<Rightarrow> 'c \<times> account option list cache_result"
    and shows_snapshot :: "'c \<Rightarrow> (pubkey \<rightharpoonup> account) \<Rightarrow> bool"
  assumes answers: "shows_snapshot c S \<Longrightarrow> get_accounts c keys = (c', Ok accs) \<Longrightarrow> accs = map S keys"
    and keeps_snapshot: "shows_snapshot c S \<Longrightarrow> get_accounts c keys = (c', r) \<Longrightarrow> shows_snapshot c' S"
    and comes_back: "shows_snapshot c S \<Longrightarrow> returns (snd (get_accounts c keys))"
    and errors_keep: "get_accounts c keys = (c', Err e) \<Longrightarrow> c' = c"
begin

lemma length_answer:
  "shows_snapshot c S \<Longrightarrow> get_accounts c keys = (c', Ok accs) \<Longrightarrow> length accs = length keys"
  by (drule (1) answers) simp

lemma consistent_answers:
  assumes "shows_snapshot c S" and "get_accounts c keys = (c1, Ok accs)" and "get_accounts c1 keys' = (c2, Ok accs')"
    and "i < length keys" and "j < length keys'" and "keys ! i = keys' ! j"
  shows "accs ! i = accs' ! j"
proof -
  have "accs = map S keys" "accs' = map S keys'"
    using assms(1-3) by (blast intro: answers keeps_snapshot)+
  with assms(4-6) show ?thesis by simp
qed

end

subsection \<open>Lemmas\<close>

lemma split_hits_eq:
  "split_hits cache pubkeys keys m =
     (keys @ filter (\<lambda>k. cache k = None) pubkeys, m ++ (cache |` set pubkeys))"
proof (induction pubkeys arbitrary: keys m)
  case (Cons k rest)
  have upd: "(m(k \<mapsto> a)) ++ cache |` set rest = m ++ cache |` set (k # rest)" if "cache k = Some a" for a
    using that by (auto simp: map_add_def restrict_map_def fun_eq_iff split: option.splits)
  have miss: "m ++ cache |` set rest = m ++ cache |` set (k # rest)" if "cache k = None"
    using that by (auto simp: map_add_def restrict_map_def fun_eq_iff split: option.splits)
  show ?case
    using upd miss by (cases "cache k") (simp_all add: Cons.IH fun_upd_def)
qed simp

lemma store_response_eq: "store_response ps m = m ++ map_of (rev ps)"
proof (induction ps arbitrary: m)
  case (Cons p ps)
  obtain k a where p: "p = (k, a)" by fastforce
  show ?case
    unfolding p by (auto simp: Cons.IH map_add_def fun_eq_iff split: option.splits)
qed simp

lemma reassemble_Ok_iff: "reassemble m keys = Ok items \<longleftrightarrow> map m keys = map Some items"
proof (induction keys arbitrary: items)
  case (Cons k keys)
  then show ?case
    by (cases items) (auto simp: outcome_simps split: option.splits)
qed auto

lemma reassemble_Ok_or_Panic: "(\<exists>items. reassemble m keys = Ok items) \<or> reassemble m keys = Panic"
  by (induction keys) (auto split: option.splits)

lemma reassemble_total: "set keys \<subseteq> dom m \<Longrightarrow> reassemble m keys = Ok (map (the \<circ> m) keys)"
  by (auto simp: reassemble_Ok_iff dom_def subset_iff)

lemma reassemble_not_Err [simp]: "reassemble m keys \<noteq> Err e"
  using reassemble_Ok_or_Panic [of m keys] by auto

definition cache_misses :: "RpcClientCache \<Rightarrow> pubkey list \<Rightarrow> pubkey list" where
  "cache_misses c keys = filter (\<lambda>k. rc_cache c k = None) keys"

text \<open>The two ways through \<open>get_accounts\<close>: everything cached, or one batched request for the misses.\<close>

lemma get_accounts_all_cached:
  "cache_misses c keys = [] \<Longrightarrow> cache_get_accounts c keys = (c, Ok (map (the \<circ> rc_cache c) keys))"
  by (auto simp: cache_get_accounts_def split_hits_eq cache_misses_def filter_empty_conv reassemble_Ok_iff)

lemma get_accounts_batched:
  assumes "cache_misses c keys \<noteq> []"
  shows "cache_get_accounts c keys =
    st_then (c, map_err FailedToFetchAccount (rpc_get_multiple_accounts (rc_rpc_client c) (cache_misses c keys)))
      (\<lambda>c response.
        let news = map_of (rev (zip (cache_misses c keys) response))
        in (c\<lparr>rc_cache := rc_cache c ++ news\<rparr>, reassemble (rc_cache c |` set keys ++ news) keys))"
proof (cases "rpc_get_multiple_accounts (rc_rpc_client c) (cache_misses c keys)")
  case (Ok response)
  then show ?thesis
    using assms by (simp add: cache_get_accounts_def split_hits_eq store_response_eq cache_misses_def Let_def)
qed (use assms in \<open>simp_all add: cache_get_accounts_def split_hits_eq cache_misses_def Let_def\<close>)

lemma news_keys: "map_of (rev (zip (cache_misses c keys) response)) k = Some a \<Longrightarrow> rc_cache c k = None"
  by (auto simp: cache_misses_def dest!: map_of_SomeD set_zip_leftD)

text \<open>After a successful call every requested key is cached, with the value that was returned, and no
  cached value has changed.\<close>

lemma get_accounts_Ok:
  assumes "cache_get_accounts c keys = (c', Ok items)"
  shows "map (rc_cache c') keys = map Some items" and "rc_cache c \<subseteq>\<^sub>m rc_cache c'"
    and "rc_rpc_client c' = rc_rpc_client c"
proof -
  have "map (rc_cache c') keys = map Some items \<and> rc_cache c \<subseteq>\<^sub>m rc_cache c' \<and> rc_rpc_client c' = rc_rpc_client c"
  proof (cases "cache_misses c keys = []")
    case True
    then have "\<forall>k \<in> set keys. rc_cache c k \<noteq> None"
      by (simp add: cache_misses_def filter_empty_conv)
    with True assms show ?thesis
      by (auto simp: get_accounts_all_cached)
  next
    case False
    then obtain response where
      c': "c' = c\<lparr>rc_cache := rc_cache c ++ map_of (rev (zip (cache_misses c keys) response))\<rparr>"
      and items: "map (rc_cache c |` set keys ++ map_of (rev (zip (cache_misses c keys) response))) keys = map Some items"
      using assms by (auto simp: get_accounts_batched st_then_Ok_iff Let_def reassemble_Ok_iff)
    have "map (rc_cache c |` set keys ++ map_of (rev (zip (cache_misses c keys) response))) keys = map (rc_cache c') keys"
      by (auto simp: c' map_add_def split: option.splits)
    moreover have "rc_cache c \<subseteq>\<^sub>m rc_cache c'"
      by (auto simp: c' map_le_def map_add_def split: option.splits dest: news_keys)
    ultimately show ?thesis
      using items c' by simp
  qed
  then show "map (rc_cache c') keys = map Some items" "rc_cache c \<subseteq>\<^sub>m rc_cache c'" "rc_rpc_client c' = rc_rpc_client c"
    by simp_all
qed

lemma get_accounts_Err: "cache_get_accounts c keys = (c', Err e) \<Longrightarrow> c' = c"
  by (cases "cache_misses c keys = []";
      cases "rpc_get_multiple_accounts (rc_rpc_client c) (cache_misses c keys)")
    (simp_all add: get_accounts_all_cached get_accounts_batched Let_def)

subsection \<open>The RPC cache meets the contract\<close>

text \<open>What the RPC client documents: it answers from the chain state, one entry per key, or fails; a
  missing account is an error of the single lookup.\<close>

definition rpc_serves :: "RpcClient \<Rightarrow> (pubkey \<rightharpoonup> account) \<Rightarrow> bool" where
  "rpc_serves rpc S \<longleftrightarrow>
     (\<forall>k. returns (rpc_get_account rpc k)) \<and> (\<forall>k acc. rpc_get_account rpc k = Ok acc \<longrightarrow> S k = Some acc)
   \<and> (\<forall>ks. returns (rpc_get_multiple_accounts rpc ks))
   \<and> (\<forall>ks accs. rpc_get_multiple_accounts rpc ks = Ok accs \<longrightarrow> accs = map S ks)"

definition cache_shows :: "RpcClientCache \<Rightarrow> (pubkey \<rightharpoonup> account) \<Rightarrow> bool" where
  "cache_shows c S \<longleftrightarrow> rpc_serves (rc_rpc_client c) S \<and> (\<forall>k a. rc_cache c k = Some a \<longrightarrow> a = S k)"

lemma map_of_rev_zip_map: "map_of (rev (zip ks (map f ks))) = (\<lambda>k. if k \<in> set ks then Some (f k) else None)"
proof -
  have "zip ks (map f ks) = map (\<lambda>k. (k, f k)) ks"
    by (induction ks) simp_all
  then show ?thesis
    by (simp add: rev_map map_of_map_restrict restrict_map_def fun_eq_iff)
qed

lemma get_accounts_snapshot:
  assumes "cache_shows c S"
  shows "(\<exists>e. cache_get_accounts c keys = (c, Err e))
    \<or> (\<exists>c'. cache_get_accounts c keys = (c', Ok (map S keys)) \<and> cache_shows c' S)"
proof (cases "cache_misses c keys = []")
  case True
  then have "map (the \<circ> rc_cache c) keys = map S keys"
    using assms by (auto simp: cache_shows_def cache_misses_def filter_empty_conv)
  then show ?thesis
    using True assms by (simp add: get_accounts_all_cached)
next
  case False
  let ?ks = "cache_misses c keys"
  have rpc: "rpc_serves (rc_rpc_client c) S" and hit: "rc_cache c k = Some a \<Longrightarrow> a = S k" for k a
    using assms by (simp_all add: cache_shows_def)
  show ?thesis
  proof (cases "rpc_get_multiple_accounts (rc_rpc_client c) ?ks")
    case (Ok response)
    then have response: "response = map S ?ks"
      using rpc by (simp add: rpc_serves_def)
    let ?news = "map_of (rev (zip ?ks response))"
    have news: "?news = (\<lambda>k. if k \<in> set ?ks then Some (S k) else None)"
      unfolding response by (rule map_of_rev_zip_map)
    have misses: "k \<in> set ?ks \<longleftrightarrow> k \<in> set keys \<and> rc_cache c k = None" for k
      by (auto simp: cache_misses_def)
    have "(rc_cache c |` set keys ++ ?news) k = Some (S k)" if "k \<in> set keys" for k
      using that by (cases "rc_cache c k") (auto simp: news map_add_def misses dest: hit)
    then have "map (rc_cache c |` set keys ++ ?news) keys = map Some (map S keys)"
      by simp
    then have "reassemble (rc_cache c |` set keys ++ ?news) keys = Ok (map S keys)"
      by (simp only: reassemble_Ok_iff)
    moreover have "cache_shows (c\<lparr>rc_cache := rc_cache c ++ ?news\<rparr>) S"
      using rpc by (auto simp: cache_shows_def news map_add_def dest: hit split: if_splits option.splits)
    ultimately show ?thesis
      using False Ok by (simp add: get_accounts_batched Let_def)
  qed (use rpc False in \<open>auto simp: get_accounts_batched rpc_serves_def returns_def\<close>)
qed

lemma get_accounts_served:
  assumes "cache_shows c S" and "\<And>ks. is_ok (rpc_get_multiple_accounts (rc_rpc_client c) ks)"
  shows "\<exists>c'. cache_get_accounts c keys = (c', Ok (map S keys)) \<and> cache_shows c' S \<and> rc_rpc_client c' = rc_rpc_client c"
proof -
  have "cache_get_accounts c keys \<noteq> (c, Err e)" for e
  proof (cases "cache_misses c keys = []")
    case False
    obtain response where "rpc_get_multiple_accounts (rc_rpc_client c) (cache_misses c keys) = Ok response"
      using assms(2) [of "cache_misses c keys"] by (auto simp: is_ok_iff)
    with False show ?thesis
      by (auto simp: get_accounts_batched Let_def)
  qed (simp add: get_accounts_all_cached)
  with get_accounts_snapshot [OF assms(1), of keys] show ?thesis
    using get_accounts_Ok(3) by blast
qed

interpretation rpc: accounts_cache cache_get_accounts cache_shows
proof unfold_locales
  fix c c' S keys and r :: "account option list cache_result" and accs e
  assume c: "cache_shows c S"
  note cases = get_accounts_snapshot [OF c, of keys]
  show "accs = map S keys" if "cache_get_accounts c keys = (c', Ok accs)"
    using cases that by auto
  show "cache_shows c' S" if "cache_get_accounts c keys = (c', r)"
    using cases that c by auto
  show "returns (snd (cache_get_accounts c keys))"
    using cases by auto
qed (rule get_accounts_Err)

subsection \<open>Properties\<close>

text \<open>C23: against an RPC node that answers from one snapshot of the chain, a cache whose entries agree
  with that snapshot either fails without changing or returns the snapshot's accounts in the order of
  the request, missing ones as \<open>None\<close>, and its entries agree with the snapshot afterwards.\<close>

theorem get_accounts_refines_snapshot:
  assumes "cache_shows c S"
  shows "(\<exists>e. cache_get_accounts c keys = (c, Err (FailedToFetchAccount e)))
    \<or> (\<exists>c'. cache_get_accounts c keys = (c', Ok (map S keys)) \<and> cache_shows c' S)"
proof -
  have "\<exists>m. e = FailedToFetchAccount m" if "cache_get_accounts c keys = (c, Err e)" for e
    using that
    by (cases "cache_misses c keys = []";
        cases "rpc_get_multiple_accounts (rc_rpc_client c) (cache_misses c keys)")
      (auto simp: get_accounts_all_cached get_accounts_batched Let_def)
  with get_accounts_snapshot [OF assms, of keys] show ?thesis
    by blast
qed

definition sample_chain :: "pubkey \<rightharpoonup> account" where
  "sample_chain k = (if k = [1] then Some \<lparr>acc_lamports = 5, acc_data = [1, 2], acc_owner = [9]\<rparr> else None)"

definition sample_rpc :: RpcClient where
  "sample_rpc = \<lparr>rpc_get_account = (\<lambda>k. ok_or (sample_chain k) ''AccountNotFound''),
     rpc_get_multiple_accounts = (\<lambda>ks. Ok (map sample_chain ks))\<rparr>"

lemma sample_rpc_serves: "rpc_serves sample_rpc sample_chain"
  by (auto simp: rpc_serves_def sample_rpc_def ok_or_Ok_iff)

theorem get_accounts_refines_snapshot_witness:
  "\<exists>c'. cache_get_accounts (cache_new sample_rpc) [[2], [1], [2]] = (c', Ok [None, sample_chain [1], None])
     \<and> cache_shows c' sample_chain"
proof -
  have "cache_shows (cache_new sample_rpc) sample_chain"
    by (simp add: cache_shows_def cache_new_def sample_rpc_serves)
  from get_accounts_refines_snapshot [OF this, of "[[2], [1], [2]]"] show ?thesis
    by (auto simp: cache_get_accounts_def cache_new_def sample_rpc_def sample_chain_def)
qed

text \<open>C36: after a successful \<open>get_accounts\<close> the same request is answered with the same accounts from
  memory alone, missing accounts included, whatever the RPC node would answer by then.\<close>

theorem get_accounts_repeatable:
  assumes "cache_get_accounts c keys = (c', Ok accs)"
  shows "cache_get_accounts (c'\<lparr>rc_rpc_client := rpc\<rparr>) keys = (c'\<lparr>rc_rpc_client := rpc\<rparr>, Ok accs)"
proof -
  have cached: "map (rc_cache c') keys = map Some accs"
    using assms by (rule get_accounts_Ok)
  then have "\<forall>k \<in> set keys. rc_cache c' k \<noteq> None"
    by (metis (no_types, lifting) image_iff list.set_map option.distinct(1))
  moreover have "map (the \<circ> rc_cache c') keys = accs"
    using arg_cong [OF cached, of "map the"] by (simp add: comp_def)
  ultimately show ?thesis
    by (simp add: get_accounts_all_cached cache_misses_def filter_empty_conv)
qed

definition broken_rpc :: RpcClient where
  "broken_rpc = \<lparr>rpc_get_account = (\<lambda>_. Err ''offline''), rpc_get_multiple_accounts = (\<lambda>_. Err ''offline'')\<rparr>"

theorem get_accounts_repeatable_witness:
  "snd (cache_get_accounts ((fst (cache_get_accounts (cache_new sample_rpc) [[1], [2]]))\<lparr>rc_rpc_client := broken_rpc\<rparr>) [[1], [2]])
   = Ok [sample_chain [1], None]"
proof -
  have "\<exists>c'. cache_get_accounts (cache_new sample_rpc) [[1], [2]] = (c', Ok [sample_chain [1], None])"
    by (auto simp: cache_get_accounts_def cache_new_def sample_rpc_def sample_chain_def)
  then obtain c' where "cache_get_accounts (cache_new sample_rpc) [[1], [2]] = (c', Ok [sample_chain [1], None])" ..
  with get_accounts_repeatable [OF this, of broken_rpc] show ?thesis
    by simp
qed

text \<open>C37: a single lookup of an account the RPC node reports missing is an error, never \<open>Ok(None)\<close>, and
  caches nothing, so that the next lookup asks the node again; only a missing account seen by
  \<open>get_accounts\<close> before is answered with \<open>None\<close>.\<close>

theorem missing_account_not_cached:
  assumes "rc_cache c k = None" and "rpc_get_account (rc_rpc_client c) k = Err e"
  shows "cache_get_account c k = (c, Err (FailedToFetchAccount e))
    \<and> (rpc_get_multiple_accounts (rc_rpc_client c) [k] = Ok [None]
         \<longrightarrow> snd (cache_get_account (fst (cache_get_accounts c [k])) k) = Ok None)"
  using assms by (auto simp: cache_get_accounts_def cache_get_account_def)

theorem missing_account_not_cached_witness:
  "cache_get_account (cache_new sample_rpc) [2] = (cache_new sample_rpc, Err (FailedToFetchAccount ''AccountNotFound''))
   \<and> snd (cache_get_account (fst (cache_get_accounts (cache_new sample_rpc) [[2]])) [2]) = Ok None"
  using missing_account_not_cached [of "cache_new sample_rpc" "[2]" "''AccountNotFound''"]
  by (simp add: cache_new_def sample_rpc_def sample_chain_def)

end
