(* ===== verification/Byreal_Venue.thy ===== *)
theory Byreal_Venue
  imports Clmm_State Bounds Account_Cache Swap_Route
begin

text \<open>
  The \<open>TradingVenue\<close> implementation of \<open>src/byreal_clmm/mod.rs\<close> on top of the CLMM core: the parser of
  pool creations, construction from an account, the two-phase state update through an
  \<open>AccountsCache\<close>, quotes, the bounds cache and swap instructions.  A \<open>&dyn AccountsCache\<close> is the
  function \<open>ga\<close> (its \<open>get_accounts\<close>) on a cache state; methods on \<open>&mut self\<close> return the state they leave
  behind together with their outcome.
\<close>

subsection \<open>Pool creations\<close>

definition CREATE_POOL_DISCRIMINATOR :: bytes where
  "CREATE_POOL_DISCRIMINATOR = [233, 146, 209, 142, 207, 104, 64, 188]"

definition CREATE_POOL_DECAY_FEE_DISCRIMINATOR :: bytes where
  "CREATE_POOL_DECAY_FEE_DISCRIMINATOR = [252, 154, 210, 191, 22, 217, 136, 252]"

definition CREATE_POOL_POOL_INDEX :: nat where "CREATE_POOL_POOL_INDEX = 4"
definition CREATE_POOL_TOKEN_MINT_0_INDEX :: nat where "CREATE_POOL_TOKEN_MINT_0_INDEX = 6"
definition CREATE_POOL_TOKEN_MINT_1_INDEX :: nat where "CREATE_POOL_TOKEN_MINT_1_INDEX = 7"

definition push_unique :: "pubkey \<Rightarrow> pubkey list \<Rightarrow> pubkey list" where
  "push_unique key keys = (if key \<in> set keys then keys else keys @ [key])"

definition starts_with_discriminator :: "bytes \<Rightarrow> bytes \<Rightarrow> bool" where
  "starts_with_discriminator data discriminator \<longleftrightarrow>
     length discriminator \<le> length data \<and> take (length discriminator) data = discriminator"

definition parse_pool_creation :: "ParsedInstruction \<Rightarrow> PoolCreation option" where
  "parse_pool_creation ins =
     (if pi_program_id ins \<noteq> BYREAL_CLMM_PROGRAM_ID then None
      else
        let is_create_pool = (starts_with_discriminator (pi_data ins) CREATE_POOL_DISCRIMINATOR
              \<or> starts_with_discriminator (pi_data ins) CREATE_POOL_DECAY_FEE_DISCRIMINATOR)
        in if \<not> is_create_pool \<or> length (pi_accounts ins) \<le> CREATE_POOL_TOKEN_MINT_1_INDEX then None
           else Some \<lparr>pc_protocol = ByrealClmm,
                      pc_pool = pi_accounts ins ! CREATE_POOL_POOL_INDEX,
                      pc_mints = [pi_accounts ins ! CREATE_POOL_TOKEN_MINT_0_INDEX,
                                  pi_accounts ins ! CREATE_POOL_TOKEN_MINT_1_INDEX]\<rparr>)"

definition parse_pool_creations :: "ParsedInstruction list \<Rightarrow> PoolCreation list" where
  "parse_pool_creations instructions = List.map_filter parse_pool_creation instructions"

subsection \<open>The venue\<close>

record 'x ByrealClmmVenue =
  bv_core :: "'x ClmmVenue"
  bv_token_info :: "TokenInfo list"
  bv_initialized :: bool
  bv_current_epoch :: u64
  bv_bounds_cache :: "(u64 \<times> u64) option list"

definition ensure_exact_in :: "QuoteRequest \<Rightarrow> unit venue_result" where
  "ensure_exact_in request = (if req_swap_type request \<noteq> ExactIn then Err ExactOutNotSupported else Ok ())"

definition base_token_info :: "'x ClmmVenue \<Rightarrow> TokenInfo list" where
  "base_token_info core =
     map (\<lambda>(mint, decimals). \<lparr>ti_pubkey = mint, ti_decimals = int (unat decimals), ti_is_token_2022 = False,
            ti_transfer_fee = None, ti_maximum_fee = None\<rparr>)
       (zip (token_mints core) (mint_decimals core))"

text \<open>The loop of \<open>fetch_account_map\<close>.\<close>

fun collect_accounts :: "(pubkey \<times> account option) list \<Rightarrow> account_map \<Rightarrow> account_map" where
  "collect_accounts [] m = m"
| "collect_accounts ((key, acc) # rest) m =
     collect_accounts rest (case acc of Some a \<Rightarrow> m(key \<mapsto> a) | None \<Rightarrow> m)"

definition fetch_account_map ::
  "('c \<Rightarrow> pubkey list \<Rightarrow> 'c \<times> account option list cache_result) \<Rightarrow> 'c \<Rightarrow> pubkey list \<Rightarrow> 'c \<times> account_map venue_result" where
  "fetch_account_map ga cache keys =
     (case ga cache keys of
        (cache', r) \<Rightarrow> (cache', and_then (map_err VenueAccountCacheError r) (\<lambda>accounts.
                                   Ok (collect_accounts (zip keys accounts) Map.empty))))"

text \<open>Only the epoch of the clock is used.\<close>

definition clock_from_account_map :: "'x clmm_lib \<Rightarrow> account_map \<Rightarrow> u64 venue_result" where
  "clock_from_account_map L account_map =
     and_then (ok_or (account_map (clock_id (lib_codec L))) (MissingState (EI_StaticStr ''sysvar clock''))) (\<lambda>clock_account.
       map_err (decode_failed ''sysvar clock'') (decode_Clock_epoch (lib_codec L) (acc_data clock_account)))"

text \<open>The loop of \<open>refresh_token_info\<close> over the mints and their decimals.\<close>

fun refresh_tokens :: "'x clmm_lib \<Rightarrow> account_map \<Rightarrow> u64 \<Rightarrow> (pubkey \<times> u8) list \<Rightarrow> TokenInfo list venue_result" where
  "refresh_tokens L account_map epoch [] = Ok []"
| "refresh_tokens L account_map epoch ((mint, decimals) # rest) =
     (case account_map mint of
        None \<Rightarrow> Err (MissingState (EI_Pubkey mint))
      | Some account_data \<Rightarrow>
          and_then
            (map_err (\<lambda>_. DeserializationFailed (EI_String (''failed to decode token mint '' @ show_pubkey (lib_codec L) mint)))
              (and_then (token_info_new (lib_spl (lib_codec L)) mint account_data epoch) (\<lambda>info.
                 Ok (if ti_decimals info < 0 then info\<lparr>ti_decimals := int (unat decimals)\<rparr> else info)))) (\<lambda>info.
          and_then (refresh_tokens L account_map epoch rest) (\<lambda>infos. Ok (info # infos))))"

definition refresh_token_info ::
  "'x clmm_lib \<Rightarrow> account_map \<Rightarrow> u64 \<Rightarrow> 'x ByrealClmmVenue \<Rightarrow> 'x ByrealClmmVenue \<times> unit venue_result" where
  "refresh_token_info L account_map epoch v =
     st_then (v, refresh_tokens L account_map epoch (zip (token_mints (bv_core v)) (mint_decimals (bv_core v))))
       (\<lambda>v token_info. (v\<lparr>bv_token_info := token_info\<rparr>, Ok ()))"

definition quote_for_bounds :: "'x clmm_lib \<Rightarrow> 'x ClmmVenue \<Rightarrow> pubkey \<Rightarrow> pubkey \<Rightarrow> u64 \<Rightarrow> QuoteResult venue_result" where
  "quote_for_bounds L core input_mint output_mint amount =
     and_then (core_quote L core \<lparr>req_input_mint = input_mint, req_output_mint = output_mint,
                                  req_amount = amount, req_swap_type = ExactIn\<rparr>) (\<lambda>quote.
       Ok \<lparr>res_input_mint = input_mint, res_output_mint = output_mint, res_amount = cq_in_amount quote,
           res_expected_output = cq_out_amount quote,
           res_not_enough_liquidity = cq_not_enough_liquidity quote, res_price = Fin 0\<rparr>)"

definition refresh_bounds_cache :: "'x clmm_lib \<Rightarrow> 'x ByrealClmmVenue \<Rightarrow> 'x ByrealClmmVenue \<times> unit venue_result" where
  "refresh_bounds_cache L v =
     (let mints = token_mints (bv_core v) in
      st_then (v, find_boundaries (quote_for_bounds L (bv_core v) (mints ! 0) (mints ! 1))) (\<lambda>v b0.
      st_then (v, find_boundaries (quote_for_bounds L (bv_core v) (mints ! 1) (mints ! 0))) (\<lambda>v b1.
        (v\<lparr>bv_bounds_cache := [Some b0, Some b1]\<rparr>, Ok ()))))"

definition bounds_cache_index_for_mints :: "'x ByrealClmmVenue \<Rightarrow> pubkey \<Rightarrow> pubkey \<Rightarrow> nat option" where
  "bounds_cache_index_for_mints v input output =
     (let mints = token_mints (bv_core v) in
      if input = mints ! 0 \<and> output = mints ! 1 then Some 0
      else if input = mints ! 1 \<and> output = mints ! 0 then Some 1
      else None)"

definition from_account :: "'x clmm_lib \<Rightarrow> pubkey \<Rightarrow> account \<Rightarrow> 'x ByrealClmmVenue venue_result" where
  "from_account L pubkey acc =
     (if acc_owner acc \<noteq> BYREAL_CLMM_PROGRAM_ID
      then Err (UnsupportedVenue (EI_String
             (''Byreal CLMM pool owner must be production program ''
              @ show_pubkey (lib_codec L) BYREAL_CLMM_PROGRAM_ID @ '', got ''
              @ show_pubkey (lib_codec L) (acc_owner acc))))
      else and_then (from_pool_state_account L pubkey (acc_owner acc) (acc_data acc)) (\<lambda>core.
             Ok \<lparr>bv_core = core, bv_token_info = base_token_info core, bv_initialized = False,
                 bv_current_epoch = 0, bv_bounds_cache = [None, None]\<rparr>))"

definition program_dependencies :: "'x ByrealClmmVenue \<Rightarrow> pubkey list" where
  "program_dependencies v = [cv_program_id (bv_core v)]"

definition with_mints :: "'x ClmmVenue \<Rightarrow> pubkey list \<Rightarrow> pubkey list" where
  "with_mints core keys = fold push_unique (token_mints core) keys"

definition get_required_pubkeys_for_update :: "'x clmm_lib \<Rightarrow> 'x ByrealClmmVenue \<Rightarrow> pubkey list venue_result" where
  "get_required_pubkeys_for_update L v = Ok (with_mints (bv_core v) (accounts_to_update L (bv_core v)))"

text \<open>\<open>self.core.update_state(..)?\<close> on the venue.\<close>

definition update_core ::
  "'x clmm_lib \<Rightarrow> account_map \<Rightarrow> 'x ByrealClmmVenue \<Rightarrow> 'x ByrealClmmVenue \<times> unit venue_result" where
  "update_core L accounts v =
     (case core_update_state L accounts (bv_core v) of (core', r) \<Rightarrow> (v\<lparr>bv_core := core'\<rparr>, r))"

text \<open>What follows the two account fetches of \<open>update_state\<close>.\<close>

definition finish_update ::
  "'x clmm_lib \<Rightarrow> account_map \<Rightarrow> 'x ByrealClmmVenue \<Rightarrow> 'x ByrealClmmVenue \<times> unit venue_result" where
  "finish_update L update_accounts v =
     st_then (update_core L update_accounts v) (\<lambda>v _.
     st_then (v, clock_from_account_map L update_accounts) (\<lambda>v epoch.
     st_then (refresh_token_info L update_accounts epoch (v\<lparr>bv_current_epoch := epoch\<rparr>)) (\<lambda>v _.
     st_then (refresh_bounds_cache L v) (\<lambda>v _.
       (v\<lparr>bv_initialized := True\<rparr>, Ok ())))))"

text \<open>A fetch and a method of the venue, on the venue together with the cache.\<close>

definition fetching ::
  "('c \<Rightarrow> pubkey list \<Rightarrow> 'c \<times> account option list cache_result) \<Rightarrow> pubkey list \<Rightarrow> 'v \<times> 'c
   \<Rightarrow> ('v \<times> 'c) \<times> account_map venue_result" where
  "fetching ga keys s = (case fetch_account_map ga (snd s) keys of (cache', r) \<Rightarrow> ((fst s, cache'), r))"

definition on_venue :: "('v \<Rightarrow> 'v \<times> 'a venue_result) \<Rightarrow> 'v \<times> 'c \<Rightarrow> ('v \<times> 'c) \<times> 'a venue_result" where
  "on_venue f s = (case f (fst s) of (v', r) \<Rightarrow> ((v', snd s), r))"

definition venue_update_state ::
  "'x clmm_lib \<Rightarrow> ('c \<Rightarrow> pubkey list \<Rightarrow> 'c \<times> account option list cache_result) \<Rightarrow> 'x ByrealClmmVenue \<Rightarrow> 'c
   \<Rightarrow> ('x ByrealClmmVenue \<times> 'c) \<times> unit venue_result" where
  "venue_update_state L ga v cache =
     st_then (fetching ga (with_mints (bv_core v) (base_accounts_to_update L (bv_core v))) (v, cache)) (\<lambda>s base_accounts.
     st_then (on_venue (update_core L base_accounts) s) (\<lambda>s _.
     st_then (fetching ga (with_mints (bv_core (fst s)) (accounts_to_update L (bv_core (fst s)))) s) (\<lambda>s update_accounts.
       on_venue (finish_update L update_accounts) s)))"

definition venue_quote :: "'x clmm_lib \<Rightarrow> 'x ByrealClmmVenue \<Rightarrow> QuoteRequest \<Rightarrow> QuoteResult venue_result" where
  "venue_quote L v request =
     (if \<not> bv_initialized v then Err (NotInitialized (EI_Pubkey (cv_market_id (bv_core v))))
      else
        and_then (ensure_exact_in request) (\<lambda>_.
          let upper_bound = Option.bind (bounds_cache_index_for_mints v (req_input_mint request) (req_output_mint request))
                (\<lambda>i. map_option snd (bv_bounds_cache v ! i))
          in
        and_then (quote_with_price_upper_bound L (bv_core v) request upper_bound) (\<lambda>quote.
          Ok \<lparr>res_input_mint = req_input_mint request, res_output_mint = req_output_mint request,
              res_amount = cq_in_amount quote, res_expected_output = cq_out_amount quote,
              res_not_enough_liquidity = cq_not_enough_liquidity quote,
              res_price = (if cq_not_enough_liquidity quote then Fin 0 else cq_price quote)\<rparr>)))"

definition venue_bounds :: "'x ByrealClmmVenue \<Rightarrow> u8 \<Rightarrow> u8 \<Rightarrow> (u64 \<times> u64) venue_result" where
  "venue_bounds v tkn_in_ind tkn_out_ind =
     (let cached = (\<lambda>i. ok_or (bv_bounds_cache v ! i)
            (BoundarySearchFailed (EI_StaticStr ''bounds cache missing; call update_state()'')))
      in if (tkn_in_ind, tkn_out_ind) = (0, 1) then cached 0
         else if (tkn_in_ind, tkn_out_ind) = (1, 0) then cached 1
         else
           and_then (get_token (bv_token_info v) (unat tkn_in_ind)) (\<lambda>_.
           and_then (get_token (bv_token_info v) (unat tkn_out_ind)) (\<lambda>_.
             Err (BoundarySearchFailed (EI_StaticStr ''Byreal CLMM supports only two-token directions'')))))"

definition generate_swap_instruction ::
  "'x clmm_lib \<Rightarrow> 'x ByrealClmmVenue \<Rightarrow> QuoteRequest \<Rightarrow> pubkey \<Rightarrow> instruction venue_result" where
  "generate_swap_instruction L v request user =
     (if \<not> bv_initialized v then Err (NotInitialized (EI_Pubkey (cv_market_id (bv_core v))))
      else if req_swap_type request \<noteq> ExactIn then Err ExactOutNotSupported
      else
        and_then (ok_or (find (\<lambda>t. ti_pubkey t = req_input_mint request) (bv_token_info v))
                   (InvalidMint (EI_Pubkey (req_input_mint request)))) (\<lambda>input_token.
        and_then (ok_or (find (\<lambda>t. ti_pubkey t = req_output_mint request) (bv_token_info v))
                   (InvalidMint (EI_Pubkey (req_output_mint request)))) (\<lambda>output_token.
          build_swap_instruction L (bv_core v)
            \<lparr>sb_user_authority = user, sb_source_mint = req_input_mint request,
             sb_destination_mint = req_output_mint request,
             sb_source_token_account = get_associated_token_address (lib_spl (lib_codec L)) input_token user,
             sb_destination_token_account = get_associated_token_address (lib_spl (lib_codec L)) output_token user,
             sb_amount = req_amount request, sb_other_amount_threshold = 0\<rparr>)))"

text \<open>The venue as the \<open>dyn TradingVenue\<close> the route builder sees.\<close>

definition byreal_obj :: "'x clmm_lib \<Rightarrow> 'x ByrealClmmVenue \<Rightarrow> venue_obj" where
  "byreal_obj L v = \<lparr>vo_protocol = ByrealClmm, vo_token_info = bv_token_info v,
     vo_program_id = cv_program_id (bv_core v),
     vo_generate_swap_instruction = generate_swap_instruction L v\<rparr>"

end
