(* ===== verification/Clmm_Nav_Properties.thy ===== *)
theory Clmm_Nav_Properties
  imports Clmm_Nav
begin

text \<open>
  Termination and results of the searches of \<open>Clmm_Nav\<close>.  What they need of the crate is the predicate
  \<open>advancing\<close>: a bitmap search goes strictly forward in the swap direction, except that the default
  bitmap may answer "not found" without moving.  The crate's functions take \<open>i32\<close> arguments and may wrap
  near its ends, so the laws speak of ticks at least one array width away from them and of array starts
  two widths away, and the lemmas show that the searches never leave this range.
\<close>

definition array_width :: "'x clmm_lib \<Rightarrow> 'x ClmmVenue \<Rightarrow> int" where
  "array_width L v = int (TICK_ARRAY_SIZE (lib_tick L)) * uint (spacing_of v)"

definition tick_fits :: "'x clmm_lib \<Rightarrow> 'x ClmmVenue \<Rightarrow> i32 \<Rightarrow> bool" where
  "tick_fits L v t \<longleftrightarrow> - (2 ^ 31) + array_width L v \<le> t \<and> t + array_width L v < 2 ^ 31"

definition start_fits :: "'x clmm_lib \<Rightarrow> 'x ClmmVenue \<Rightarrow> i32 \<Rightarrow> bool" where
  "start_fits L v s \<longleftrightarrow> - (2 ^ 31) + 2 * array_width L v \<le> s \<and> s + 2 * array_width L v < 2 ^ 31"

lemma array_width_nonneg [simp]: "0 \<le> array_width L v"
  by (simp add: array_width_def)

lemma start_tick_fits: "start_fits L v s \<Longrightarrow> tick_fits L v s"
  using array_width_nonneg [of L v] unfolding start_fits_def tick_fits_def by linarith

definition beyond :: "bool \<Rightarrow> i32 \<Rightarrow> i32 \<Rightarrow> bool" where
  "beyond zero_for_one a b \<longleftrightarrow> (if zero_for_one then b < a else a < b)"

lemma beyond_trans: "beyond z a b \<Longrightarrow> beyond z b c \<Longrightarrow> beyond z a c"
  by (auto simp: beyond_def split: if_splits)

lemma beyond_irrefl [simp]: "\<not> beyond z a a"
  by (simp add: beyond_def)

definition advancing :: "'x clmm_lib \<Rightarrow> 'x ClmmVenue \<Rightarrow> bool \<Rightarrow> bool" where
  "advancing L v z \<longleftrightarrow>
     (\<forall>t. start_fits L v t
        \<longrightarrow> returns (bitmap_next_initialized (lib_pool L) (pool_tick_array_bitmap (cv_pool_state v)) t (spacing_of v) z))
   \<and> (\<forall>t found s. start_fits L v t
        \<and> bitmap_next_initialized (lib_pool L) (pool_tick_array_bitmap (cv_pool_state v)) t (spacing_of v) z = Ok (found, s)
        \<longrightarrow> start_fits L v s \<and> (beyond z t s \<or> (\<not> found \<and> s = t)))
   \<and> (\<forall>ext t. cv_bitmap_extension v = Some ext \<and> start_fits L v t
        \<longrightarrow> returns (ext_next_initialized_from_one_bitmap (lib_pool L) ext t (spacing_of v) z)
          \<and> (\<forall>found s. ext_next_initialized_from_one_bitmap (lib_pool L) ext t (spacing_of v) z = Ok (found, s)
               \<longrightarrow> beyond z t s \<and> (found \<longrightarrow> start_fits L v s)))
   \<and> (\<forall>s. MIN_TICK (lib_pool L) \<le> s \<and> s \<le> MAX_TICK (lib_pool L) \<longrightarrow> start_fits L v s)"

lemma range_start_fits:
  "advancing L v z \<Longrightarrow> MIN_TICK (lib_pool L) \<le> s \<Longrightarrow> s \<le> MAX_TICK (lib_pool L) \<Longrightarrow> start_fits L v s"
  unfolding advancing_def by blast

subsection \<open>The next initialised array\<close>

lemma next_array_step_Inr:
  assumes "advancing L v z" and "start_fits L v prev" and "next_array_step L v z prev = Ok (Inr s)"
  shows "beyond z prev s" and "MIN_TICK (lib_pool L) \<le> s" and "s \<le> MAX_TICK (lib_pool L)" and "start_fits L v s"
proof -
  obtain f1 s1 where bm: "bitmap_next_initialized (lib_pool L) (pool_tick_array_bitmap (cv_pool_state v)) prev (spacing_of v) z = Ok (f1, s1)"
    using assms(3) by (auto simp: next_array_step_def outcome_simps)
  then obtain ext where ext: "cv_bitmap_extension v = Some ext" "\<not> f1"
      "ext_next_initialized_from_one_bitmap (lib_pool L) ext s1 (spacing_of v) z = Ok (False, s)"
    and range: "MIN_TICK (lib_pool L) \<le> s" "s \<le> MAX_TICK (lib_pool L)"
    using assms(3) by (auto simp: next_array_step_def outcome_simps split: if_split_asm)
  have s1: "start_fits L v s1" "beyond z prev s1 \<or> s1 = prev"
    using assms(1,2) bm unfolding advancing_def by blast+
  then have "beyond z s1 s"
    using assms(1) ext unfolding advancing_def by blast
  then show "beyond z prev s" and "MIN_TICK (lib_pool L) \<le> s" and "s \<le> MAX_TICK (lib_pool L)"
    using range s1(2) beyond_trans by blast+
  show "start_fits L v s"
    by (rule range_start_fits [OF assms(1) range])
qed

lemma next_array_step_Some:
  assumes "advancing L v z" and "start_fits L v prev" and "next_array_step L v z prev = Ok (Inl (Some s))"
  shows "beyond z prev s" and "start_fits L v s"
proof -
  obtain f1 s1 where bm: "bitmap_next_initialized (lib_pool L) (pool_tick_array_bitmap (cv_pool_state v)) prev (spacing_of v) z = Ok (f1, s1)"
    using assms(3) by (auto simp: next_array_step_def outcome_simps)
  have s1: "start_fits L v s1" and far: "beyond z prev s1 \<or> (\<not> f1 \<and> s1 = prev)"
    using assms(1,2) bm unfolding advancing_def by blast+
  have "beyond z prev s \<and> start_fits L v s"
  proof (cases f1)
    case True
    then show ?thesis
      using s1 far bm assms(3) by (simp add: next_array_step_def)
  next
    case False
    then obtain ext where "cv_bitmap_extension v = Some ext"
      "ext_next_initialized_from_one_bitmap (lib_pool L) ext s1 (spacing_of v) z = Ok (True, s)"
      using assms(3) bm by (auto simp: next_array_step_def outcome_simps split: if_split_asm)
    then have "beyond z s1 s" "start_fits L v s"
      using assms(1) s1 unfolding advancing_def by blast+
    then show ?thesis
      using far beyond_trans by blast
  qed
  then show "beyond z prev s" and "start_fits L v s" by simp_all
qed

lemma returns_next_array_step:
  assumes "advancing L v z" and "start_fits L v prev"
  shows "returns (next_array_step L v z prev)"
proof -
  have bm: "returns (bitmap_next_initialized (lib_pool L) (pool_tick_array_bitmap (cv_pool_state v)) prev (spacing_of v) z)"
    using assms unfolding advancing_def by blast
  have "returns (ext_next_initialized_from_one_bitmap (lib_pool L) ext s (spacing_of v) z)"
    if "bitmap_next_initialized (lib_pool L) (pool_tick_array_bitmap (cv_pool_state v)) prev (spacing_of v) z = Ok (f, s)" "cv_bitmap_extension v = Some ext" for f s ext
  proof -
    have "start_fits L v s"
      using assms that(1) unfolding advancing_def by blast
    then show ?thesis
      using assms(1) that(2) unfolding advancing_def by blast
  qed
  then show ?thesis
    using bm by (auto simp: next_array_step_def ok_or_Ok_iff split: prod.splits intro!: returns_intros)
qed

definition array_distance :: "'x clmm_lib \<Rightarrow> bool \<Rightarrow> i32 \<Rightarrow> nat" where
  "array_distance L z s = (if z then nat (s - MIN_TICK (lib_pool L) + 1) else nat (MAX_TICK (lib_pool L) - s + 1))"

lemma array_distance_decreases:
  "beyond z a b \<Longrightarrow> MIN_TICK (lib_pool L) \<le> b \<Longrightarrow> b \<le> MAX_TICK (lib_pool L) \<Longrightarrow> array_distance L z b < array_distance L z a"
  by (auto simp: beyond_def array_distance_def split: if_splits)

lemma returns_next_array:
  assumes "advancing L v z" and "start_fits L v (array_start L v prev)"
  shows "returns (next_initialized_tick_array_start_index L v prev z)"
  unfolding next_initialized_tick_array_start_index_def
proof (rule run_loop_returns [where P = "start_fits L v" and m = "array_distance L z"])
  show "start_fits L v (array_start L v prev)" by (rule assms(2))
next
  fix s assume "start_fits L v s"
  with assms(1) show "returns (next_array_step L v z s)" by (rule returns_next_array_step)
next
  fix s s' assume "start_fits L v s" "next_array_step L v z s = Ok (Inr s')"
  from next_array_step_Inr [OF assms(1) this] show "start_fits L v s' \<and> array_distance L z s' < array_distance L z s"
    using array_distance_decreases by blast
qed

lemma next_array_beyond:
  assumes "advancing L v z" and "start_fits L v (array_start L v prev)"
    and "next_initialized_tick_array_start_index L v prev z = Ok (Some s)"
  shows "beyond z (array_start L v prev) s" and "start_fits L v s"
proof -
  let ?b = "array_start L v prev"
  have "\<forall>s'. Some s = Some s' \<longrightarrow> beyond z ?b s' \<and> start_fits L v s'"
    using assms(3) unfolding next_initialized_tick_array_start_index_def
  proof (rule run_loop_invariant [where P = "\<lambda>t. start_fits L v t \<and> (t = ?b \<or> beyond z ?b t)"
        and Q = "\<lambda>r. \<forall>s'. r = Some s' \<longrightarrow> beyond z ?b s' \<and> start_fits L v s'"])
    show "start_fits L v ?b \<and> (?b = ?b \<or> beyond z ?b ?b)"
      using assms(2) by simp
    show "start_fits L v t' \<and> (t' = ?b \<or> beyond z ?b t')"
      if "start_fits L v t \<and> (t = ?b \<or> beyond z ?b t)" "next_array_step L v z t = Ok (Inr t')" for t t'
      using next_array_step_Inr(1,4) [OF assms(1) _ that(2)] that(1) beyond_trans by blast
    show "\<forall>s'. r = Some s' \<longrightarrow> beyond z ?b s' \<and> start_fits L v s'"
      if "start_fits L v t \<and> (t = ?b \<or> beyond z ?b t)" "next_array_step L v z t = Ok (Inl r)" for t r
      using next_array_step_Some [OF assms(1)] that beyond_trans by blast
  qed
  then show "beyond z ?b s" and "start_fits L v s" by blast+
qed

subsection \<open>The next initialised tick\<close>

definition loaded_starts :: "'x clmm_lib \<Rightarrow> 'x ClmmVenue \<Rightarrow> int set" where
  "loaded_starts L v = (\<lambda>(k, ta). start_tick_index (lib_tick L) ta) ` set (cv_dynamic_tick_arrays v)"

text \<open>What the search needs of the loaded arrays: aligned start indices, and lookups that return.\<close>

definition arrays_searchable :: "'x clmm_lib \<Rightarrow> 'x ClmmVenue \<Rightarrow> bool \<Rightarrow> bool" where
  "arrays_searchable L v z \<longleftrightarrow>
     (\<forall>(k, ta) \<in> set (cv_dynamic_tick_arrays v).
        array_start L v (start_tick_index (lib_tick L) ta) = start_tick_index (lib_tick L) ta
        \<and> start_fits L v (start_tick_index (lib_tick L) ta)
        \<and> (\<forall>t. tick_fits L v t \<longrightarrow> returns (next_initialized_tick (lib_tick L) ta t (spacing_of v) z))
        \<and> returns (first_initialized_tick (lib_tick L) ta z))"

lemma loaded_tick_array_Some:
  assumes "loaded_tick_array_by_start_index L v s = Some ta"
  shows "\<exists>k. (k, ta) \<in> set (cv_dynamic_tick_arrays v)" and "start_tick_index (lib_tick L) ta = s"
    and "s \<in> loaded_starts L v"
proof -
  have "ta \<in> snd ` set (cv_dynamic_tick_arrays v) \<and> start_tick_index (lib_tick L) ta = s"
    using assms by (auto simp: loaded_tick_array_by_start_index_def find_Some_iff set_conv_nth)
  then show "\<exists>k. (k, ta) \<in> set (cv_dynamic_tick_arrays v)" "start_tick_index (lib_tick L) ta = s"
    "s \<in> loaded_starts L v"
    by (force simp: loaded_starts_def)+
qed

definition arrays_ahead :: "'x clmm_lib \<Rightarrow> 'x ClmmVenue \<Rightarrow> bool \<Rightarrow> i32 \<Rightarrow> nat" where
  "arrays_ahead L v z s = card {t \<in> loaded_starts L v. beyond z s t}"

lemma arrays_ahead_decreases:
  assumes "beyond z a b" and "b \<in> loaded_starts L v"
  shows "arrays_ahead L v z b < arrays_ahead L v z a"
  unfolding arrays_ahead_def
proof (rule psubset_card_mono)
  show "finite {t \<in> loaded_starts L v. beyond z a t}"
    by (simp add: loaded_starts_def)
  show "{t \<in> loaded_starts L v. beyond z b t} \<subset> {t \<in> loaded_starts L v. beyond z a t}"
  proof
    show "{t \<in> loaded_starts L v. beyond z b t} \<subseteq> {t \<in> loaded_starts L v. beyond z a t}"
      using beyond_trans [OF assms(1)] by blast
    have "b \<in> {t \<in> loaded_starts L v. beyond z a t}" "b \<notin> {t \<in> loaded_starts L v. beyond z b t}"
      using assms by simp_all
    then show "{t \<in> loaded_starts L v. beyond z b t} \<noteq> {t \<in> loaded_starts L v. beyond z a t}"
      by blast
  qed
qed

lemma loaded_array_start:
  assumes "arrays_searchable L v z" and "loaded_tick_array_by_start_index L v s = Some ta"
  shows "array_start L v s = s" and "start_fits L v s"
    and "tick_fits L v t \<Longrightarrow> returns (next_initialized_tick (lib_tick L) ta t (spacing_of v) z)"
    and "returns (first_initialized_tick (lib_tick L) ta z)"
  using loaded_tick_array_Some(1,2) [OF assms(2)] assms(1) unfolding arrays_searchable_def by fastforce+

lemma returns_nav_step:
  assumes "advancing L v z" and "arrays_searchable L v z" and "tick_fits L v t"
  shows "returns (nav_step L v t z nav)"
proof -
  note ta = loaded_array_start [OF assms(2)]
  have nxt: "returns (next_initialized_tick_array_start_index L v s z)"
    if "loaded_tick_array_by_start_index L v s = Some ta" for s ta
    using returns_next_array [OF assms(1)] ta(1,2) [OF that] by simp
  show ?thesis
    unfolding nav_step_def Let_def
    by (auto intro!: returns_intros simp: ok_or_Ok_iff ta(3,4) assms(3) nxt split: option.splits)
qed

lemma nav_step_Inr:
  assumes "advancing L v z" and "arrays_searchable L v z" and "nav_step L v t z nav = Ok (Inr nav')"
  shows "beyond z (nav_current_valid_tick_array_start_index nav) (nav_current_valid_tick_array_start_index nav')
    \<and> nav_current_valid_tick_array_start_index nav' \<in> loaded_starts L v"
proof -
  let ?s = "nav_current_valid_tick_array_start_index nav"
  obtain ta s' ta' where ta: "loaded_tick_array_by_start_index L v ?s = Some ta"
    and nxt: "next_initialized_tick_array_start_index L v ?s z = Ok (Some s')"
    and ta': "loaded_tick_array_by_start_index L v s' = Some ta'"
    and nav': "nav_current_valid_tick_array_start_index nav' = s'"
    using assms(3)
    by (auto simp: nav_step_def Let_def outcome_simps split: option.split_asm if_split_asm)
  show ?thesis
    using next_array_beyond(1) [OF assms(1) _ nxt] loaded_array_start(1,2) [OF assms(2) ta] loaded_tick_array_Some(3) [OF ta'] nav'
    by simp
qed

lemma returns_find_next_tick:
  assumes "advancing L v z" and "arrays_searchable L v z" and "tick_fits L v t"
  shows "returns (find_next_initialized_tick_with_nav L v t z nav)"
  unfolding find_next_initialized_tick_with_nav_def
  by (rule run_loop_returns [where P = "\<lambda>_. True"
        and m = "\<lambda>nav. arrays_ahead L v z (nav_current_valid_tick_array_start_index nav)"])
    (use returns_nav_step [OF assms] nav_step_Inr [OF assms(1,2)] arrays_ahead_decreases in \<open>blast+\<close>)

subsection \<open>The arrays of a swap\<close>

lemma collect_live_Ok:
  assumes "collect_live L v live addrs = Ok res"
  shows "res = live @ filter (\<lambda>a. map_of (cv_dynamic_tick_arrays v) a \<noteq> None) addrs
    \<and> (live = [] \<longrightarrow> addrs \<noteq> [] \<longrightarrow> map_of (cv_dynamic_tick_arrays v) (hd addrs) \<noteq> None)"
  using assms
proof (induction addrs arbitrary: live)
  case (Cons a addrs)
  show ?case
  proof (cases "map_of (cv_dynamic_tick_arrays v) a")
    case None
    then show ?thesis
      using Cons by (auto split: if_splits)
  next
    case (Some ta)
    then show ?thesis
      using Cons.prems Cons.IH [of "live @ [a]"] by simp
  qed
qed simp

lemma length_follow_arrays: "length (follow_arrays L v z n s) \<le> n"
  by (induction n arbitrary: s) (auto split: sum.splits option.splits)

lemma swap_starts_length:
  "swap_tick_array_starts L v z \<noteq> [] \<and> length (swap_tick_array_starts L v z) \<le> max 1 (cv_max_one_side_tick_arrays v)"
proof (cases "pool_get_first_initialized_tick_array (lib_pool L) (cv_pool_state v) (cv_bitmap_extension v) z")
  case (Inl e)
  then show ?thesis
    by (simp add: swap_tick_array_starts_def Let_def)
next
  case (Inr r)
  obtain b s where "r = (b, s)"
    by fastforce
  moreover have "length (follow_arrays L v z (cv_max_one_side_tick_arrays v - 1) s) \<le> cv_max_one_side_tick_arrays v - 1"
    by (rule length_follow_arrays)
  ultimately show ?thesis
    using Inr by (simp add: swap_tick_array_starts_def)
qed

lemma live_arrays_Ok:
  assumes "live_directional_tick_arrays L v z = Ok live"
  shows "live = filter (\<lambda>a. map_of (cv_dynamic_tick_arrays v) a \<noteq> None) (get_swap_tick_arrays L v z)
    \<and> live \<noteq> [] \<and> hd live = hd (get_swap_tick_arrays L v z)
    \<and> length live \<le> max 1 (cv_max_one_side_tick_arrays v)"
proof -
  have ne: "get_swap_tick_arrays L v z \<noteq> []"
    using swap_starts_length [of L v z] by (simp add: get_swap_tick_arrays_def)
  have ok: "collect_live L v [] (get_swap_tick_arrays L v z) = Ok live"
    using assms by (auto simp: live_directional_tick_arrays_def outcome_simps split: if_splits)
  then have live: "live = filter (\<lambda>a. map_of (cv_dynamic_tick_arrays v) a \<noteq> None) (get_swap_tick_arrays L v z)"
    and first: "map_of (cv_dynamic_tick_arrays v) (hd (get_swap_tick_arrays L v z)) \<noteq> None"
    using collect_live_Ok [OF ok] ne by auto
  then have "live \<noteq> [] \<and> hd live = hd (get_swap_tick_arrays L v z)"
    using ne by (cases "get_swap_tick_arrays L v z") auto
  moreover have "length live \<le> length (get_swap_tick_arrays L v z)"
    unfolding live by (rule length_filter_le)
  moreover have "length (get_swap_tick_arrays L v z) \<le> max 1 (cv_max_one_side_tick_arrays v)"
    using swap_starts_length [of L v z] by (simp add: get_swap_tick_arrays_def)
  ultimately show ?thesis
    using live by linarith
qed

end
