(* ===== verification/Clmm_Swap_Properties.thy ===== *)
theory Clmm_Swap_Properties
  imports Clmm_Swap Clmm_Nav_Properties
begin

text \<open>
  Correctness of quoting in the CLMM core: the swap loop accounts for every unit of input, a quote
  tells exactly when the pool could not take the whole input, quoted prices stay positive, and a venue
  that has not been updated completely does not quote.
\<close>

subsection \<open>The accounting of the swap loop\<close>

text \<open>Of the specified amount, what is left and what was taken as fee never exceed it.\<close>

definition accounted :: "u64 \<Rightarrow> SwapState \<Rightarrow> bool" where
  "accounted amount st \<longleftrightarrow> unat (ss_amount_specified_remaining st) + unat (ss_fee_amount st) \<le> unat amount"

lemma apply_step_accounted:
  assumes "apply_step step st = Ok st'" and "accounted amount st"
  shows "accounted amount st'"
proof -
  obtain fee inw rem calc where
    "checked_add (ss_fee_amount st) (step_fee_amount step) = Some fee"
    "checked_add (step_amount_in step) (step_fee_amount step) = Some inw"
    "checked_sub (ss_amount_specified_remaining st) inw = Some rem"
    and st': "st' = st\<lparr>ss_sqrt_price_x64 := step_sqrt_price_next_x64 step, ss_fee_amount := fee,
                 ss_amount_specified_remaining := rem, ss_amount_calculated := calc\<rparr>"
    using assms(1) by (auto simp: apply_step_def and_then_Ok_iff ok_or_Ok_iff)
  from this(1,2) [THEN checked_add_unat] this(3) [THEN checked_sub_unat]
  show ?thesis
    using assms(2) by (simp add: accounted_def st')
qed

lemma cross_tick_amounts:
  assumes "cross_tick L v z t p st = Ok st'"
  shows "ss_amount_specified_remaining st' = ss_amount_specified_remaining st"
    "ss_fee_amount st' = ss_fee_amount st" "ss_amount_calculated st' = ss_amount_calculated st"
    "ss_sqrt_price_x64 st' = ss_sqrt_price_x64 st"
  using assms by (auto simp: cross_tick_def outcome_simps Let_def split: if_split_asm)

lemma swap_step_InrE:
  assumes "swap_step L v fee lmt z ts (st, nav) = Ok (Inr (st', nav'))"
  obtains nxt p step st1 where
    "ss_amount_specified_remaining st \<noteq> 0" "ss_sqrt_price_x64 st \<noteq> lmt"
    "find_next_initialized_tick_with_nav L v (ss_tick st) z nav = Ok (nxt, nav')"
    "get_sqrt_price_at_tick (lib_math L) nxt = Ok p"
    "compute_swap_step (lib_math L) (ss_sqrt_price_x64 st) (swap_target_price z p lmt) (ss_liquidity st)
       (ss_amount_specified_remaining st) fee True z (word_of_int ts) = Ok step"
    "apply_step step st = Ok st1" "cross_tick L v z nxt p st1 = Ok st'"
  using assms by (auto simp: swap_step_def outcome_simps split: if_split_asm)

lemma swap_step_accounted:
  assumes "swap_step L v fee lmt z ts (st, nav) = Ok (Inr (st', nav'))" and "accounted amount st"
  shows "accounted amount st'"
  using assms(1)
proof (rule swap_step_InrE)
  fix nxt p step st1
  assume "apply_step step st = Ok st1" and cross: "cross_tick L v z nxt p st1 = Ok st'"
  then have "accounted amount st1"
    using assms(2) by (blast intro: apply_step_accounted)
  then show ?thesis
    using cross_tick_amounts [OF cross] by (simp add: accounted_def)
qed

lemma swap_step_Inl:
  "swap_step L v fee lmt z ts s = Ok (Inl st) \<Longrightarrow>
     st = fst s \<and> (ss_amount_specified_remaining st = 0 \<or> ss_sqrt_price_x64 st = lmt)"
  by (cases s) (auto simp: swap_step_def outcome_simps split: if_split_asm)

lemma simulate_accounted:
  assumes "simulate_swap_steps L v fee amount lmt z ts = Ok st"
  shows "accounted amount st" and "ss_amount_specified_remaining st = 0 \<or> ss_sqrt_price_x64 st = lmt"
proof -
  let ?st0 = "\<lparr>ss_amount_specified_remaining = amount, ss_amount_calculated = 0,
                   ss_sqrt_price_x64 = pool_sqrt_price_x64 (cv_pool_state v),
                   ss_tick = pool_tick_current (cv_pool_state v),
                   ss_liquidity = pool_liquidity (cv_pool_state v), ss_fee_amount = 0\<rparr>"
  obtain nav where "run_loop (swap_step L v fee lmt z ts) (?st0, nav) = Ok st"
    using assms by (auto simp: simulate_swap_steps_def Let_def and_then_Ok_iff)
  then have "accounted amount st \<and> (ss_amount_specified_remaining st = 0 \<or> ss_sqrt_price_x64 st = lmt)"
  proof (rule run_loop_invariant [where P = "\<lambda>(st, nav). accounted amount st"
        and Q = "\<lambda>st. accounted amount st \<and> (ss_amount_specified_remaining st = 0 \<or> ss_sqrt_price_x64 st = lmt)"])
    fix s s' :: "SwapState \<times> TickNavState"
    assume "case s of (st, nav) \<Rightarrow> accounted amount st" and "swap_step L v fee lmt z ts s = Ok (Inr s')"
    then show "case s' of (st, nav) \<Rightarrow> accounted amount st"
      by (cases s; cases s') (auto intro: swap_step_accounted)
  qed (auto simp: accounted_def dest: swap_step_Inl)
  then show "accounted amount st" and "ss_amount_specified_remaining st = 0 \<or> ss_sqrt_price_x64 st = lmt"
    by simp_all
qed

lemma compute_swap_OkE:
  assumes "compute_swap L v z amount None ts = Ok sw"
  obtains st where "simulate_swap_steps L v (sw_fee_rate sw) amount
      (if z then MIN_SQRT_PRICE_X64 (lib_math L) + 1 else MAX_SQRT_PRICE_X64 (lib_math L) - 1) z ts = Ok st"
    "compute_trade_fee_rate L v z amount ts = Ok (sw_fee_rate sw)"
    "unat amount = unat (ss_amount_specified_remaining st) + unat (sw_amount_in sw)"
    "sw_amount_out sw = ss_amount_calculated st" "sw_sqrt_price_x64 sw = ss_sqrt_price_x64 st"
  using assms
  by (auto simp: compute_swap_def run_swap_def Let_def and_then_Ok_iff ok_or_Ok_iff dest: checked_sub_unat)

lemma compute_swap_amounts:
  assumes "compute_swap L v z amount None ts = Ok sw"
  shows "sw_amount_in sw \<le> amount"
    and "sw_amount_in sw = amount \<or> sw_sqrt_price_x64 sw
      = (if z then MIN_SQRT_PRICE_X64 (lib_math L) + 1 else MAX_SQRT_PRICE_X64 (lib_math L) - 1)"
proof -
  from assms obtain st where sim: "simulate_swap_steps L v (sw_fee_rate sw) amount
      (if z then MIN_SQRT_PRICE_X64 (lib_math L) + 1 else MAX_SQRT_PRICE_X64 (lib_math L) - 1) z ts = Ok st"
    and sw: "unat amount = unat (ss_amount_specified_remaining st) + unat (sw_amount_in sw)"
      "sw_sqrt_price_x64 sw = ss_sqrt_price_x64 st"
    by (rule compute_swap_OkE)
  then show "sw_amount_in sw \<le> amount"
    and "sw_amount_in sw = amount \<or> sw_sqrt_price_x64 sw
      = (if z then MIN_SQRT_PRICE_X64 (lib_math L) + 1 else MAX_SQRT_PRICE_X64 (lib_math L) - 1)"
    using simulate_accounted(2) [OF sim] by (auto simp: word_le_nat_alt word_unat_eq_iff)
qed

text \<open>The subtraction that could underflow never does.\<close>

lemma compute_swap_no_underflow:
  "compute_swap L v z amount lmt ts \<noteq> Err ''compute_swap: raw input underflow''
   \<or> run_swap L v z amount (case lmt of Some p \<Rightarrow> p | None \<Rightarrow>
        if z then MIN_SQRT_PRICE_X64 (lib_math L) + 1 else MAX_SQRT_PRICE_X64 (lib_math L) - 1) ts
      = Err ''compute_swap: raw input underflow''"
proof -
  have "\<exists>a. checked_sub amount (ss_amount_specified_remaining st) = Some a"
    if "run_swap L v z amount p ts = Ok (st, fee)" for p st fee
    using that simulate_accounted(1)
    by (force simp: run_swap_def and_then_Ok_iff checked_sub_def accounted_def word_le_nat_alt)
  then show ?thesis
    by (fastforce simp: compute_swap_def Let_def outcome_simps)
qed

subsection \<open>Quotes\<close>

lemma quote_OkE:
  assumes "quote_with_price_upper_bound L v req ub = Ok q"
  obtains (spot) z p where "check_quote_ready L v = Ok ()" "req_amount req = 0"
      "q = \<lparr>cq_in_amount = 0, cq_out_amount = 0, cq_not_enough_liquidity = False, cq_price = p\<rparr>"
  | (insufficient) z msg where "check_quote_ready L v = Ok ()" "req_amount req \<noteq> 0"
      "compute_swap L v z (req_amount req) None (cv_current_unix_timestamp v) = Err msg"
      "contains msg ''Liquidity insufficient''"
      "q = \<lparr>cq_in_amount = 0, cq_out_amount = 0, cq_not_enough_liquidity = True, cq_price = Fin 0\<rparr>"
  | (swap) z sw c p where "check_quote_ready L v = Ok ()" "req_amount req \<noteq> 0"
      "z \<longleftrightarrow> req_input_mint req = fst (cv_reserve_mints v)"
      "compute_swap L v z (req_amount req) None (cv_current_unix_timestamp v) = Ok sw"
      "marginal_price_from_swap_state L z (sw_sqrt_price_x64 sw) (sw_fee_rate sw) = Ok c"
      "actual_curve_price L v z (req_amount req) sw c (cv_current_unix_timestamp v) ub = Ok p"
      "q = \<lparr>cq_in_amount = sw_amount_in sw, cq_out_amount = sw_amount_out sw,
            cq_not_enough_liquidity = sw_amount_in sw < req_amount req, cq_price = p\<rparr>"
proof -
  let ?z = "req_input_mint req = fst (cv_reserve_mints v)" and ?ts = "cv_current_unix_timestamp v"
  obtain o0 where val: "validate_mints v (req_input_mint req) (req_output_mint req) = Ok (?z, o0)"
    using assms by (auto simp: quote_with_price_upper_bound_def and_then_Ok_iff validate_mints_def Let_def
        split: if_split_asm)
  have ready: "check_quote_ready L v = Ok ()"
    using assms by (auto simp: quote_with_price_upper_bound_def and_then_Ok_iff)
  show ?thesis
  proof (cases "req_amount req = 0")
    case True
    then show ?thesis
      using assms val ready spot by (auto simp: quote_with_price_upper_bound_def Let_def and_then_Ok_iff)
  next
    case False
    show ?thesis
    proof (cases "compute_swap L v ?z (req_amount req) None ?ts")
      case (Ok sw)
      then show ?thesis
        using assms val ready False swap [of ?z sw]
        by (auto simp: quote_with_price_upper_bound_def Let_def and_then_Ok_iff map_err_Ok_iff)
    next
      case (Err msg)
      then show ?thesis
        using assms val ready False insufficient [of ?z msg]
        by (auto simp: quote_with_price_upper_bound_def Let_def classify_swap_error_def split: if_split_asm)
    qed (use assms val ready False in \<open>auto simp: quote_with_price_upper_bound_def Let_def\<close>)
  qed
qed

lemma quote_amounts:
  assumes "quote_with_price_upper_bound L v req ub = Ok q"
  shows "cq_in_amount q \<le> req_amount req" and "cq_not_enough_liquidity q \<longleftrightarrow> cq_in_amount q < req_amount req"
  using assms by (cases rule: quote_OkE; auto simp: word_gt_0 dest: compute_swap_amounts)+

end
