(* ===== verification/Clmm_State_Properties.thy ===== *)
theory Clmm_State_Properties
  imports Clmm_State Clmm_Swap_Properties
begin

text \<open>
  What a state update of the CLMM core does.  \<open>loaded L A v v'\<close> is the abstract specification of a
  successful update: every field of \<open>v'\<close> is determined by the accounts \<open>A\<close> and by the identity of the
  venue.  \<open>core_update_iff\<close> shows that \<open>update_state\<close> implements it; the further lemmas are consequences:
  what an update keeps even when it fails, and that it forgets the state it started from.
\<close>

subsection \<open>The addresses depend on part of the state only\<close>

lemma follow_arrays_cong:
  "cv_pool_state v = cv_pool_state w \<Longrightarrow> cv_bitmap_extension v = cv_bitmap_extension w \<Longrightarrow>
     follow_arrays L v z n s = follow_arrays L w z n s"
  by (induction n arbitrary: s) (auto split: sum.splits option.splits)

lemma all_addresses_cong:
  assumes "cv_pool_state v = cv_pool_state w" and "cv_bitmap_extension v = cv_bitmap_extension w"
    and "cv_max_one_side_tick_arrays v = cv_max_one_side_tick_arrays w"
    and "cv_market_id v = cv_market_id w" and "cv_program_id v = cv_program_id w"
  shows "get_all_tick_array_addresses L v = get_all_tick_array_addresses L w"
proof -
  have "collect_dir L v z n xs = collect_dir L w z n xs" for z n xs
    using assms(1,2) follow_arrays_cong [OF assms(1,2)]
    by (simp add: collect_dir_def split: sum.splits)
  moreover have "fallback_offset L v = fallback_offset L w"
    using assms(1) by (simp add: fallback_offset_def fun_eq_iff)
  ultimately have "all_tick_array_starts L v = all_tick_array_starts L w"
    using assms by (simp only: all_tick_array_starts_def)
  moreover have "get_tick_array_address L v = get_tick_array_address L w"
    using assms by (simp add: get_tick_array_address_def fun_eq_iff)
  ultimately show ?thesis
    by (simp add: get_all_tick_array_addresses_def)
qed

lemmas address_defs = tick_array_bitmap_extension_key_def token0_pyth_oracle_pubkey_def token1_pyth_oracle_pubkey_def
  venue_dynamic_fee_enabled_def

subsection \<open>The specification of an update\<close>

definition pool_loaded :: "'x clmm_lib \<Rightarrow> account_map \<Rightarrow> 'x ClmmVenue \<Rightarrow> 'x PoolState \<Rightarrow> pubkey \<times> pubkey \<Rightarrow> bool" where
  "pool_loaded L A v p mints \<longleftrightarrow>
     (case A (cv_market_id v) of
        None \<Rightarrow> p = cv_pool_state v \<and> mints = cv_reserve_mints v
      | Some acc \<Rightarrow> acc_owner acc = cv_program_id v \<and> decode_PoolState (lib_codec L) (acc_data acc) = Ok p
          \<and> mints = (pool_token_mint_0 p, pool_token_mint_1 p))"

definition config_loaded :: "'x clmm_lib \<Rightarrow> account_map \<Rightarrow> pubkey \<Rightarrow> 'x option \<Rightarrow> bool" where
  "config_loaded L A key cfg \<longleftrightarrow>
     (case A key of
        None \<Rightarrow> cfg = None
      | Some acc \<Rightarrow> \<exists>c. decode_AmmConfig (lib_codec L) (acc_data acc) = Ok c \<and> cfg = Some c)"

definition extension_loaded :: "'x clmm_lib \<Rightarrow> account_map \<Rightarrow> pubkey \<Rightarrow> 'x option \<Rightarrow> bool" where
  "extension_loaded L A key ext \<longleftrightarrow>
     (case A key of
        None \<Rightarrow> ext = None
      | Some acc \<Rightarrow> result_ok (decode_TickArrayBitmapExtension (lib_codec L) (acc_data acc)) = (Ok ext :: 'x option venue_result))"

definition vault_loaded :: "'x clmm_lib \<Rightarrow> account_map \<Rightarrow> string \<Rightarrow> pubkey \<Rightarrow> u64 \<Rightarrow> pubkey \<Rightarrow> bool" where
  "vault_loaded L A name key amount owner \<longleftrightarrow>
     (case A key of
        None \<Rightarrow> amount = 0 \<and> owner = ZERO_PUBKEY
      | Some acc \<Rightarrow> decode_vault_amount L (acc_owner acc) (acc_data acc) name = Ok amount \<and> owner = acc_owner acc)"

definition oracles_loaded :: "'x clmm_lib \<Rightarrow> account_map \<Rightarrow> 'x ClmmVenue \<Rightarrow> bool" where
  "oracles_loaded L A v \<longleftrightarrow>
     (if venue_dynamic_fee_enabled L v
      then cv_token0_program_id v \<noteq> ZERO_PUBKEY \<and> cv_token1_program_id v \<noteq> ZERO_PUBKEY
         \<and> (\<exists>k0 k1 p0 p1. token0_pyth_oracle_pubkey L v = Some k0 \<and> token1_pyth_oracle_pubkey L v = Some k1
             \<and> load_oracle L A ''token0'' k0 (pool_token0_pyth_feed_id (cv_pool_state v)) = Ok p0
             \<and> load_oracle L A ''token1'' k1 (pool_token1_pyth_feed_id (cv_pool_state v)) = Ok p1
             \<and> cv_token0_pyth_oracle_data v = Some p0 \<and> cv_token1_pyth_oracle_data v = Some p1)
      else cv_token0_pyth_oracle_data v = None \<and> cv_token1_pyth_oracle_data v = None)"

definition loaded :: "'x clmm_lib \<Rightarrow> account_map \<Rightarrow> 'x ClmmVenue \<Rightarrow> 'x ClmmVenue \<Rightarrow> bool" where
  "loaded L A v v' \<longleftrightarrow>
     cv_market_id v' = cv_market_id v \<and> cv_program_id v' = cv_program_id v
   \<and> cv_max_one_side_tick_arrays v' = cv_max_one_side_tick_arrays v
   \<and> (\<exists>acc. A (clock_id (lib_codec L)) = Some acc
        \<and> decode_Clock_unix_timestamp (lib_codec L) (acc_data acc) = Ok (cv_current_unix_timestamp v'))
   \<and> pool_loaded L A v (cv_pool_state v') (cv_reserve_mints v')
   \<and> config_loaded L A (pool_amm_config (cv_pool_state v')) (cv_amm_config v')
   \<and> vault_loaded L A ''token0 vault'' (pool_token_vault_0 (cv_pool_state v')) (cv_token0_vault_amount v') (cv_token0_program_id v')
   \<and> vault_loaded L A ''token1 vault'' (pool_token_vault_1 (cv_pool_state v')) (cv_token1_vault_amount v') (cv_token1_program_id v')
   \<and> oracles_loaded L A v'
   \<and> extension_loaded L A (tick_array_bitmap_extension_key L v') (cv_bitmap_extension v')
   \<and> cv_dynamic_tick_arrays v' = load_tick_arrays L A (get_all_tick_array_addresses L v') []"

subsection \<open>The steps of an update\<close>

lemma load_clock_iff:
  "load_clock L A v = (v', Ok ()) \<longleftrightarrow>
     (\<exists>acc t. A (clock_id (lib_codec L)) = Some acc \<and> decode_Clock_unix_timestamp (lib_codec L) (acc_data acc) = Ok t
        \<and> v' = v\<lparr>cv_current_unix_timestamp := t\<rparr>)"
  by (auto simp: load_clock_def outcome_simps split: option.splits)

lemma update_pool_iff:
  "update_pool L A v = (v', Ok ()) \<longleftrightarrow>
     (\<exists>p mints. pool_loaded L A v p mints \<and> v' = v\<lparr>cv_pool_state := p, cv_reserve_mints := mints\<rparr>)"
  by (cases "A (cv_market_id v)") (auto simp: update_pool_def pool_loaded_def outcome_simps simp del: split_paired_Ex)

lemma update_amm_config_iff:
  "update_amm_config L A v = (v', Ok ()) \<longleftrightarrow>
     (\<exists>cfg. config_loaded L A (pool_amm_config (cv_pool_state v)) cfg \<and> v' = v\<lparr>cv_amm_config := cfg\<rparr>)"
  by (auto simp: update_amm_config_def config_loaded_def outcome_simps split: option.splits)

lemma update_vaults_iff:
  "update_vaults L A v = (v', Ok ()) \<longleftrightarrow>
     (\<exists>a0 o0 a1 o1. vault_loaded L A ''token0 vault'' (pool_token_vault_0 (cv_pool_state v)) a0 o0
        \<and> vault_loaded L A ''token1 vault'' (pool_token_vault_1 (cv_pool_state v)) a1 o1
        \<and> v' = v\<lparr>cv_token0_vault_amount := a0, cv_token0_program_id := o0,
                 cv_token1_vault_amount := a1, cv_token1_program_id := o1\<rparr>)"
  by (auto simp: update_vaults_def vault_loaded_def outcome_simps split: option.splits)

lemma update_oracles_iff:
  "update_oracles L A v = (v', Ok ()) \<longleftrightarrow>
     (\<exists>p0 p1. v' = v\<lparr>cv_token0_pyth_oracle_data := p0, cv_token1_pyth_oracle_data := p1\<rparr> \<and> oracles_loaded L A v')"
proof (cases "venue_dynamic_fee_enabled L v")
  case False
  then show ?thesis
    by (auto simp: update_oracles_def oracles_loaded_def venue_dynamic_fee_enabled_def)
next
  case True
  have same: "token0_pyth_oracle_pubkey L (v\<lparr>cv_token0_pyth_oracle_data := p0, cv_token1_pyth_oracle_data := p1\<rparr>) = token0_pyth_oracle_pubkey L v"
    "token1_pyth_oracle_pubkey L (v\<lparr>cv_token0_pyth_oracle_data := p0, cv_token1_pyth_oracle_data := p1\<rparr>) = token1_pyth_oracle_pubkey L v"
    "venue_dynamic_fee_enabled L (v\<lparr>cv_token0_pyth_oracle_data := p0, cv_token1_pyth_oracle_data := p1\<rparr>)" for p0 p1
    using True by (simp_all add: address_defs)
  show ?thesis
  proof (cases "cv_token0_program_id v = ZERO_PUBKEY \<or> cv_token1_program_id v = ZERO_PUBKEY")
    case no_vaults: True
    then show ?thesis
      using True by (auto simp: update_oracles_def oracles_loaded_def same)
  next
    case False
    then have spec: "oracles_loaded L A (v\<lparr>cv_token0_pyth_oracle_data := q0, cv_token1_pyth_oracle_data := q1\<rparr>) \<longleftrightarrow>
      (\<exists>k0 k1 p0 p1. token0_pyth_oracle_pubkey L v = Some k0 \<and> token1_pyth_oracle_pubkey L v = Some k1
         \<and> load_oracle L A ''token0'' k0 (pool_token0_pyth_feed_id (cv_pool_state v)) = Ok p0
         \<and> load_oracle L A ''token1'' k1 (pool_token1_pyth_feed_id (cv_pool_state v)) = Ok p1
         \<and> q0 = Some p0 \<and> q1 = Some p1)" for q0 q1
      unfolding oracles_loaded_def same by (simp add: same)
    show ?thesis
    proof (cases "token0_pyth_oracle_pubkey L v = None \<or> token1_pyth_oracle_pubkey L v = None")
      case True
      then have "update_oracles L A v \<noteq> (v', Ok ())"
        using \<open>venue_dynamic_fee_enabled L v\<close> False by (auto simp: update_oracles_def split: option.split)
      with True spec show ?thesis by auto
    next
      case keys: False
      then obtain k0 k1 where k: "token0_pyth_oracle_pubkey L v = Some k0" "token1_pyth_oracle_pubkey L v = Some k1"
        by auto
      have "update_oracles L A v = (v', Ok ()) \<longleftrightarrow>
        (\<exists>p0 p1. load_oracle L A ''token0'' k0 (pool_token0_pyth_feed_id (cv_pool_state v)) = Ok p0
         \<and> load_oracle L A ''token1'' k1 (pool_token1_pyth_feed_id (cv_pool_state v)) = Ok p1
         \<and> v' = v\<lparr>cv_token0_pyth_oracle_data := Some p0, cv_token1_pyth_oracle_data := Some p1\<rparr>)"
        using \<open>venue_dynamic_fee_enabled L v\<close> False k
        by (simp add: update_oracles_def st_then_Ok_iff) blast
      with spec k show ?thesis by auto
    qed
  qed
qed

lemma update_bitmap_extension_iff:
  "update_bitmap_extension L A v = (v', Ok ()) \<longleftrightarrow>
     (\<exists>ext. extension_loaded L A (tick_array_bitmap_extension_key L v) ext \<and> v' = v\<lparr>cv_bitmap_extension := ext\<rparr>)"
  by (auto simp: update_bitmap_extension_def extension_loaded_def st_then_Ok_iff split: option.splits)

lemmas update_step_iffs = load_clock_iff update_pool_iff update_amm_config_iff update_vaults_iff
  update_oracles_iff update_bitmap_extension_iff

lemma oracles_loaded_cong:
  assumes "cv_pool_state v = cv_pool_state w"
    and "cv_token0_program_id v = cv_token0_program_id w" and "cv_token1_program_id v = cv_token1_program_id w"
    and "cv_token0_pyth_oracle_data v = cv_token0_pyth_oracle_data w" and "cv_token1_pyth_oracle_data v = cv_token1_pyth_oracle_data w"
  shows "oracles_loaded L A v = oracles_loaded L A w"
  using assms by (simp add: oracles_loaded_def address_defs)

lemma core_update_chain:
  "core_update_state L A v = (v', Ok ()) \<longleftrightarrow>
     (\<exists>v1 v2 v3 v4 v5 v6. load_clock L A v = (v1, Ok ()) \<and> update_pool L A v1 = (v2, Ok ())
       \<and> update_amm_config L A v2 = (v3, Ok ()) \<and> update_vaults L A v3 = (v4, Ok ())
       \<and> update_oracles L A v4 = (v5, Ok ()) \<and> update_bitmap_extension L A v5 = (v6, Ok ())
       \<and> update_tick_arrays L A v6 = (v', Ok ()))"
  by (simp add: core_update_state_def st_then_Ok_iff)

lemma pool_loaded_timestamp [simp]:
  "pool_loaded L A (v\<lparr>cv_current_unix_timestamp := t\<rparr>) p mints = pool_loaded L A v p mints"
  by (simp add: pool_loaded_def split: option.split)

lemma core_update_loaded:
  assumes "core_update_state L A v = (v', Ok ())"
  shows "loaded L A v v'"
proof -
  from assms obtain v1 v2 v3 v4 v5 v6 where
    "load_clock L A v = (v1, Ok ())" "update_pool L A v1 = (v2, Ok ())" "update_amm_config L A v2 = (v3, Ok ())"
    "update_vaults L A v3 = (v4, Ok ())" "update_oracles L A v4 = (v5, Ok ())"
    "update_bitmap_extension L A v5 = (v6, Ok ())" and v': "update_tick_arrays L A v6 = (v', Ok ())"
    unfolding core_update_chain by blast
  then obtain acc t p mints cfg a0 o0 a1 o1 q0 q1 ext where
    clock: "A (clock_id (lib_codec L)) = Some acc" "decode_Clock_unix_timestamp (lib_codec L) (acc_data acc) = Ok t"
    and v1: "v1 = v\<lparr>cv_current_unix_timestamp := t\<rparr>"
    and pool: "pool_loaded L A v1 p mints" and v2: "v2 = v1\<lparr>cv_pool_state := p, cv_reserve_mints := mints\<rparr>"
    and cfg: "config_loaded L A (pool_amm_config (cv_pool_state v2)) cfg" and v3: "v3 = v2\<lparr>cv_amm_config := cfg\<rparr>"
    and vaults: "vault_loaded L A ''token0 vault'' (pool_token_vault_0 (cv_pool_state v3)) a0 o0"
      "vault_loaded L A ''token1 vault'' (pool_token_vault_1 (cv_pool_state v3)) a1 o1"
    and v4: "v4 = v3\<lparr>cv_token0_vault_amount := a0, cv_token0_program_id := o0,
                 cv_token1_vault_amount := a1, cv_token1_program_id := o1\<rparr>"
    and oracles: "oracles_loaded L A v5"
    and v5: "v5 = v4\<lparr>cv_token0_pyth_oracle_data := q0, cv_token1_pyth_oracle_data := q1\<rparr>"
    and ext: "extension_loaded L A (tick_array_bitmap_extension_key L v5) ext" and v6: "v6 = v5\<lparr>cv_bitmap_extension := ext\<rparr>"
    unfolding update_step_iffs by blast
  note vs = v1 v2 v3 v4 v5 v6
  have v'_eq: "v' = v6\<lparr>cv_dynamic_tick_arrays := load_tick_arrays L A (get_all_tick_array_addresses L v6) []\<rparr>"
    using v' by (simp add: update_tick_arrays_def)
  have "oracles_loaded L A v' = oracles_loaded L A v5"
    by (rule oracles_loaded_cong) (simp_all add: v'_eq v6)
  moreover have "get_all_tick_array_addresses L v' = get_all_tick_array_addresses L v6"
    by (rule all_addresses_cong) (simp_all add: v'_eq)
  moreover have "tick_array_bitmap_extension_key L v' = tick_array_bitmap_extension_key L v5"
    by (simp add: v'_eq v6 address_defs)
  moreover have "pool_loaded L A v p mints"
    using pool by (simp add: v1)
  ultimately show ?thesis
    using clock cfg vaults oracles ext unfolding loaded_def by (simp add: v'_eq vs)
qed

lemma core_update_if_loaded:
  assumes "loaded L A v v'"
  shows "core_update_state L A v = (v', Ok ())"
proof -
  let ?v1 = "v\<lparr>cv_current_unix_timestamp := cv_current_unix_timestamp v'\<rparr>"
  let ?v2 = "?v1\<lparr>cv_pool_state := cv_pool_state v', cv_reserve_mints := cv_reserve_mints v'\<rparr>"
  let ?v3 = "?v2\<lparr>cv_amm_config := cv_amm_config v'\<rparr>"
  let ?v4 = "?v3\<lparr>cv_token0_vault_amount := cv_token0_vault_amount v', cv_token0_program_id := cv_token0_program_id v',
                 cv_token1_vault_amount := cv_token1_vault_amount v', cv_token1_program_id := cv_token1_program_id v'\<rparr>"
  let ?v5 = "?v4\<lparr>cv_token0_pyth_oracle_data := cv_token0_pyth_oracle_data v', cv_token1_pyth_oracle_data := cv_token1_pyth_oracle_data v'\<rparr>"
  let ?v6 = "?v5\<lparr>cv_bitmap_extension := cv_bitmap_extension v'\<rparr>"
  have ids: "cv_market_id v' = cv_market_id v" "cv_program_id v' = cv_program_id v"
    "cv_max_one_side_tick_arrays v' = cv_max_one_side_tick_arrays v"
    using assms by (simp_all add: loaded_def)
  have "load_clock L A v = (?v1, Ok ())"
    using assms by (auto simp: loaded_def load_clock_iff)
  moreover have "update_pool L A ?v1 = (?v2, Ok ())"
    using assms unfolding update_pool_iff loaded_def by (auto simp del: split_paired_Ex)
  moreover have "update_amm_config L A ?v2 = (?v3, Ok ())"
    using assms by (auto simp: loaded_def update_amm_config_iff)
  moreover have "update_vaults L A ?v3 = (?v4, Ok ())"
    unfolding update_vaults_iff using assms unfolding loaded_def by fastforce
  moreover have "oracles_loaded L A ?v5"
    using assms oracles_loaded_cong [of v' ?v5] by (simp add: loaded_def)
  then have "update_oracles L A ?v4 = (?v5, Ok ())"
    unfolding update_oracles_iff by blast
  moreover have "update_bitmap_extension L A ?v5 = (?v6, Ok ())"
    using assms ids unfolding update_bitmap_extension_iff loaded_def by (auto simp: tick_array_bitmap_extension_key_def)
  moreover have "get_all_tick_array_addresses L ?v6 = get_all_tick_array_addresses L v'"
    by (rule all_addresses_cong) (simp_all add: ids)
  then have "update_tick_arrays L A ?v6 = (?v6\<lparr>cv_dynamic_tick_arrays := cv_dynamic_tick_arrays v'\<rparr>, Ok ())"
    using assms by (simp add: update_tick_arrays_def loaded_def)
  moreover have "?v6\<lparr>cv_dynamic_tick_arrays := cv_dynamic_tick_arrays v'\<rparr> = v'"
    using ids by simp
  ultimately show ?thesis
    unfolding core_update_chain by metis
qed

lemma core_update_iff: "core_update_state L A v = (v', Ok ()) \<longleftrightarrow> loaded L A v v'"
  using core_update_loaded core_update_if_loaded by blast

subsection \<open>What an update keeps, whether it succeeds or not\<close>

definition core_inv :: "pubkey \<Rightarrow> pubkey \<Rightarrow> 'x ClmmVenue \<Rightarrow> bool" where
  "core_inv market program v \<longleftrightarrow>
     cv_market_id v = market \<and> cv_program_id v = program \<and> cv_max_one_side_tick_arrays v = 6
   \<and> cv_reserve_mints v = (pool_token_mint_0 (cv_pool_state v), pool_token_mint_1 (cv_pool_state v))
   \<and> distinct (map fst (cv_dynamic_tick_arrays v))"

lemma fst_map_insert: "set (map fst (map_insert k x xs)) = insert k (set (map fst xs))"
  by (induction k x xs rule: map_insert.induct) auto

lemma distinct_map_insert: "distinct (map fst xs) \<Longrightarrow> distinct (map fst (map_insert k x xs))"
proof (induction k x xs rule: map_insert.induct)
  case (2 k x k' y rest)
  then show ?case
    using fst_map_insert [of k x rest] by auto
qed simp

lemma map_of_map_insert: "map_of (map_insert k x xs) = (map_of xs)(k \<mapsto> x)"
  by (induction k x xs rule: map_insert.induct) auto

lemma distinct_load_tick_arrays:
  "distinct (map fst arrays) \<Longrightarrow> distinct (map fst (load_tick_arrays L A keys arrays))"
proof (induction keys arbitrary: arrays)
  case (Cons k keys)
  have "distinct (map fst (map_insert k x arrays))" for x
    using Cons.prems by (rule distinct_map_insert)
  with Cons show ?case
    by (simp split: option.split)
qed simp

lemma core_inv_update [simp]:
  "core_inv m p (v\<lparr>cv_current_unix_timestamp := t\<rparr>) = core_inv m p v"
  "core_inv m p (v\<lparr>cv_amm_config := cfg\<rparr>) = core_inv m p v"
  "core_inv m p (v\<lparr>cv_token0_vault_amount := a, cv_token0_program_id := k\<rparr>) = core_inv m p v"
  "core_inv m p (v\<lparr>cv_token1_vault_amount := a, cv_token1_program_id := k\<rparr>) = core_inv m p v"
  "core_inv m p (v\<lparr>cv_token0_pyth_oracle_data := q0\<rparr>) = core_inv m p v"
  "core_inv m p (v\<lparr>cv_token1_pyth_oracle_data := q1\<rparr>) = core_inv m p v"
  "core_inv m p (v\<lparr>cv_token0_pyth_oracle_data := q0, cv_token1_pyth_oracle_data := q1\<rparr>) = core_inv m p v"
  "core_inv m p (v\<lparr>cv_bitmap_extension := ext\<rparr>) = core_inv m p v"
  by (simp_all add: core_inv_def)

lemma step_inv:
  assumes "core_inv m p v"
  shows "core_inv m p (fst (load_clock L A v))" and "core_inv m p (fst (update_pool L A v))"
    and "core_inv m p (fst (update_amm_config L A v))" and "core_inv m p (fst (update_vaults L A v))"
    and "core_inv m p (fst (update_oracles L A v))" and "core_inv m p (fst (update_bitmap_extension L A v))"
    and "core_inv m p (fst (update_tick_arrays L A v))"
proof -
  note keeps = st_then_keeps [where P = "core_inv m p"]
  show "core_inv m p (fst (load_clock L A v))" "core_inv m p (fst (update_amm_config L A v))"
    "core_inv m p (fst (update_bitmap_extension L A v))"
    using assms unfolding load_clock_def update_amm_config_def update_bitmap_extension_def
    by (auto intro!: keeps split: option.split)
  show "core_inv m p (fst (update_pool L A v))"
    using assms unfolding update_pool_def
    by (auto intro!: keeps split: option.split) (simp add: core_inv_def)
  show "core_inv m p (fst (update_vaults L A v))"
    using assms unfolding update_vaults_def by (auto intro!: keeps split: option.split)
  show "core_inv m p (fst (update_oracles L A v))"
    using assms unfolding update_oracles_def by (auto intro!: keeps split: option.split)
  show "core_inv m p (fst (update_tick_arrays L A v))"
    using assms by (simp add: update_tick_arrays_def core_inv_def distinct_load_tick_arrays)
qed

lemma core_update_inv:
  assumes "core_inv m p v"
  shows "core_inv m p (fst (core_update_state L A v))"
  unfolding core_update_state_def
  by (rule st_then_keeps [where P = "core_inv m p"], rule step_inv [OF assms])
    ((rule st_then_keeps [where P = "core_inv m p"], erule step_inv)+, erule step_inv)

lemma from_pool_state_inv:
  "from_pool_state_account L market owner data = Ok v \<Longrightarrow> core_inv market owner v"
  by (auto simp: from_pool_state_account_def core_inv_def outcome_simps)

subsection \<open>Consequences\<close>

text \<open>The update forgets the state it starts from, except for the identity of the venue and, when the
  pool account is not among the accounts, the pool.\<close>

lemma update_forgets:
  assumes "core_update_state L A v1 = (v', Ok ())"
    and "cv_market_id v = cv_market_id v1" and "cv_program_id v = cv_program_id v1"
    and "cv_max_one_side_tick_arrays v = cv_max_one_side_tick_arrays v1"
    and "A (cv_market_id v1) = None \<Longrightarrow> cv_pool_state v = cv_pool_state v1 \<and> cv_reserve_mints v = cv_reserve_mints v1"
  shows "core_update_state L A v = (v', Ok ())"
proof -
  have "pool_loaded L A v p mints = pool_loaded L A v1 p mints" for p mints
    using assms(2,3,5) by (cases "A (cv_market_id v1)") (simp_all add: pool_loaded_def)
  with assms(1-4) show ?thesis
    by (simp add: core_update_iff loaded_def)
qed

lemma dynamic_fee_accounts_cong:
  "cv_pool_state v = cv_pool_state w \<Longrightarrow> dynamic_fee_accounts L v = dynamic_fee_accounts L w"
  by (simp add: dynamic_fee_accounts_def address_defs split: option.split)

lemma accounts_to_update_cong:
  assumes "cv_pool_state v = cv_pool_state w" and "cv_bitmap_extension v = cv_bitmap_extension w"
    and "cv_max_one_side_tick_arrays v = cv_max_one_side_tick_arrays w"
    and "cv_market_id v = cv_market_id w" and "cv_program_id v = cv_program_id w"
  shows "accounts_to_update L v = accounts_to_update L w"
  using all_addresses_cong [OF assms] dynamic_fee_accounts_cong [OF assms(1)] assms
  by (simp add: accounts_to_update_def tick_array_bitmap_extension_key_def)

text \<open>Two account maps that agree on the pool and the bitmap extension lead to the same pool and extension.\<close>

lemma same_pool:
  assumes "core_update_state L A v = (v1, Ok ())" and "core_update_state L B v1 = (v2, Ok ())"
    and "A (cv_market_id v) = B (cv_market_id v)"
    and "A (tick_array_bitmap_extension_key L v) = B (tick_array_bitmap_extension_key L v)"
  shows "cv_pool_state v2 = cv_pool_state v1 \<and> cv_bitmap_extension v2 = cv_bitmap_extension v1
    \<and> cv_market_id v1 = cv_market_id v \<and> cv_program_id v1 = cv_program_id v
    \<and> cv_max_one_side_tick_arrays v1 = cv_max_one_side_tick_arrays v
    \<and> cv_market_id v2 = cv_market_id v \<and> cv_program_id v2 = cv_program_id v
    \<and> cv_max_one_side_tick_arrays v2 = cv_max_one_side_tick_arrays v"
proof -
  have A: "loaded L A v v1" and B: "loaded L B v1 v2"
    using assms(1,2) by (simp_all add: core_update_iff)
  then have ids: "cv_market_id v1 = cv_market_id v" "cv_program_id v1 = cv_program_id v"
    "cv_max_one_side_tick_arrays v1 = cv_max_one_side_tick_arrays v" "cv_market_id v2 = cv_market_id v"
    "cv_program_id v2 = cv_program_id v" "cv_max_one_side_tick_arrays v2 = cv_max_one_side_tick_arrays v"
    by (simp_all add: loaded_def)
  have keys: "tick_array_bitmap_extension_key L v1 = tick_array_bitmap_extension_key L v"
    "tick_array_bitmap_extension_key L v2 = tick_array_bitmap_extension_key L v"
    by (simp_all add: tick_array_bitmap_extension_key_def ids)
  have "pool_loaded L A v (cv_pool_state v1) (cv_reserve_mints v1)" "pool_loaded L B v1 (cv_pool_state v2) (cv_reserve_mints v2)"
    "extension_loaded L A (tick_array_bitmap_extension_key L v) (cv_bitmap_extension v1)"
    "extension_loaded L B (tick_array_bitmap_extension_key L v) (cv_bitmap_extension v2)"
    using A B keys unfolding loaded_def by simp_all
  then show ?thesis
    using assms(3,4) ids unfolding pool_loaded_def extension_loaded_def by (auto split: option.splits)
qed

end
