(* ===== verification/Clmm_Termination.thy ===== *)
theory Clmm_Termination
  imports Clmm_Swap_Properties
begin

text \<open>
  The swap loop of \<open>simulate_swap_steps\<close> ends.  Every turn but the last crosses an initialised tick
  strictly further in the swap direction; the invariant ties the current tick to the tick array the
  navigation state points to.  What this needs of the \<open>byreal_clmm\<close> crate is collected in
  \<open>crate_laws\<close>: array starts are multiples of the array width, bitmaps only report such starts, a search
  in a dynamic array finds an initialised tick, a swap step either reaches its target price or uses up
  its input, ticks outside the tick range have no price, and none of these calls panics.  What it needs
  of the accounts is \<open>venue_placed\<close>: the pool and its tick arrays are as the program writes them.  The
  venue's own lookups in both layouts are proved from the two.
\<close>

subsection \<open>Positions of ticks and arrays\<close>

definition in_array :: "'x clmm_lib \<Rightarrow> 'x ClmmVenue \<Rightarrow> i32 \<Rightarrow> i32 \<Rightarrow> bool" where
  "in_array L v s t \<longleftrightarrow> s \<le> t \<and> t < s + array_width L v"

definition ahead :: "bool \<Rightarrow> i32 \<Rightarrow> i32 \<Rightarrow> bool" where
  "ahead z t t' \<longleftrightarrow> (if z then t' \<le> t else t < t')"

definition array_laws :: "'x clmm_lib \<Rightarrow> 'x ClmmVenue \<Rightarrow> bool" where
  "array_laws L v \<longleftrightarrow>
     0 < array_width L v \<and> TICK_ARRAY_SIZE (lib_tick L) < 2 ^ 15 \<and> spacing_of v \<noteq> 0
   \<and> (\<forall>t. tick_fits L v t \<longrightarrow> array_width L v dvd array_start L v t \<and> in_array L v (array_start L v t) t)
   \<and> (\<forall>s t. start_fits L v s \<and> tick_fits L v t \<longrightarrow>
        returns (get_tick_offset_in_tick_array (lib_tick L) s t (spacing_of v)))
   \<and> (\<forall>s t i. start_fits L v s \<and> tick_fits L v t \<and> get_tick_offset_in_tick_array (lib_tick L) s t (spacing_of v) = Ok i
        \<longrightarrow> i < TICK_ARRAY_SIZE (lib_tick L))"

text \<open>What the searches in one array promise: they return, and what they find is an initialised tick of the
  array, ahead of the current one.\<close>

fun array_ticks :: "'x DynamicTickArrayState \<Rightarrow> TickState list" where
  "array_ticks (Dynamic header ticks) = ticks"
| "array_ticks (Fixed ta) = fixed_ticks ta"

definition holds_tick :: "'x DynamicTickArrayState \<Rightarrow> i32 \<Rightarrow> bool" where
  "holds_tick ta t \<longleftrightarrow> (\<exists>tick \<in> set (array_ticks ta). ts_initialized tick \<and> ts_tick tick = t)"

definition searches_forward :: "'x clmm_lib \<Rightarrow> 'x ClmmVenue \<Rightarrow> bool \<Rightarrow> 'x DynamicTickArrayState \<Rightarrow> bool" where
  "searches_forward L v z ta \<longleftrightarrow>
     (\<forall>t. tick_fits L v t \<longrightarrow> returns (next_initialized_tick (lib_tick L) ta t (spacing_of v) z))
   \<and> returns (first_initialized_tick (lib_tick L) ta z)
   \<and> (\<forall>t. tick_fits L v t \<longrightarrow> returns (array_tick_liquidity_net (lib_tick L) ta t (spacing_of v)))
   \<and> (\<forall>t n. tick_fits L v t \<and> array_tick_liquidity_net (lib_tick L) ta t (spacing_of v) = Ok (Some n) \<longrightarrow> \<bar>n\<bar> < 2 ^ 127)
   \<and> (\<forall>t t'. tick_fits L v t \<and> next_initialized_tick (lib_tick L) ta t (spacing_of v) z = Ok (Some t') \<longrightarrow>
        array_start L v t = start_tick_index (lib_tick L) ta
        \<and> in_array L v (start_tick_index (lib_tick L) ta) t' \<and> ahead z t t' \<and> holds_tick ta t')
   \<and> (\<forall>t'. first_initialized_tick (lib_tick L) ta z = Ok (Some t') \<longrightarrow>
        in_array L v (start_tick_index (lib_tick L) ta) t' \<and> holds_tick ta t')"

subsection \<open>Fixed arrays keep the promise\<close>

text \<open>A fixed array as the program writes it: every initialised tick sits at its own offset, and net
  liquidities are differences of two liquidities that fit.\<close>

definition well_placed :: "'x clmm_lib \<Rightarrow> 'x ClmmVenue \<Rightarrow> FixedTickArraySnapshot \<Rightarrow> bool" where
  "well_placed L v ta \<longleftrightarrow>
     length (fixed_ticks ta) = TICK_ARRAY_SIZE (lib_tick L) \<and> start_fits L v (fixed_start_tick_index ta)
   \<and> (\<forall>tick \<in> set (fixed_ticks ta). \<bar>ts_liquidity_net tick\<bar> < 2 ^ 127)
   \<and> (\<forall>i < TICK_ARRAY_SIZE (lib_tick L). ts_initialized (fixed_ticks ta ! i) \<longrightarrow>
        ts_tick (fixed_ticks ta ! i) = fixed_start_tick_index ta + int i * uint (spacing_of v))"

lemma find_SomeD: "find P xs = Some x \<Longrightarrow> x \<in> set xs \<and> P x"
  by (auto simp: find_Some_iff)

lemma find_in_prefix:
  "find P (rev (take n xs)) = Some x \<Longrightarrow> \<exists>i < n. i < length xs \<and> xs ! i = x \<and> P x"
  by (drule find_SomeD) (auto simp: in_set_conv_nth)

lemma find_in_suffix:
  assumes "find P (drop n xs) = Some x"
  shows "\<exists>i \<ge> n. i < length xs \<and> xs ! i = x \<and> P x"
proof -
  obtain i where "i < length (drop n xs)" "drop n xs ! i = x" "P x"
    using find_SomeD [OF assms] by (auto simp: in_set_conv_nth)
  then show ?thesis
    by (intro exI [of _ "n + i"]) auto
qed

lemma well_placed_in_array:
  assumes "array_laws L v" and "well_placed L v ta" and "i < length (fixed_ticks ta)" and "ts_initialized (fixed_ticks ta ! i)"
  shows "ts_tick (fixed_ticks ta ! i) = fixed_start_tick_index ta + int i * uint (spacing_of v)"
    and "in_array L v (fixed_start_tick_index ta) (ts_tick (fixed_ticks ta ! i))"
proof -
  show eq: "ts_tick (fixed_ticks ta ! i) = fixed_start_tick_index ta + int i * uint (spacing_of v)"
    using assms by (simp add: well_placed_def)
  have "int i * uint (spacing_of v) < int (TICK_ARRAY_SIZE (lib_tick L)) * uint (spacing_of v)"
    using assms by (intro mult_strict_right_mono) (simp_all add: well_placed_def array_laws_def word_neq_0_conv word_less_def)
  then show "in_array L v (fixed_start_tick_index ta) (ts_tick (fixed_ticks ta ! i))"
    by (simp add: eq in_array_def array_width_def)
qed

lemma nearest_ahead:
  assumes "array_laws L v" and "well_placed L v ta"
    and "nearest_initialized (fixed_ticks ta) (nat (d div uint (spacing_of v))) z = Some t'" and "0 \<le> d"
  shows "in_array L v (fixed_start_tick_index ta) t' \<and> ahead z (fixed_start_tick_index ta + d) t' \<and> holds_tick (Fixed ta) t'"
proof -
  let ?sp = "uint (spacing_of v)" and ?k = "nat (d div uint (spacing_of v))"
  have sp: "0 < ?sp"
    using assms(1) by (simp add: array_laws_def word_neq_0_conv word_less_def)
  then have k: "int ?k * ?sp \<le> d" "d < (int ?k + 1) * ?sp"
    using assms(4) pos_mod_sign [of ?sp d] pos_mod_bound [of ?sp d]
    by (simp_all add: pos_imp_zdiv_nonneg_iff minus_mod_eq_div_mult [symmetric] distrib_right)
  obtain i where i: "i < length (fixed_ticks ta)" "ts_initialized (fixed_ticks ta ! i)" "t' = ts_tick (fixed_ticks ta ! i)"
    and side: "if z then i \<le> ?k else ?k < i"
    using assms(3) by (cases z) (auto simp: nearest_initialized_def dest!: find_in_prefix find_in_suffix)
  note t' = well_placed_in_array [OF assms(1,2) i(1,2)]
  have "if z then int i * ?sp \<le> int ?k * ?sp else (int ?k + 1) * ?sp \<le> int i * ?sp"
    using side sp by (auto intro!: mult_right_mono)
  then show ?thesis
    using t' i k by (auto simp: ahead_def holds_tick_def split: if_splits)
qed

lemma fixed_first_in_array:
  assumes "array_laws L v" and "well_placed L v ta"
  shows "returns (fixed_first_initialized_tick (lib_tick L) ta z)"
    and "fixed_first_initialized_tick (lib_tick L) ta z = Ok (Some t') \<Longrightarrow> in_array L v (fixed_start_tick_index ta) t' \<and> holds_tick (Fixed ta) t'"
proof -
  have first: "fixed_first_initialized_tick (lib_tick L) ta z = Ok (map_option ts_tick (find ts_initialized
      (if z then rev (fixed_ticks ta) else fixed_ticks ta)))"
    using assms(2) by (simp add: fixed_first_initialized_tick_def scan_down_find scan_up_find well_placed_def)
  then show "returns (fixed_first_initialized_tick (lib_tick L) ta z)"
    by simp
  assume "fixed_first_initialized_tick (lib_tick L) ta z = Ok (Some t')"
  with first obtain t where "find ts_initialized (if z then rev (fixed_ticks ta) else fixed_ticks ta) = Some t" "t' = ts_tick t"
    by (auto simp: eq_commute [of "Some t'"])
  then show "in_array L v (fixed_start_tick_index ta) t' \<and> holds_tick (Fixed ta) t'"
    using well_placed_in_array(2) [OF assms] by (auto simp: holds_tick_def in_set_conv_nth split: if_splits dest!: find_SomeD)
qed

lemma returns_fixed_liquidity_net:
  assumes "array_laws L v" and "well_placed L v ta" and "tick_fits L v t"
  shows "returns (fixed_get_tick_liquidity_net (lib_tick L) ta t (spacing_of v))"
    and "fixed_get_tick_liquidity_net (lib_tick L) ta t (spacing_of v) = Ok (Some n) \<Longrightarrow> \<bar>n\<bar> < 2 ^ 127"
proof -
  let ?off = "get_tick_offset_in_tick_array (lib_tick L) (fixed_start_tick_index ta) t (spacing_of v)"
  have off: "returns ?off" "?off = Ok i \<Longrightarrow> i < length (fixed_ticks ta)" for i
    using assms by (auto simp: array_laws_def well_placed_def)
  then show "returns (fixed_get_tick_liquidity_net (lib_tick L) ta t (spacing_of v))"
    by (cases ?off) (auto simp: fixed_get_tick_liquidity_net_def fixed_tick_offset_def)
  assume "fixed_get_tick_liquidity_net (lib_tick L) ta t (spacing_of v) = Ok (Some n)"
  then show "\<bar>n\<bar> < 2 ^ 127"
    using off assms(2)
    by (cases ?off) (auto simp: fixed_get_tick_liquidity_net_def fixed_tick_offset_def well_placed_def outcome_simps
        split: if_split_asm dest!: nth_mem)
qed

lemma fixed_searches_forward:
  assumes "array_laws L v" and "well_placed L v ta"
  shows "searches_forward L v z (Fixed ta)"
proof -
  let ?T = "lib_tick L" and ?sp = "spacing_of v"
  have len: "length (fixed_ticks ta) = TICK_ARRAY_SIZE ?T"
    using assms(2) by (simp add: well_placed_def)
  have here: "fixed_next_initialized_tick ?T ta t ?sp z =
      Ok (nearest_initialized (fixed_ticks ta) (nat ((t - fixed_start_tick_index ta) div uint ?sp)) z)"
    and d: "0 \<le> t - fixed_start_tick_index ta"
    if "array_start L v t = fixed_start_tick_index ta" "tick_fits L v t" for t
  proof -
    have "in_array L v (fixed_start_tick_index ta) t"
      using assms(1) that unfolding array_laws_def by metis
    then show "0 \<le> t - fixed_start_tick_index ta"
      "fixed_next_initialized_tick ?T ta t ?sp z =
        Ok (nearest_initialized (fixed_ticks ta) (nat ((t - fixed_start_tick_index ta) div uint ?sp)) z)"
      using assms(1) that(1) len
      by (auto simp: array_laws_def in_array_def array_width_def intro!: fixed_next_initialized_tick_nearest)
  qed
  have elsewhere: "fixed_next_initialized_tick ?T ta t ?sp z = Ok None" if "array_start L v t \<noteq> fixed_start_tick_index ta" for t
    using that by (simp add: fixed_next_initialized_tick_def)
  have nxt: "returns (fixed_next_initialized_tick ?T ta t ?sp z)" if "tick_fits L v t" for t
    using here [OF _ that] elsewhere by (cases "array_start L v t = fixed_start_tick_index ta") simp_all
  have found: "array_start L v t = fixed_start_tick_index ta \<and> in_array L v (fixed_start_tick_index ta) t' \<and> ahead z t t' \<and> holds_tick (Fixed ta) t'"
    if "tick_fits L v t" "fixed_next_initialized_tick ?T ta t ?sp z = Ok (Some t')" for t t'
  proof (cases "array_start L v t = fixed_start_tick_index ta")
    case True
    with that here d nearest_ahead [OF assms, of "t - fixed_start_tick_index ta" z t'] show ?thesis
      by simp
  qed (use that elsewhere in simp)
  from nxt found fixed_first_in_array [OF assms] returns_fixed_liquidity_net [OF assms] show ?thesis
    unfolding searches_forward_def start_tick_index.simps next_initialized_tick.simps first_initialized_tick.simps
      array_tick_liquidity_net.simps by blast
qed

subsection \<open>Dynamic arrays keep the promise\<close>

text \<open>A dynamic array as the program writes it: its initialised ticks lie in its range, and the header's
  table has tick \<open>t\<close> at the slot that holds it.\<close>

definition dyn_placed :: "'x clmm_lib \<Rightarrow> 'x ClmmVenue \<Rightarrow> 'x \<Rightarrow> TickState list \<Rightarrow> bool" where
  "dyn_placed L v header ticks \<longleftrightarrow>
     start_fits L v (dyn_start_tick_index (lib_tick L) header)
   \<and> (\<forall>tick \<in> set ticks. \<bar>ts_liquidity_net tick\<bar> < 2 ^ 127
        \<and> (ts_initialized tick \<longrightarrow> in_array L v (dyn_start_tick_index (lib_tick L) header) (ts_tick tick)))
   \<and> (\<forall>t i. dyn_get_tick_index_in_array (lib_tick L) header t (spacing_of v) = Ok i \<longrightarrow>
        i < length ticks \<and> (ts_initialized (ticks ! i) \<longrightarrow> ts_tick (ticks ! i) = t))"

text \<open>What the crate's searches in such an array promise: the index they answer is the slot of an
  initialised tick, and of one ahead for the search from a tick; from a tick of another array there is none.\<close>

definition dyn_laws :: "'x clmm_lib \<Rightarrow> 'x ClmmVenue \<Rightarrow> bool \<Rightarrow> bool" where
  "dyn_laws L v z \<longleftrightarrow> (\<forall>header ticks. dyn_placed L v header ticks \<longrightarrow>
     (\<forall>t. tick_fits L v t \<longrightarrow> returns (dyn_next_initialized_tick_index (lib_tick L) header ticks t (spacing_of v) z)
        \<and> returns (dyn_get_tick_index_in_array (lib_tick L) header t (spacing_of v)))
   \<and> (\<forall>t i. tick_fits L v t \<and> dyn_next_initialized_tick_index (lib_tick L) header ticks t (spacing_of v) z = Ok (Some i) \<longrightarrow>
        i < length ticks \<and> ts_initialized (ticks ! i) \<and> ahead z t (ts_tick (ticks ! i))
        \<and> array_start L v t = dyn_start_tick_index (lib_tick L) header)
   \<and> returns (dyn_first_initialized_tick_index (lib_tick L) header ticks z)
   \<and> (\<forall>i. dyn_first_initialized_tick_index (lib_tick L) header ticks z = Ok i \<longrightarrow>
        i < length ticks \<and> ts_initialized (ticks ! i)))"

lemma result_ok_Some: "result_ok m = Ok (Some a) \<longleftrightarrow> m = Ok a"
  by (cases m) simp_all

lemma returns_result_ok: "returns m \<Longrightarrow> returns (result_ok m)"
  by (cases m) simp_all

lemma dyn_searches_forward:
  assumes "dyn_laws L v z" and "dyn_placed L v header ticks"
  shows "searches_forward L v z (Dynamic header ticks)"
proof -
  let ?T = "lib_tick L" and ?sp = "spacing_of v" and ?s = "dyn_start_tick_index (lib_tick L) header"
  note laws = assms(1) [unfolded dyn_laws_def, rule_format, OF assms(2)]
  have slot: "in_array L v ?s (ts_tick (ticks ! i)) \<and> holds_tick (Dynamic header ticks) (ts_tick (ticks ! i))"
    if "i < length ticks" "ts_initialized (ticks ! i)" for i
    using assms(2) that unfolding dyn_placed_def holds_tick_def by force
  have net: "i < length ticks \<and> \<bar>ts_liquidity_net (ticks ! i)\<bar> < 2 ^ 127"
    if "dyn_get_tick_index_in_array ?T header t ?sp = Ok i" for t i
    using assms(2) that unfolding dyn_placed_def by (meson nth_mem)
  have "returns (next_initialized_tick ?T (Dynamic header ticks) t ?sp z)"
    "returns (array_tick_liquidity_net ?T (Dynamic header ticks) t ?sp)" if "tick_fits L v t" for t
    using laws that net
    by (auto intro!: returns_and_then returns_result_ok split: option.split simp: result_ok_Some index_or_panic_def)
  moreover have "returns (first_initialized_tick ?T (Dynamic header ticks) z)"
    using laws by (auto intro!: returns_and_then returns_result_ok split: option.split simp: result_ok_Some index_or_panic_def)
  moreover have "array_start L v t = ?s \<and> in_array L v ?s t' \<and> ahead z t t' \<and> holds_tick (Dynamic header ticks) t'"
    if fits: "tick_fits L v t" and nxt: "next_initialized_tick ?T (Dynamic header ticks) t ?sp z = Ok (Some t')" for t t'
  proof -
    obtain i where i: "dyn_next_initialized_tick_index ?T header ticks t ?sp z = Ok (Some i)" "t' = ts_tick (ticks ! i)"
      using nxt by (auto simp: and_then_Ok_iff result_ok_Some index_or_panic_def split: option.split_asm if_split_asm)
    with laws fits slot show ?thesis by blast
  qed
  moreover have "in_array L v ?s t' \<and> holds_tick (Dynamic header ticks) t'"
    if first: "first_initialized_tick ?T (Dynamic header ticks) z = Ok (Some t')" for t'
  proof -
    obtain i where "dyn_first_initialized_tick_index ?T header ticks z = Ok i" "t' = ts_tick (ticks ! i)"
      using first by (auto simp: and_then_Ok_iff result_ok_Some index_or_panic_def split: option.split_asm if_split_asm)
    with laws slot show ?thesis by blast
  qed
  moreover have "\<bar>n\<bar> < 2 ^ 127" if "array_tick_liquidity_net ?T (Dynamic header ticks) t ?sp = Ok (Some n)" for t n
    using that net by (auto simp: and_then_Ok_iff result_ok_Some index_or_panic_def split: option.split_asm if_split_asm)
  ultimately show ?thesis
    unfolding searches_forward_def start_tick_index.simps by blast
qed

subsection \<open>The laws\<close>

definition bitmap_laws :: "'x clmm_lib \<Rightarrow> 'x ClmmVenue \<Rightarrow> bool \<Rightarrow> bool" where
  "bitmap_laws L v z \<longleftrightarrow>
     (\<forall>t s. start_fits L v t
        \<and> bitmap_next_initialized (lib_pool L) (pool_tick_array_bitmap (cv_pool_state v)) t (spacing_of v) z = Ok (True, s)
        \<longrightarrow> array_width L v dvd s)
   \<and> (\<forall>ext t s. start_fits L v t \<and> ext_next_initialized_from_one_bitmap (lib_pool L) ext t (spacing_of v) z = Ok (True, s)
        \<longrightarrow> array_width L v dvd s)
   \<and> (\<forall>ext s. start_fits L v s \<longrightarrow> returns (ext_check_tick_array_is_initialized (lib_pool L) ext s (spacing_of v)))
   \<and> (\<forall>ext s s'. start_fits L v s \<and> ext_check_tick_array_is_initialized (lib_pool L) ext s (spacing_of v) = Ok (True, s')
        \<longrightarrow> s' = s)
   \<and> (\<forall>t. tick_fits L v t \<longrightarrow>
        returns (check_current_tick_array_is_initialized (lib_pool L) (pool_tick_array_bitmap (cv_pool_state v)) t (spacing_of v)))
   \<and> (\<forall>t s. tick_fits L v t
        \<and> check_current_tick_array_is_initialized (lib_pool L) (pool_tick_array_bitmap (cv_pool_state v)) t (spacing_of v) = Ok (True, s)
        \<longrightarrow> s = array_start L v t)"

lemma bitmap_lawsD:
  assumes "bitmap_laws L v z"
  shows "bitmap_next_initialized (lib_pool L) (pool_tick_array_bitmap (cv_pool_state v)) t (spacing_of v) z = Ok (True, s)
      \<Longrightarrow> start_fits L v t \<Longrightarrow> array_width L v dvd s"
    and "ext_next_initialized_from_one_bitmap (lib_pool L) ext t (spacing_of v) z = Ok (True, s)
      \<Longrightarrow> start_fits L v t \<Longrightarrow> array_width L v dvd s"
  using assms unfolding bitmap_laws_def by blast+

text \<open>The arithmetic of prices and steps, on positive prices and fee rates below one.\<close>

definition math_laws :: "'x clmm_lib \<Rightarrow> bool" where
  "math_laws L \<longleftrightarrow>
     (\<forall>t. in_i32 t \<longrightarrow> returns (get_sqrt_price_at_tick (lib_math L) t)) \<and> (\<forall>p. returns (get_tick_at_sqrt_price (lib_math L) p))
   \<and> (\<forall>l d. \<bar>d\<bar> < 2 ^ 127 \<longrightarrow> returns (add_delta (lib_math L) l d))
   \<and> (\<forall>t p. get_sqrt_price_at_tick (lib_math L) t = Ok p \<longrightarrow> MIN_TICK (lib_pool L) \<le> t \<and> t \<le> MAX_TICK (lib_pool L) \<and> 0 < p)
   \<and> (\<forall>p target liq rem fee z ts. 0 < p \<and> 0 < target \<and> fee < FEE_RATE_DENOMINATOR_VALUE (lib_math L) \<longrightarrow>
        returns (compute_swap_step (lib_math L) p target liq rem fee True z ts))
   \<and> (\<forall>p target liq rem fee z ts step. 0 < p \<and> 0 < target \<and> fee < FEE_RATE_DENOMINATOR_VALUE (lib_math L)
        \<and> compute_swap_step (lib_math L) p target liq rem fee True z ts = Ok step \<longrightarrow>
        0 < step_sqrt_price_next_x64 step
        \<and> (step_sqrt_price_next_x64 step = target \<or> unat (step_amount_in step) + unat (step_fee_amount step) = unat rem))"

lemma math_lawsD:
  assumes "math_laws L"
  shows "in_i32 t \<Longrightarrow> returns (get_sqrt_price_at_tick (lib_math L) t)"
    and "returns (get_tick_at_sqrt_price (lib_math L) p)"
    and "\<bar>d\<bar> < 2 ^ 127 \<Longrightarrow> returns (add_delta (lib_math L) l d)"
    and "get_sqrt_price_at_tick (lib_math L) t = Ok p \<Longrightarrow> MIN_TICK (lib_pool L) \<le> t \<and> t \<le> MAX_TICK (lib_pool L) \<and> 0 < p"
    and "0 < p \<Longrightarrow> 0 < target \<Longrightarrow> fee < FEE_RATE_DENOMINATOR_VALUE (lib_math L) \<Longrightarrow>
      returns (compute_swap_step (lib_math L) p target liq rem fee True z ts)"
    and "compute_swap_step (lib_math L) p target liq rem fee True z ts = Ok step \<Longrightarrow>
      0 < p \<Longrightarrow> 0 < target \<Longrightarrow> fee < FEE_RATE_DENOMINATOR_VALUE (lib_math L) \<Longrightarrow>
      0 < step_sqrt_price_next_x64 step
      \<and> (step_sqrt_price_next_x64 step = target \<or> unat (step_amount_in step) + unat (step_fee_amount step) = unat rem)"
  using assms unfolding math_laws_def by simp_all

text \<open>The pool is where the program keeps it: its tick in range, its price positive, and the range of
  ticks away from the ends of \<open>i32\<close>.\<close>

definition pool_placed :: "'x clmm_lib \<Rightarrow> 'x ClmmVenue \<Rightarrow> bool" where
  "pool_placed L v \<longleftrightarrow>
     MIN_TICK (lib_pool L) \<le> pool_tick_current (cv_pool_state v) \<and> pool_tick_current (cv_pool_state v) \<le> MAX_TICK (lib_pool L)
   \<and> start_fits L v (MIN_TICK (lib_pool L) - array_width L v) \<and> start_fits L v (MAX_TICK (lib_pool L))
   \<and> 0 < pool_sqrt_price_x64 (cv_pool_state v)"

text \<open>So are the tick arrays: aligned, and with their ticks in place in either layout.\<close>

fun array_placed :: "'x clmm_lib \<Rightarrow> 'x ClmmVenue \<Rightarrow> 'x DynamicTickArrayState \<Rightarrow> bool" where
  "array_placed L v (Dynamic header ticks) \<longleftrightarrow>
     array_width L v dvd dyn_start_tick_index (lib_tick L) header \<and> dyn_placed L v header ticks"
| "array_placed L v (Fixed ta) \<longleftrightarrow> array_width L v dvd fixed_start_tick_index ta \<and> well_placed L v ta"

definition venue_placed :: "'x clmm_lib \<Rightarrow> 'x ClmmVenue \<Rightarrow> bool" where
  "venue_placed L v \<longleftrightarrow> pool_placed L v \<and> (\<forall>(k, ta) \<in> set (cv_dynamic_tick_arrays v). array_placed L v ta)"

text \<open>The crate's laws, at the tick spacing and the bitmaps of the venue.\<close>

definition crate_laws :: "'x clmm_lib \<Rightarrow> 'x ClmmVenue \<Rightarrow> bool \<Rightarrow> bool" where
  "crate_laws L v z \<longleftrightarrow> array_laws L v \<and> bitmap_laws L v z \<and> math_laws L \<and> advancing L v z \<and> dyn_laws L v z"

definition swap_laws :: "'x clmm_lib \<Rightarrow> 'x ClmmVenue \<Rightarrow> bool \<Rightarrow> bool" where
  "swap_laws L v z \<longleftrightarrow> crate_laws L v z \<and> venue_placed L v"

lemmas swap_laws_defs = swap_laws_def crate_laws_def venue_placed_def

lemma swap_lawsD:
  assumes "swap_laws L v z"
  shows "array_laws L v" and "bitmap_laws L v z" and "math_laws L" and "advancing L v z" and "pool_placed L v"
  using assms by (simp_all add: swap_laws_def crate_laws_def venue_placed_def)

lemma placed_fits:
  "well_placed L v ta \<Longrightarrow> start_fits L v (fixed_start_tick_index ta)"
  "dyn_placed L v header ticks \<Longrightarrow> start_fits L v (dyn_start_tick_index (lib_tick L) header)"
  by (simp_all add: well_placed_def dyn_placed_def)

lemma swap_laws_arrays:
  assumes "swap_laws L v z" and "(k, ta) \<in> set (cv_dynamic_tick_arrays v)"
  shows "searches_forward L v z ta" and "array_width L v dvd start_tick_index (lib_tick L) ta"
    and "start_fits L v (start_tick_index (lib_tick L) ta)"
proof -
  have "array_placed L v ta"
    using assms by (auto simp: swap_laws_def venue_placed_def)
  moreover have "array_laws L v" "dyn_laws L v z"
    using assms(1) by (simp_all add: swap_laws_def crate_laws_def)
  ultimately have "searches_forward L v z ta \<and> array_width L v dvd start_tick_index (lib_tick L) ta
      \<and> start_fits L v (start_tick_index (lib_tick L) ta)"
    using fixed_searches_forward dyn_searches_forward placed_fits by (cases ta) auto
  then show "searches_forward L v z ta" "array_width L v dvd start_tick_index (lib_tick L) ta"
    "start_fits L v (start_tick_index (lib_tick L) ta)"
    by simp_all
qed

lemma multiples_apart: "w dvd a \<Longrightarrow> w dvd b \<Longrightarrow> a < b \<Longrightarrow> a + w \<le> (b :: int)"
proof -
  assume "w dvd a" "w dvd b" "a < b"
  then have "w dvd b - a" "0 < b - a" by simp_all
  from zdvd_imp_le [OF this] show ?thesis by simp
qed

lemma aligned_start:
  assumes "array_laws L v" and "array_width L v dvd s" and "start_fits L v s"
  shows "array_start L v s = s"
proof (rule ccontr)
  assume "array_start L v s \<noteq> s"
  moreover have "array_start L v s \<le> s" "s < array_start L v s + array_width L v" "array_width L v dvd array_start L v s"
    using assms(1) start_tick_fits [OF assms(3)] by (simp_all add: array_laws_def in_array_def)
  ultimately show False
    using multiples_apart [of "array_width L v" "array_start L v s" s] assms(2) by simp
qed

text \<open>Where the pool's tick leads.\<close>

lemma pool_start:
  assumes "swap_laws L v z"
  shows "tick_fits L v (pool_tick_current (cv_pool_state v))"
    and "array_width L v dvd array_start L v (pool_tick_current (cv_pool_state v))"
    and "in_array L v (array_start L v (pool_tick_current (cv_pool_state v))) (pool_tick_current (cv_pool_state v))"
    and "start_fits L v (array_start L v (pool_tick_current (cv_pool_state v)))"
proof -
  let ?t = "pool_tick_current (cv_pool_state v)"
  have placed: "MIN_TICK (lib_pool L) \<le> ?t" "?t \<le> MAX_TICK (lib_pool L)"
    "start_fits L v (MIN_TICK (lib_pool L) - array_width L v)" "start_fits L v (MAX_TICK (lib_pool L))"
    using assms by (simp_all add: swap_laws_defs pool_placed_def)
  then show fits: "tick_fits L v ?t"
    using array_width_nonneg [of L v] unfolding start_fits_def tick_fits_def by linarith
  then show here: "array_width L v dvd array_start L v ?t" "in_array L v (array_start L v ?t) ?t"
    using assms by (simp_all add: swap_laws_defs array_laws_def)
  show "start_fits L v (array_start L v ?t)"
    using here(2) placed unfolding in_array_def start_fits_def by linarith
qed

lemma swap_laws_searchable:
  assumes "swap_laws L v z"
  shows "arrays_searchable L v z"
proof -
  have "array_start L v (start_tick_index (lib_tick L) ta) = start_tick_index (lib_tick L) ta
      \<and> start_fits L v (start_tick_index (lib_tick L) ta) \<and> searches_forward L v z ta"
    if "(k, ta) \<in> set (cv_dynamic_tick_arrays v)" for k ta
    using swap_laws_arrays [OF assms that] aligned_start [OF swap_lawsD(1) [OF assms]] by simp
  then show ?thesis
    unfolding arrays_searchable_def searches_forward_def by blast
qed

lemma loaded_array_laws:
  assumes "swap_laws L v z" and "loaded_tick_array_by_start_index L v s = Some ta"
  shows "searches_forward L v z ta" and "start_tick_index (lib_tick L) ta = s" and "array_width L v dvd s" and "start_fits L v s"
  using loaded_tick_array_Some(1,2) [OF assms(2)] swap_laws_arrays [OF assms(1)] by blast+

lemma next_array_aligned:
  assumes "bitmap_laws L v z" and "advancing L v z" and "start_fits L v (array_start L v prev)"
    and "next_initialized_tick_array_start_index L v prev z = Ok (Some s)"
  shows "array_width L v dvd s"
proof -
  have "\<forall>s'. Some s = Some s' \<longrightarrow> array_width L v dvd s'"
    using assms(4) unfolding next_initialized_tick_array_start_index_def
  proof (rule run_loop_invariant [where P = "start_fits L v" and Q = "\<lambda>r. \<forall>s'. r = Some s' \<longrightarrow> array_width L v dvd s'"])
    show "\<forall>s'. r = Some s' \<longrightarrow> array_width L v dvd s'"
      if t: "start_fits L v t" and step: "next_array_step L v z t = Ok (Inl r)" for t r
    proof -
      obtain f s1 where bm: "bitmap_next_initialized (lib_pool L) (pool_tick_array_bitmap (cv_pool_state v)) t (spacing_of v) z = Ok (f, s1)"
        using step by (auto simp: next_array_step_def outcome_simps)
      then have s1: "start_fits L v s1"
        using assms(2) t unfolding advancing_def by blast
      have "array_width L v dvd s1" if f
        using bitmap_lawsD(1) [OF assms(1) _ t] bm that by simp
      then show ?thesis
        using step bitmap_lawsD(2) [OF assms(1) _ s1]
        by (auto simp: next_array_step_def bm outcome_simps split: prod.split_asm if_split_asm)
    qed
  next
    fix t t' assume "start_fits L v t" "next_array_step L v z t = Ok (Inr t')"
    then show "start_fits L v t'" by (rule next_array_step_Inr(4) [OF assms(2)])
  qed (rule assms(3))
  then show ?thesis by simp
qed

subsection \<open>The navigation state stays with the tick\<close>

definition nav_ok :: "'x clmm_lib \<Rightarrow> 'x ClmmVenue \<Rightarrow> bool \<Rightarrow> i32 \<Rightarrow> TickNavState \<Rightarrow> bool" where
  "nav_ok L v z t nav \<longleftrightarrow>
     (let s = nav_current_valid_tick_array_start_index nav; w = array_width L v in
      tick_fits L v t \<and> start_fits L v s \<and> w dvd s \<and> (if z then s \<le> t + 1 else t < s + w)
      \<and> (nav_is_match_pool_current_tick_array nav \<or> (if z then s + w \<le> t else t < s)))"

lemma next_array_apart:
  assumes "swap_laws L v z" and "array_width L v dvd s" and "start_fits L v s"
    and "next_initialized_tick_array_start_index L v s z = Ok (Some s')"
  shows "array_width L v dvd s'" and "start_fits L v s'"
    and "if z then s' + array_width L v \<le> s else s + array_width L v \<le> s'"
proof -
  have adv: "advancing L v z" and start: "array_start L v s = s"
    using assms(1) aligned_start [OF _ assms(2,3)] by (simp_all add: swap_laws_defs)
  show w: "array_width L v dvd s'"
    using next_array_aligned [OF _ adv _ assms(4)] assms(1,3) start by (simp add: swap_laws_defs)
  have "beyond z s s'" and "start_fits L v s'"
    using next_array_beyond [OF adv _ assms(4)] start assms(3) by simp_all
  then show "start_fits L v s'" "if z then s' + array_width L v \<le> s else s + array_width L v \<le> s'"
    using multiples_apart [OF w assms(2)] multiples_apart [OF assms(2) w] by (auto simp: beyond_def)
qed

lemma nav_step_cases:
  assumes "nav_step L v t z nav = Ok r"
  obtains (here) ta t' where "loaded_tick_array_by_start_index L v (nav_current_valid_tick_array_start_index nav) = Some ta"
      "next_initialized_tick (lib_tick L) ta t (spacing_of v) z = Ok (Some t')" "r = Inl (t', nav)"
  | (first) ta t' where "loaded_tick_array_by_start_index L v (nav_current_valid_tick_array_start_index nav) = Some ta"
      "first_initialized_tick (lib_tick L) ta z = Ok (Some t')" "\<not> nav_is_match_pool_current_tick_array nav"
      "r = Inl (t', nav\<lparr>nav_is_match_pool_current_tick_array := True\<rparr>)"
  | (advance) s' ta' f where "next_initialized_tick_array_start_index L v (nav_current_valid_tick_array_start_index nav) z = Ok (Some s')"
      "loaded_tick_array_by_start_index L v s' = Some ta'" "first_initialized_tick (lib_tick L) ta' z = Ok f"
      "r = (let nav' = \<lparr>nav_is_match_pool_current_tick_array = True, nav_current_valid_tick_array_start_index = s'\<rparr>
            in case f of Some t' \<Rightarrow> Inl (t', nav') | None \<Rightarrow> Inr nav')"
proof -
  let ?s = "nav_current_valid_tick_array_start_index nav"
  obtain ta found where ta: "loaded_tick_array_by_start_index L v ?s = Some ta"
    and found: "next_initialized_tick (lib_tick L) ta t (spacing_of v) z = Ok found"
    using assms by (auto simp: nav_step_def outcome_simps)
  show ?thesis
  proof (cases found)
    case (Some t')
    then show ?thesis
      using assms ta found here by (simp add: nav_step_def)
  next
    case None
    then obtain first where f: "(if \<not> nav_is_match_pool_current_tick_array nav
              then first_initialized_tick (lib_tick L) ta z else Ok None) = Ok first"
      using assms ta found by (auto simp: nav_step_def and_then_Ok_iff)
    show ?thesis
    proof (cases first)
      case (Some t')
      then show ?thesis
        using assms ta found None f that(2) [of ta t']
        by (cases "nav_is_match_pool_current_tick_array nav") (simp_all add: nav_step_def)
    next
      case n: None
      have "nav\<lparr>nav_is_match_pool_current_tick_array := True, nav_current_valid_tick_array_start_index := s'\<rparr>
          = \<lparr>nav_is_match_pool_current_tick_array = True, nav_current_valid_tick_array_start_index = s'\<rparr>" for s'
        by (cases nav) simp
      with assms ta found None f n that(3) show ?thesis
        by (auto simp: nav_step_def Let_def and_then_Ok_iff ok_or_Ok_iff split: option.split_asm)
    qed
  qed
qed

lemma nav_step_keeps:
  assumes "swap_laws L v z" and "nav_ok L v z t nav" and "nav_step L v t z nav = Ok (Inr nav')"
  shows "nav_ok L v z t nav'"
  using assms(3)
proof (cases rule: nav_step_cases)
  case (advance s' ta' f)
  have "array_width L v dvd nav_current_valid_tick_array_start_index nav" "start_fits L v (nav_current_valid_tick_array_start_index nav)"
    using assms(2) by (simp_all add: nav_ok_def Let_def)
  moreover have "0 < array_width L v"
    using assms(1) by (simp add: swap_laws_defs array_laws_def)
  ultimately show ?thesis
    using next_array_apart [OF assms(1) _ _ advance(1)] assms(2) advance(4)
    by (cases f) (auto simp: nav_ok_def Let_def split: if_splits)
qed simp_all

lemma nav_step_found:
  assumes "swap_laws L v z" and "nav_ok L v z t nav" and "nav_step L v t z nav = Ok (Inl (t', nav'))"
  shows "ahead z t t'" and "in_array L v (nav_current_valid_tick_array_start_index nav') t'"
    and "\<exists>ta. loaded_tick_array_by_start_index L v (nav_current_valid_tick_array_start_index nav') = Some ta \<and> holds_tick ta t'"
    and "nav_is_match_pool_current_tick_array nav'" and "array_width L v dvd nav_current_valid_tick_array_start_index nav'"
    and "start_fits L v (nav_current_valid_tick_array_start_index nav')"
proof -
  let ?s = "nav_current_valid_tick_array_start_index nav" and ?w = "array_width L v"
  have nav: "?w dvd ?s" "if z then ?s \<le> t + 1 else t < ?s + ?w" "start_fits L v ?s" "tick_fits L v t"
    "nav_is_match_pool_current_tick_array nav \<or> (if z then ?s + ?w \<le> t else t < ?s)"
    using assms(2) by (simp_all add: nav_ok_def Let_def)
  have t_in: "in_array L v (array_start L v t) t"
    using assms(1) nav(4) by (simp add: swap_laws_defs array_laws_def)
  have "ahead z t t' \<and> in_array L v (nav_current_valid_tick_array_start_index nav') t'
    \<and> (\<exists>ta. loaded_tick_array_by_start_index L v (nav_current_valid_tick_array_start_index nav') = Some ta \<and> holds_tick ta t')
    \<and> nav_is_match_pool_current_tick_array nav' \<and> ?w dvd nav_current_valid_tick_array_start_index nav'
    \<and> start_fits L v (nav_current_valid_tick_array_start_index nav')"
    using assms(3)
  proof (cases rule: nav_step_cases)
    case (here ta t'')
    have "array_start L v t = ?s" "in_array L v ?s t''" "ahead z t t''" "holds_tick ta t''"
      using loaded_array_laws [OF assms(1) here(1)] here(2) nav(4) unfolding searches_forward_def by metis+
    then show ?thesis
      using here(1,3) nav t_in by (auto simp: in_array_def split: if_splits)
  next
    case (first ta t'')
    have "in_array L v ?s t''" "holds_tick ta t''"
      using loaded_array_laws [OF assms(1) first(1)] first(2) unfolding searches_forward_def by metis+
    then show ?thesis
      using first(1,3,4) nav by (auto simp: in_array_def ahead_def split: if_splits)
  next
    case (advance s' ta' f)
    then have f: "f = Some t'" and nav': "nav_current_valid_tick_array_start_index nav' = s'" "nav_is_match_pool_current_tick_array nav'"
      by (auto simp: Let_def split: option.split_asm)
    have "in_array L v s' t'" "holds_tick ta' t'"
      using loaded_array_laws [OF assms(1) advance(2)] advance(3) unfolding searches_forward_def f by metis+
    with next_array_apart [OF assms(1) nav(1,3) advance(1)] nav(2) advance(2) show ?thesis
      by (auto simp: nav' in_array_def ahead_def split: if_splits)
  qed
  then show "ahead z t t'" "in_array L v (nav_current_valid_tick_array_start_index nav') t'"
    "\<exists>ta. loaded_tick_array_by_start_index L v (nav_current_valid_tick_array_start_index nav') = Some ta \<and> holds_tick ta t'"
    "nav_is_match_pool_current_tick_array nav'" "?w dvd nav_current_valid_tick_array_start_index nav'"
    "start_fits L v (nav_current_valid_tick_array_start_index nav')"
    by simp_all
qed

text \<open>A tick of an array whose start fits, and the tick below it, fit.\<close>

lemma in_array_fits:
  assumes "start_fits L v s" and "in_array L v s t" and "array_laws L v"
  shows "tick_fits L v t" and "tick_fits L v (t - 1)" and "in_i32 t"
  using assms unfolding start_fits_def tick_fits_def in_array_def array_laws_def in_i32_def by linarith+

lemma find_next_found:
  assumes "swap_laws L v z" and "nav_ok L v z t nav" and "find_next_initialized_tick_with_nav L v t z nav = Ok (t', nav')"
  shows "ahead z t t'" and "nav_ok L v z (if z then t' - 1 else t') nav'" and "in_i32 t'"
    and "in_array L v (nav_current_valid_tick_array_start_index nav') t'"
    and "\<exists>ta. loaded_tick_array_by_start_index L v (nav_current_valid_tick_array_start_index nav') = Some ta \<and> holds_tick ta t'"
proof -
  let ?there = "\<lambda>t' nav'. in_array L v (nav_current_valid_tick_array_start_index nav') t'
    \<and> (\<exists>ta. loaded_tick_array_by_start_index L v (nav_current_valid_tick_array_start_index nav') = Some ta \<and> holds_tick ta t')"
  have arr: "array_laws L v"
    using assms(1) by (simp add: swap_laws_defs)
  have "case (t', nav') of (t', nav') \<Rightarrow> ahead z t t' \<and> nav_ok L v z (if z then t' - 1 else t') nav' \<and> in_i32 t' \<and> ?there t' nav'"
    using assms(3) unfolding find_next_initialized_tick_with_nav_def
  proof (rule run_loop_invariant [where P = "nav_ok L v z t"
        and Q = "\<lambda>(t', nav'). ahead z t t' \<and> nav_ok L v z (if z then t' - 1 else t') nav' \<and> in_i32 t' \<and> ?there t' nav'"])
    show "nav_ok L v z t nav" by (rule assms(2))
  next
    fix n n' assume "nav_ok L v z t n" "nav_step L v t z n = Ok (Inr n')"
    with assms(1) show "nav_ok L v z t n'" by (rule nav_step_keeps)
  next
    fix n r assume n: "nav_ok L v z t n" "nav_step L v t z n = Ok (Inl r)"
    obtain t2 n2 where r: "r = (t2, n2)" by fastforce
    note found = nav_step_found [OF assms(1) n(1) n(2) [unfolded r]]
    show "case r of (t', nav') \<Rightarrow> ahead z t t' \<and> nav_ok L v z (if z then t' - 1 else t') nav' \<and> in_i32 t' \<and> ?there t' nav'"
      using found in_array_fits [OF found(6,2) arr] by (auto simp: r nav_ok_def in_array_def)
  qed
  then show "ahead z t t'" "nav_ok L v z (if z then t' - 1 else t') nav'" "in_i32 t'"
    "in_array L v (nav_current_valid_tick_array_start_index nav') t'"
    "\<exists>ta. loaded_tick_array_by_start_index L v (nav_current_valid_tick_array_start_index nav') = Some ta \<and> holds_tick ta t'"
    by simp_all
qed

lemma init_nav_ok:
  assumes "swap_laws L v z" and "init_tick_nav_state L v z = Ok nav"
  shows "nav_ok L v z (pool_tick_current (cv_pool_state v)) nav"
proof -
  let ?t = "pool_tick_current (cv_pool_state v)"
  note here = pool_start [OF assms(1)]
  have w: "0 < array_width L v"
    using assms(1) by (simp add: swap_laws_defs array_laws_def)
  obtain m s where first: "first_initialized_tick_array L v z = Ok (m, s)"
    and nav: "nav = \<lparr>nav_is_match_pool_current_tick_array = m, nav_current_valid_tick_array_start_index = s\<rparr>"
    using assms(2) by (auto simp: init_tick_nav_state_def and_then_Ok_iff)
  show ?thesis
  proof (cases m)
    case True
    have "s = array_start L v ?t"
      using first swap_lawsD(2) [OF assms(1)] here(1,4) True unfolding bitmap_laws_def
      by (fastforce simp: first_initialized_tick_array_def outcome_simps Let_def split: if_split_asm)
    with here True show ?thesis
      by (auto simp: nav_ok_def nav in_array_def)
  next
    case False
    then have "next_initialized_tick_array_start_index L v (array_start L v ?t) z = Ok (Some s)"
      using first by (auto simp: first_initialized_tick_array_def outcome_simps Let_def split: if_split_asm)
    from next_array_apart [OF assms(1) here(2,4) this] here w show ?thesis
      by (auto simp: nav_ok_def nav in_array_def Let_def)
  qed
qed

subsection \<open>The loop ends\<close>

lemma apply_step_remaining:
  assumes "apply_step step st = Ok st'" and "unat (step_amount_in step) + unat (step_fee_amount step) = unat (ss_amount_specified_remaining st)"
  shows "ss_amount_specified_remaining st' = 0"
proof -
  obtain inw rem where inw: "checked_add (step_amount_in step) (step_fee_amount step) = Some inw"
    and rem: "checked_sub (ss_amount_specified_remaining st) inw = Some rem"
    and "ss_amount_specified_remaining st' = rem"
    using assms(1) by (auto simp: apply_step_def and_then_Ok_iff ok_or_Ok_iff)
  then show ?thesis
    using checked_add_unat [OF inw] checked_sub_unat [OF rem] assms(2) by (simp add: unat_eq_0)
qed

lemma apply_step_price: "apply_step step st = Ok st' \<Longrightarrow> ss_sqrt_price_x64 st' = step_sqrt_price_next_x64 step"
  by (auto simp: apply_step_def and_then_Ok_iff)

definition ticks_left :: "'x clmm_lib \<Rightarrow> bool \<Rightarrow> i32 \<Rightarrow> nat" where
  "ticks_left L z t = (if z then nat (t - MIN_TICK (lib_pool L) + 1) else nat (MAX_TICK (lib_pool L) - t))"

text \<open>A turn either finishes the swap or crosses a tick further ahead.\<close>

lemma target_pos: "0 < p \<Longrightarrow> 0 < lmt \<Longrightarrow> 0 < swap_target_price z p lmt"
  by (simp add: swap_target_price_def)

lemma swap_step_progress:
  assumes laws: "swap_laws L v z" and nav: "nav_ok L v z (ss_tick st) nav"
    and fee: "fee < FEE_RATE_DENOMINATOR_VALUE (lib_math L)" and pos: "0 < lmt" "0 < ss_sqrt_price_x64 st"
    and step: "swap_step L v fee lmt z ts (st, nav) = Ok (Inr (st', nav'))"
  shows "ss_amount_specified_remaining st' = 0 \<or> ss_sqrt_price_x64 st' = lmt
    \<or> (nav_ok L v z (ss_tick st') nav' \<and> 0 < ss_sqrt_price_x64 st' \<and> ticks_left L z (ss_tick st') < ticks_left L z (ss_tick st))"
  using step
proof (rule swap_step_InrE)
  fix nxt p sstep st1
  assume find: "find_next_initialized_tick_with_nav L v (ss_tick st) z nav = Ok (nxt, nav')"
    and price: "get_sqrt_price_at_tick (lib_math L) nxt = Ok p"
    and comp: "compute_swap_step (lib_math L) (ss_sqrt_price_x64 st) (swap_target_price z p lmt) (ss_liquidity st)
       (ss_amount_specified_remaining st) fee True z (word_of_int ts) = Ok sstep"
    and app: "apply_step sstep st = Ok st1" and cross: "cross_tick L v z nxt p st1 = Ok st'"
  have math: "math_laws L"
    using laws by (simp add: swap_laws_defs)
  have range: "MIN_TICK (lib_pool L) \<le> nxt" "nxt \<le> MAX_TICK (lib_pool L)" and p: "0 < p"
    using math_lawsD(4) [OF math price] by simp_all
  note found = find_next_found [OF laws nav find]
  have stepped: "0 < step_sqrt_price_next_x64 sstep \<and> (step_sqrt_price_next_x64 sstep = swap_target_price z p lmt
      \<or> unat (step_amount_in sstep) + unat (step_fee_amount sstep) = unat (ss_amount_specified_remaining st))"
    by (rule math_lawsD(6) [OF math comp pos(2) target_pos [OF p pos(1)] fee])
  then consider "ss_amount_specified_remaining st' = 0" | "ss_sqrt_price_x64 st' = swap_target_price z p lmt"
    using apply_step_remaining [OF app] apply_step_price [OF app] cross_tick_amounts [OF cross] by metis
  then show ?thesis
  proof cases
    case 2
    then consider "ss_sqrt_price_x64 st' = lmt" | "ss_sqrt_price_x64 st' = p"
      by (auto simp: swap_target_price_def split: if_split_asm)
    then show ?thesis
    proof cases
      case 2
      then have tick': "ss_tick st' = (if z then wrap_i32 (nxt - 1) else nxt)"
        using cross cross_tick_amounts(4) [OF cross] by (auto simp: cross_tick_def outcome_simps Let_def)
      have "tick_fits L v (if z then nxt - 1 else nxt)"
        using found(2) by (simp add: nav_ok_def Let_def)
      then have "in_i32 (if z then nxt - 1 else nxt)"
        using array_width_nonneg [of L v] unfolding tick_fits_def in_i32_def by linarith
      then have tick: "ss_tick st' = (if z then nxt - 1 else nxt)"
        using tick' by (cases z) (simp_all add: wrap_i32_id)
      have "ticks_left L z (ss_tick st') < ticks_left L z (ss_tick st)"
        using found(1) range by (auto simp: tick ticks_left_def ahead_def)
      with found(2) p 2 show ?thesis
        by (simp add: tick)
    qed simp
  qed simp
qed

text \<open>Crossing a tick of the range returns.\<close>

lemma returns_cross_tick:
  assumes laws: "swap_laws L v z" and range: "MIN_TICK (lib_pool L) \<le> t" "t \<le> MAX_TICK (lib_pool L)"
  shows "returns (cross_tick L v z t p st)"
proof -
  have math: "math_laws L" and fits: "tick_fits L v t"
    using laws range_start_fits [OF _ range, of v z] start_tick_fits by (auto simp: swap_laws_defs)
  have net: "returns (get_tick_liquidity_net L v t)"
    "get_tick_liquidity_net L v t = Ok (Some n) \<Longrightarrow> \<bar>n\<bar> < 2 ^ 127" for n
  proof -
    have "returns (array_tick_liquidity_net (lib_tick L) ta t (spacing_of v))"
      "array_tick_liquidity_net (lib_tick L) ta t (spacing_of v) = Ok (Some n) \<Longrightarrow> \<bar>n\<bar> < 2 ^ 127"
      if "loaded_tick_array_by_start_index L v (array_start L v t) = Some ta" for ta
      using loaded_array_laws(1) [OF laws that] fits unfolding searches_forward_def by simp_all
    then show "returns (get_tick_liquidity_net L v t)"
      "get_tick_liquidity_net L v t = Ok (Some n) \<Longrightarrow> \<bar>n\<bar> < 2 ^ 127"
      by (simp_all add: get_tick_liquidity_net_def split: option.split_asm option.split)
  qed
  have "returns (add_delta (lib_math L) l (if z then wrap_i128 (- n) else n))" if "\<bar>n\<bar> < 2 ^ 127" for l n
  proof -
    have "wrap_i128 (- n) = - n"
      using that unfolding wrap_i128_def by (subst mod_pos_pos_trivial) (simp_all add: abs_less_iff)
    then have "\<bar>if z then wrap_i128 (- n) else n\<bar> < 2 ^ 127"
      using that by simp
    then show ?thesis
      by (rule math_lawsD(3) [OF math])
  qed
  then show ?thesis
    using math_lawsD(2) [OF math] net unfolding cross_tick_def Let_def
    by (intro returns_if returns_and_then) (simp_all add: ok_or_Ok_iff)
qed

lemma returns_swap_step:
  assumes laws: "swap_laws L v z" and fee: "fee < FEE_RATE_DENOMINATOR_VALUE (lib_math L)" and lmt: "0 < lmt"
    and ok: "ss_amount_specified_remaining st = 0 \<or> ss_sqrt_price_x64 st = lmt
      \<or> (nav_ok L v z (ss_tick st) nav \<and> 0 < ss_sqrt_price_x64 st)"
  shows "returns (swap_step L v fee lmt z ts (st, nav))"
proof (cases "ss_amount_specified_remaining st = 0 \<or> ss_sqrt_price_x64 st = lmt")
  case False
  then have nav: "nav_ok L v z (ss_tick st) nav" and pos: "0 < ss_sqrt_price_x64 st"
    using ok by simp_all
  have math: "math_laws L" and adv: "advancing L v z"
    using laws by (simp_all add: swap_laws_defs)
  have "tick_fits L v (ss_tick st)"
    using nav by (simp add: nav_ok_def Let_def)
  then have find: "returns (find_next_initialized_tick_with_nav L v (ss_tick st) z nav)"
    by (rule returns_find_next_tick [OF adv swap_laws_searchable [OF laws]])
  have price: "returns (get_sqrt_price_at_tick (lib_math L) t)"
    if "find_next_initialized_tick_with_nav L v (ss_tick st) z nav = Ok (t, nav')" for t nav'
    by (rule math_lawsD(1) [OF math find_next_found(3) [OF laws nav that]])
  have comp: "returns (compute_swap_step (lib_math L) (ss_sqrt_price_x64 st) (swap_target_price z p lmt) l r fee True z now)"
    if "get_sqrt_price_at_tick (lib_math L) t = Ok p" for t p l r now
    using math_lawsD(4) [OF math that] by (intro math_lawsD(5) [OF math pos target_pos [OF _ lmt] fee]) simp
  have cross: "returns (cross_tick L v z t p st1)" if "get_sqrt_price_at_tick (lib_math L) t = Ok p" for t p st1
    using math_lawsD(4) [OF math that] by (intro returns_cross_tick [OF laws]) simp_all
  have "returns (apply_step step st)" for step st
    unfolding apply_step_def by (intro returns_intros) simp_all
  then show ?thesis
    using find price comp cross unfolding swap_step_def
    by (auto intro!: returns_intros simp: map_err_Ok_iff)
qed (auto simp: swap_step_def)

lemma returns_init_nav:
  assumes "swap_laws L v z"
  shows "returns (init_tick_nav_state L v z)"
proof -
  let ?t = "pool_tick_current (cv_pool_state v)" and ?s = "array_start L v (pool_tick_current (cv_pool_state v))"
  note here = pool_start [OF assms]
  have laws: "bitmap_laws L v z" "advancing L v z" "array_start L v ?s = ?s"
    using assms aligned_start [OF _ here(2,4)] by (simp_all add: swap_laws_defs)
  have "returns (ext_check_tick_array_is_initialized (lib_pool L) ext ?s (spacing_of v))"
    "returns (check_current_tick_array_is_initialized (lib_pool L) (pool_tick_array_bitmap (cv_pool_state v)) ?t (spacing_of v))" for ext
    using laws(1) here(1,4) unfolding bitmap_laws_def by blast+
  moreover have "returns (next_initialized_tick_array_start_index L v ?s z)"
    using returns_next_array [OF laws(2)] here(4) laws(3) by simp
  ultimately show ?thesis
    unfolding init_tick_nav_state_def first_initialized_tick_array_def Let_def
    by (auto intro!: returns_intros)
qed

lemma returns_simulate:
  assumes laws: "swap_laws L v z" and fee: "fee < FEE_RATE_DENOMINATOR_VALUE (lib_math L)" and lmt: "0 < lmt"
  shows "returns (simulate_swap_steps L v fee amount lmt z ts)"
proof -
  let ?m = "\<lambda>(st, nav). if ss_amount_specified_remaining st = 0 \<or> ss_sqrt_price_x64 st = lmt then 0
     else Suc (ticks_left L z (ss_tick st))"
  let ?P = "\<lambda>(st, nav). ss_amount_specified_remaining st = 0 \<or> ss_sqrt_price_x64 st = lmt
     \<or> (nav_ok L v z (ss_tick st) nav \<and> 0 < ss_sqrt_price_x64 st)"
  have loop: "returns (run_loop (swap_step L v fee lmt z ts) s)" if "?P s" for s
    using that
  proof (rule run_loop_returns [where P = ?P and m = ?m])
    fix s :: "SwapState \<times> TickNavState" assume "?P s"
    then show "returns (swap_step L v fee lmt z ts s)"
      using returns_swap_step [OF laws fee lmt] by (cases s) auto
  next
    fix s s' assume P: "?P s" and step: "swap_step L v fee lmt z ts s = Ok (Inr s')"
    obtain st nav st' nav' where s: "s = (st, nav)" "s' = (st', nav')" by fastforce
    have "ss_amount_specified_remaining st \<noteq> 0" "ss_sqrt_price_x64 st \<noteq> lmt"
      using step unfolding s by (blast elim: swap_step_InrE)+
    with P swap_step_progress [OF laws _ fee lmt _ step [unfolded s]] show "?P s' \<and> ?m s' < ?m s"
      by (auto simp: s)
  qed
  have "0 < pool_sqrt_price_x64 (cv_pool_state v)"
    using laws by (simp add: swap_laws_defs pool_placed_def)
  then show ?thesis
    unfolding simulate_swap_steps_def Let_def
    by (intro returns_and_then [OF returns_init_nav [OF laws]] loop) (simp add: init_nav_ok [OF laws])
qed

end
