(* ===== verification/Demo_Pool.thy ===== *)
theory Demo_Pool
  imports Clmm_State_Properties Clmm_Termination
begin

text \<open>
  A small instance of the crate parameters on which the hypotheses of the properties can be seen to
  hold: arrays of four ticks, a fixed one around tick 5 and, for one of the venues, a dynamic one behind it,
  prices linear in the tick, and a pool deep enough to take any input at its price.
\<close>

definition demo_tick :: "int \<Rightarrow> bool \<Rightarrow> TickState" where
  "demo_tick t b = \<lparr>ts_tick = t, ts_liquidity_net = 5, ts_initialized = b\<rparr>"

text \<open>One byte per tick: its index plus 128, or 0 when it is not initialised.  Dynamic arrays start at 40 and
  hold all their four ticks in order.\<close>

definition first_slot :: "TickState list \<Rightarrow> nat list \<Rightarrow> nat option" where
  "first_slot ticks = find (\<lambda>i. i < length ticks \<and> ts_initialized (ticks ! i))"

definition demo_tick_lib :: "unit tick_lib" where
  "demo_tick_lib = \<lparr>size_of_TickState = 1, TICK_ARRAY_SIZE = 4, TICK_ARRAY_SEED = [116],
     read_TickState = (\<lambda>bs. case bs of [b] \<Rightarrow> demo_tick (int (unat b) - 128) (b \<noteq> 0) | _ \<Rightarrow> demo_tick 0 False),
     TickArrayState_DISCRIMINATOR = replicate 8 1, DynTickArrayState_DISCRIMINATOR = replicate 8 2,
     DynTickArrayState_HEADER_LEN = 8, read_DynTickArrayState = (\<lambda>_. ()), dyn_start_tick_index = (\<lambda>_. 40),
     dyn_next_initialized_tick_index = (\<lambda>_ ticks t sp z. if t div (4 * uint sp) * (4 * uint sp) = 40
       then let k = nat ((t - 40) div uint sp) in Ok (first_slot ticks (if z then rev [0..<Suc k] else [Suc k..<4])) else Ok None),
     dyn_first_initialized_tick_index = (\<lambda>_ ticks z. case first_slot ticks (if z then rev [0..<4] else [0..<4]) of
       Some i \<Rightarrow> Ok i | None \<Rightarrow> Err ''none''),
     dyn_get_tick_index_in_array = (\<lambda>_ t sp. if 40 \<le> t \<and> t < 40 + 4 * uint sp \<and> (t - 40) mod uint sp = 0
       then Ok (nat ((t - 40) div uint sp)) else Err ''none''),
     get_array_start_index = (\<lambda>t sp. t div (4 * uint sp) * (4 * uint sp)),
     get_tick_offset_in_tick_array = (\<lambda>s t sp. let i = nat ((t - s) div uint sp) in if i < 4 then Ok i else Err ''offset'')\<rparr>"

definition demo_pool_lib :: "unit pool_lib" where
  "demo_pool_lib = \<lparr>MIN_TICK = -80, MAX_TICK = 80,
     check_current_tick_array_is_initialized = (\<lambda>_ t sp. Ok (True, t div (4 * uint sp) * (4 * uint sp))),
     bitmap_next_initialized = (\<lambda>_ t sp z. Ok (False, t)),
     ext_check_tick_array_is_initialized = (\<lambda>_ s sp. Ok (False, s)),
     ext_next_initialized_from_one_bitmap = (\<lambda>_ t sp z. Ok (False, if z then t - 4 * (uint sp + 1) else t + 4 * (uint sp + 1))),
     tick_array_start_index_range = (\<lambda>_. (-80, 80)),
     is_swap_dynamic_fee_enabled = (\<lambda>p. pool_token0_pyth_feed_id p = [1]),
     pool_get_first_initialized_tick_array = (\<lambda>p _ z. Inr (True, 0)),
     pool_next_initialized_tick_array = (\<lambda>p _ s z. Inr None),
     pool_is_overflow_default_tickarray_bitmap = (\<lambda>_ _. False),
     calculate_base_trade_fee_rate = (\<lambda>_ _ _ _. Ok 1000),
     is_token1_quote = (\<lambda>_. True), status_swap_enabled = (\<lambda>_. True)\<rparr>"

text \<open>A step takes the whole input at the current price.\<close>

definition demo_math_lib :: "unit math_lib" where
  "demo_math_lib = \<lparr>get_sqrt_price_at_tick = (\<lambda>t. if -80 \<le> t \<and> t \<le> 80 then Ok (word_of_int (1000 + t)) else Err ''tick''),
     get_tick_at_sqrt_price = (\<lambda>p. Ok (uint p - 1000)),
     compute_swap_step = (\<lambda>p target liq rem fee base z ts. Ok \<lparr>step_sqrt_price_next_x64 = p, step_amount_in = rem,
        step_amount_out = rem, step_fee_amount = 0\<rparr>),
     add_delta = (\<lambda>l d. Ok l), MIN_SQRT_PRICE_X64 = 900, MAX_SQRT_PRICE_X64 = 1100, Q64 = 1000,
     FEE_RATE_DENOMINATOR_VALUE = 1000000, price_from_sqrt_price_x64 = (\<lambda>p. Ok p),
     quote_amount_from_base = (\<lambda>a p b. Ok a), normalize_trade_size = (\<lambda>_ _. Ok ()),
     calculate_price_index = (\<lambda>_ _ _ _. Ok ()), calculate_dynamic_fee_rate = (\<lambda>_. Ok 2000),
     arbitrage_fee_buffer_ppm = (\<lambda>_. ()), trade_slippage_fee_base_milli_bp = (\<lambda>_. ()),
     trade_slippage_fee_trade_size_threshold = (\<lambda>_. ()), imbalance_fee_base_tenths_of_bp = (\<lambda>_. ()),
     imbalance_fee_x = (\<lambda>_. ())\<rparr>"

definition demo_pool :: "bool \<Rightarrow> unit PoolState" where
  "demo_pool dynamic = \<lparr>pool_amm_config = [10], pool_token_mint_0 = [1], pool_token_mint_1 = [2],
     pool_token_vault_0 = [11], pool_token_vault_1 = [12], pool_observation_key = [13],
     pool_mint_decimals_0 = 1, pool_mint_decimals_1 = 1, pool_tick_spacing = 10, pool_liquidity = 100000,
     pool_sqrt_price_x64 = 1005, pool_tick_current = 5, pool_tick_array_bitmap = [], pool_open_time = 3,
     pool_token0_pyth_feed_id = (if dynamic then [1] else replicate 32 0),
     pool_token1_pyth_feed_id = (if dynamic then [2] else replicate 32 0), pool_rest = ()\<rparr>"

definition demo_spl_lib :: "unit spl_lib" where
  "demo_spl_lib = \<lparr>token_program_id = [20], token_2022_program_id = [21],
     mint_unpack = (\<lambda>bs. case bs of [d] \<Rightarrow> Some (d, ()) | _ \<Rightarrow> None),
     get_transfer_fee_config = (\<lambda>_. None), get_epoch_fee = (\<lambda>_ _. (0, 0)),
     associated_token_address = (\<lambda>w m p. w @ m @ p)\<rparr>"

definition demo_codec_lib :: "unit codec_lib" where
  "demo_codec_lib = \<lparr>decode_PoolState = (\<lambda>bs. if bs = [1] then Ok (demo_pool False) else if bs = [2] then Ok (demo_pool True) else Err ''pool''),
     decode_AmmConfig = (\<lambda>_. Ok ()), decode_TickArrayBitmapExtension = (\<lambda>_. Ok ()),
     decode_Clock_unix_timestamp = (\<lambda>bs. Ok (int (length bs))), decode_Clock_epoch = (\<lambda>_. Ok 7),
     decode_PriceUpdateV2 = (\<lambda>_. Ok ()), get_price_unchecked = (\<lambda>_ _. Ok \<lparr>price_price = 1, price_publish_time = 10\<rparr>),
     unpack_token_amount = (\<lambda>_. Ok 500), unpack_token_2022_amount = (\<lambda>_. Ok 500),
     SwapV3Dyn_data = (\<lambda>amount other price base. [229, 46, 213, 132, 105, 40, 40, 228] @ to_le_bytes 8 amount
        @ to_le_bytes 8 other @ to_le_bytes 16 price @ [if base then 1 else 0]),
     find_program_address = (\<lambda>seeds program. concat seeds), show_pubkey = (\<lambda>_. ''key''), clock_id = [30],
     pyth_receiver_id = [31], pyth_push_oracle_id = [32], spl_memo_id = [33], lib_spl = demo_spl_lib\<rparr>"

definition demo_lib :: "unit clmm_lib" where
  "demo_lib = \<lparr>lib_tick = demo_tick_lib, lib_pool = demo_pool_lib, lib_math = demo_math_lib, lib_codec = demo_codec_lib\<rparr>"

definition demo_array :: FixedTickArraySnapshot where
  "demo_array = \<lparr>fixed_start_tick_index = 0, fixed_ticks = [demo_tick 0 True, demo_tick 10 True, demo_tick (-128) False, demo_tick 30 True]\<rparr>"

definition demo_core :: "bool \<Rightarrow> unit ClmmVenue" where
  "demo_core d = \<lparr>cv_market_id = [40], cv_program_id = BYREAL_CLMM_PROGRAM_ID, cv_reserve_mints = ([1], [2]),
     cv_pool_state = demo_pool d, cv_amm_config = Some (), cv_bitmap_extension = Some (),
     cv_dynamic_tick_arrays = [([116, 40, 0, 0, 0, 0], Fixed demo_array)],
     cv_token0_vault_amount = 0, cv_token1_vault_amount = 0,
     cv_token0_program_id = (if d then [20] else ZERO_PUBKEY), cv_token1_program_id = (if d then [20] else ZERO_PUBKEY),
     cv_token0_pyth_oracle_data = (if d then Some \<lparr>price_price = 1, price_publish_time = 10\<rparr> else None),
     cv_token1_pyth_oracle_data = (if d then Some \<lparr>price_price = 1, price_publish_time = 10\<rparr> else None),
     cv_max_one_side_tick_arrays = 6, cv_current_unix_timestamp = 12\<rparr>"

lemmas demo_defs = demo_lib_def demo_tick_lib_def demo_pool_lib_def demo_math_lib_def demo_codec_lib_def demo_spl_lib_def
  demo_pool_def demo_core_def

lemma demo_spacing: "spacing_of (demo_core d) = 10"
  by (simp add: demo_defs)

lemma demo_width: "array_width demo_lib (demo_core d) = 40"
  by (simp add: array_width_def demo_defs)

lemma demo_fits:
  "start_fits demo_lib (demo_core d) s \<longleftrightarrow> - (2 ^ 31) + 80 \<le> s \<and> s + 80 < 2 ^ 31"
  by (simp add: start_fits_def demo_width)

lemma demo_array_laws: "array_laws demo_lib (demo_core d)"
proof -
  have start: "get_array_start_index (lib_tick demo_lib) t 10 = t div 40 * 40" for t
    by (simp add: demo_lib_def demo_tick_lib_def)
  have "in_array demo_lib (demo_core d) (t div 40 * 40) t" for t :: int
    by (simp add: in_array_def demo_width) presburger
  moreover have "returns (get_tick_offset_in_tick_array (lib_tick demo_lib) s t sp)"
    "get_tick_offset_in_tick_array (lib_tick demo_lib) s t sp = Ok i \<Longrightarrow> i < 4" for s t sp i
    by (auto simp: demo_lib_def demo_tick_lib_def Let_def split: if_splits)
  moreover have "TICK_ARRAY_SIZE (lib_tick demo_lib) = 4"
    by (simp add: demo_lib_def demo_tick_lib_def)
  ultimately show ?thesis
    unfolding array_laws_def demo_width demo_spacing start by (auto simp: start)
qed

lemma demo_well_placed: "well_placed demo_lib (demo_core d) demo_array"
proof -
  have "i < 4 \<longleftrightarrow> i \<in> {0, 1, 2, 3}" for i :: nat by auto
  moreover have "TICK_ARRAY_SIZE (lib_tick demo_lib) = 4"
    by (simp add: demo_lib_def demo_tick_lib_def)
  ultimately show ?thesis
    by (auto simp: well_placed_def demo_fits demo_spacing demo_array_def demo_tick_def)
qed

lemma demo_advancing: "advancing demo_lib (demo_core d) z"
proof -
  have sel: "bitmap_next_initialized (lib_pool demo_lib) b t sp z = Ok (False, t)"
    "ext_next_initialized_from_one_bitmap (lib_pool demo_lib) ext t sp z = Ok (False, if z then t - 4 * (uint sp + 1) else t + 4 * (uint sp + 1))"
    "MIN_TICK (lib_pool demo_lib) = -80" "MAX_TICK (lib_pool demo_lib) = 80" for b t sp ext
    by (simp_all add: demo_lib_def demo_pool_lib_def)
  show ?thesis
    by (auto simp: advancing_def sel beyond_def demo_fits demo_spacing)
qed

lemma demo_math_laws: "math_laws demo_lib"
proof -
  have "0 < (1000 + word_of_int t :: u128)" if "-80 \<le> t" "t \<le> 80" for t
  proof -
    have "uint (word_of_int (1000 + t) :: u128) = 1000 + t"
      using that by (subst uint_word_of_int) (simp add: mod_pos_pos_trivial)
    then show ?thesis
      using that by (simp add: word_less_def)
  qed
  then show ?thesis
    by (auto simp: math_laws_def demo_defs split: if_splits)
qed

lemma demo_dyn:
  "dyn_start_tick_index (lib_tick demo_lib) h = 40"
  "dyn_next_initialized_tick_index (lib_tick demo_lib) h tks t 10 z = (if t div 40 * 40 = 40
     then Ok (first_slot tks (if z then rev [0..<Suc (nat ((t - 40) div 10))] else [Suc (nat ((t - 40) div 10))..<4])) else Ok None)"
  "dyn_first_initialized_tick_index (lib_tick demo_lib) h tks z = (case first_slot tks (if z then rev [0..<4] else [0..<4]) of
     Some i \<Rightarrow> Ok i | None \<Rightarrow> Err ''none'')"
  "dyn_get_tick_index_in_array (lib_tick demo_lib) h t 10 = (if 40 \<le> t \<and> t < 80 \<and> (t - 40) mod 10 = 0
     then Ok (nat ((t - 40) div 10)) else Err ''none'')"
  by (simp_all add: demo_lib_def demo_tick_lib_def Let_def)

lemma first_slotD: "first_slot ticks is = Some i \<Longrightarrow> i < length ticks \<and> ts_initialized (ticks ! i) \<and> i \<in> set is"
  unfolding first_slot_def by (drule find_SomeD) simp

lemma demo_slot_ahead:
  assumes "dyn_placed demo_lib (demo_core d) h ticks" and "t div 40 * 40 = (40 :: int)"
    and "first_slot ticks (if z then rev [0..<Suc (nat ((t - 40) div 10))] else [Suc (nat ((t - 40) div 10))..<4]) = Some i"
  shows "ahead z t (ts_tick (ticks ! i))"
proof -
  have t: "40 \<le> t" "t < 80"
    using assms(2) by presburger+
  have i: "i < 4" "if z then int i \<le> (t - 40) div 10 else (t - 40) div 10 < int i" "ts_initialized (ticks ! i)"
    using first_slotD [OF assms(3)] t by (auto split: if_splits)
  then have "dyn_get_tick_index_in_array (lib_tick demo_lib) h (40 + 10 * int i) (spacing_of (demo_core d)) = Ok i"
    by (simp add: demo_dyn demo_spacing)
  then have "ts_tick (ticks ! i) = 40 + 10 * int i"
    using assms(1) i(3) unfolding dyn_placed_def by blast
  then show ?thesis
    using i(2) t by (auto simp: ahead_def split: if_splits)
qed

lemma demo_dyn_laws: "dyn_laws demo_lib (demo_core d) z"
proof -
  have start: "get_array_start_index (lib_tick demo_lib) t 10 = t div 40 * 40" for t
    by (simp add: demo_lib_def demo_tick_lib_def)
  have "returns (dyn_next_initialized_tick_index (lib_tick demo_lib) h ticks t 10 z)"
    "returns (dyn_get_tick_index_in_array (lib_tick demo_lib) h t 10)"
    "returns (dyn_first_initialized_tick_index (lib_tick demo_lib) h ticks z)" for h ticks t
    by (simp_all add: demo_dyn split: option.split)
  moreover have "i < length ticks \<and> ts_initialized (ticks ! i)"
    if "dyn_first_initialized_tick_index (lib_tick demo_lib) h ticks z = Ok i" for h ticks i
    using that by (auto simp: demo_dyn split: option.split_asm dest: first_slotD)
  moreover have "i < length ticks \<and> ts_initialized (ticks ! i) \<and> ahead z t (ts_tick (ticks ! i)) \<and> t div 40 * 40 = 40"
    if placed: "dyn_placed demo_lib (demo_core d) h ticks"
      and found: "dyn_next_initialized_tick_index (lib_tick demo_lib) h ticks t 10 z = Ok (Some i)" for h ticks t i
  proof -
    have here: "t div 40 * 40 = 40"
      and slot: "first_slot ticks (if z then rev [0..<Suc (nat ((t - 40) div 10))] else [Suc (nat ((t - 40) div 10))..<4]) = Some i"
      using found unfolding demo_dyn by (metis outcome.inject(1) option.distinct(1))+
    show ?thesis
      using demo_slot_ahead [OF placed here slot] first_slotD [OF slot] here by simp
  qed
  ultimately show ?thesis
    unfolding dyn_laws_def demo_spacing start demo_dyn(1) by blast
qed

lemma demo_crate_laws: "crate_laws demo_lib (demo_core d) z"
proof -
  have "bitmap_laws demo_lib (demo_core d) z"
    by (auto simp: bitmap_laws_def demo_fits demo_width) (simp_all add: demo_defs)
  then show ?thesis
    using demo_array_laws demo_advancing demo_math_laws demo_dyn_laws by (simp add: crate_laws_def)
qed

lemma demo_pool_placed: "pool_placed demo_lib (demo_core d)"
  by (auto simp: pool_placed_def demo_fits demo_width) (simp_all add: demo_defs)

lemma demo_venue_placed: "venue_placed demo_lib (demo_core d)"
proof -
  have "array_placed demo_lib (demo_core d) (Fixed demo_array)"
    using demo_well_placed by (simp add: demo_width) (simp add: demo_array_def)
  then show ?thesis
    using demo_pool_placed by (simp add: venue_placed_def) (simp add: demo_core_def)
qed

lemma demo_swap_laws: "swap_laws demo_lib (demo_core d) z"
  by (simp add: swap_laws_def demo_crate_laws demo_venue_placed)

text \<open>The venue with a dynamic array behind the fixed one.\<close>

definition demo_dynamic :: "unit DynamicTickArrayState" where
  "demo_dynamic = Dynamic () [demo_tick 40 True, demo_tick (-128) False, demo_tick 60 True, demo_tick (-128) False]"

definition demo_both :: "bool \<Rightarrow> unit ClmmVenue" where
  "demo_both d = (demo_core d)\<lparr>cv_dynamic_tick_arrays :=
     [([116, 40, 0, 0, 0, 0], Fixed demo_array), ([116, 40, 0, 0, 0, 40], demo_dynamic)]\<rparr>"

lemma laws_without_arrays:
  "crate_laws L (v\<lparr>cv_dynamic_tick_arrays := arrays\<rparr>) z \<longleftrightarrow> crate_laws L v z"
  "pool_placed L (v\<lparr>cv_dynamic_tick_arrays := arrays\<rparr>) \<longleftrightarrow> pool_placed L v"
  "array_placed L (v\<lparr>cv_dynamic_tick_arrays := arrays\<rparr>) ta \<longleftrightarrow> array_placed L v ta"
proof -
  have eqs: "array_width L (v\<lparr>cv_dynamic_tick_arrays := arrays\<rparr>) = array_width L v"
    "start_fits L (v\<lparr>cv_dynamic_tick_arrays := arrays\<rparr>) s = start_fits L v s"
    "tick_fits L (v\<lparr>cv_dynamic_tick_arrays := arrays\<rparr>) t = tick_fits L v t"
    "in_array L (v\<lparr>cv_dynamic_tick_arrays := arrays\<rparr>) s t = in_array L v s t" for s t
    by (simp_all add: array_width_def start_fits_def tick_fits_def in_array_def)
  show "crate_laws L (v\<lparr>cv_dynamic_tick_arrays := arrays\<rparr>) z \<longleftrightarrow> crate_laws L v z"
    "pool_placed L (v\<lparr>cv_dynamic_tick_arrays := arrays\<rparr>) \<longleftrightarrow> pool_placed L v"
    "array_placed L (v\<lparr>cv_dynamic_tick_arrays := arrays\<rparr>) ta \<longleftrightarrow> array_placed L v ta"
    by (simp_all add: crate_laws_def array_laws_def bitmap_laws_def advancing_def dyn_laws_def dyn_placed_def pool_placed_def eqs)
      (cases ta; simp add: eqs well_placed_def dyn_placed_def)
qed

lemma demo_both_crate_laws: "crate_laws demo_lib (demo_both d) z"
  by (simp add: demo_both_def laws_without_arrays demo_crate_laws)

lemma demo_both_placed: "venue_placed demo_lib (demo_both d)"
proof -
  have "array_placed demo_lib (demo_core d) (Fixed demo_array)"
    using demo_well_placed by (simp add: demo_width) (simp add: demo_array_def)
  moreover have "dyn_placed demo_lib (demo_core d) () [demo_tick 40 True, demo_tick (-128) False, demo_tick 60 True, demo_tick (-128) False]"
    (is "dyn_placed _ _ _ ?ticks")
  proof -
    have "i < length ?ticks \<and> (ts_initialized (?ticks ! i) \<longrightarrow> ts_tick (?ticks ! i) = t)"
      if "dyn_get_tick_index_in_array (lib_tick demo_lib) () t 10 = Ok i" for t i
    proof -
      have t: "40 \<le> t" "t < 80" "(t - 40) mod 10 = 0" and i: "i = nat ((t - 40) div 10)"
        using that by (auto simp: demo_dyn split: if_splits)
      then have "t = 40 \<or> t = 50 \<or> t = 60 \<or> t = 70"
        by presburger
      then show ?thesis
        by (auto simp: i demo_tick_def)
    qed
    then show ?thesis
      unfolding dyn_placed_def demo_spacing demo_dyn(1) by (simp add: demo_fits in_array_def demo_width demo_tick_def)
  qed
  ultimately show ?thesis
    using demo_pool_placed
    by (simp add: venue_placed_def demo_both_def laws_without_arrays demo_dynamic_def demo_width) (simp add: demo_lib_def demo_tick_lib_def)
qed

subsection \<open>Swaps on the demonstration pool\<close>

abbreviation demo_nav :: TickNavState where
  "demo_nav \<equiv> \<lparr>nav_is_match_pool_current_tick_array = True, nav_current_valid_tick_array_start_index = 0\<rparr>"

lemma demo_init_nav: "init_tick_nav_state demo_lib (demo_core d) z = Ok demo_nav"
  by (simp add: init_tick_nav_state_def first_initialized_tick_array_def is_overflow_default_tickarray_bitmap_def demo_defs)

lemma demo_loaded: "loaded_tick_array_by_start_index demo_lib (demo_core d) 0 = Some (Fixed demo_array)"
  by (simp add: loaded_tick_array_by_start_index_def demo_core_def demo_array_def)

lemma no_feed [simp]: "replicate 32 0 \<noteq> [b :: u8]"
  by (auto dest: arg_cong [where f = length])

lemma demo_sel [simp]:
  "get_sqrt_price_at_tick (lib_math demo_lib) = (\<lambda>t. if -80 \<le> t \<and> t \<le> 80 then Ok (word_of_int (1000 + t)) else Err ''tick'')"
  "get_tick_at_sqrt_price (lib_math demo_lib) = (\<lambda>p. Ok (uint p - 1000))"
  "compute_swap_step (lib_math demo_lib) = (\<lambda>p target liq rem fee base z ts. Ok \<lparr>step_sqrt_price_next_x64 = p,
     step_amount_in = rem, step_amount_out = rem, step_fee_amount = 0\<rparr>)"
  "MIN_SQRT_PRICE_X64 (lib_math demo_lib) = 900" "MAX_SQRT_PRICE_X64 (lib_math demo_lib) = 1100"
  "price_from_sqrt_price_x64 (lib_math demo_lib) = Ok"
  "calculate_base_trade_fee_rate (lib_pool demo_lib) = (\<lambda>_ _ _ _. Ok 1000)"
  "status_swap_enabled (lib_pool demo_lib) p" "venue_dynamic_fee_enabled demo_lib (demo_core d) = d"
  "get_array_start_index (lib_tick demo_lib) = (\<lambda>t sp. t div (4 * uint sp) * (4 * uint sp))"
  "TICK_ARRAY_SIZE (lib_tick demo_lib) = 4"
  by (simp_all add: demo_defs venue_dynamic_fee_enabled_def)

lemma demo_next: "fixed_next_initialized_tick (lib_tick demo_lib) demo_array 5 10 z = Ok (Some (if z then 0 else 10))"
  by (simp add: fixed_next_initialized_tick_def demo_array_def demo_tick_def wrap_i32_def sdiv_nonneg numeral_3_eq_3)

lemma demo_find: "find_next_initialized_tick_with_nav demo_lib (demo_core d) 5 z demo_nav = Ok (if z then 0 else 10, demo_nav)"
  unfolding find_next_initialized_tick_with_nav_def
  by (subst run_loop_unfold) (simp add: nav_step_def demo_loaded demo_spacing demo_next)

lemma demo_swap_step:
  assumes "rem \<noteq> 0" and "lmt \<noteq> 1005"
  shows "swap_step demo_lib (demo_core d) fee lmt z ts
      (\<lparr>ss_amount_specified_remaining = rem, ss_amount_calculated = 0, ss_sqrt_price_x64 = 1005, ss_tick = 5,
        ss_liquidity = l, ss_fee_amount = 0\<rparr>, demo_nav)
    = Ok (Inr (\<lparr>ss_amount_specified_remaining = 0, ss_amount_calculated = rem, ss_sqrt_price_x64 = 1005, ss_tick = 5,
        ss_liquidity = l, ss_fee_amount = 0\<rparr>, demo_nav))"
proof -
  have "unat (rem :: u64) < 2 ^ 64"
    using unat_u64_less [of rem] by simp
  then have sums: "checked_add rem 0 = Some rem" "checked_add 0 rem = Some rem" "checked_sub rem rem = Some 0"
    "checked_add (0 :: u64) 0 = Some 0"
    by (simp_all add: checked_add_def checked_sub_def)
  show ?thesis
    using assms by (cases z) (simp_all add: swap_step_def demo_find apply_step_def sums cross_tick_def)
qed

lemma demo_simulate:
  assumes "lmt \<noteq> 1005"
  shows "simulate_swap_steps demo_lib (demo_core d) fee amount lmt z ts
    = Ok \<lparr>ss_amount_specified_remaining = 0, ss_amount_calculated = amount, ss_sqrt_price_x64 = 1005, ss_tick = 5,
          ss_liquidity = 100000, ss_fee_amount = 0\<rparr>"
proof -
  have init: "simulate_swap_steps demo_lib (demo_core d) fee amount lmt z ts = run_loop (swap_step demo_lib (demo_core d) fee lmt z ts)
      (\<lparr>ss_amount_specified_remaining = amount, ss_amount_calculated = 0, ss_sqrt_price_x64 = 1005, ss_tick = 5,
        ss_liquidity = 100000, ss_fee_amount = 0\<rparr>, demo_nav)"
    by (simp add: simulate_swap_steps_def demo_init_nav) (simp add: demo_core_def demo_pool_def)
  have finished: "run_loop (swap_step demo_lib (demo_core d) fee lmt z ts) (st, demo_nav) = Ok st"
    if "ss_amount_specified_remaining st = 0" for st
    by (subst run_loop_unfold) (simp add: swap_step_def that)
  show ?thesis
  proof (cases "amount = 0")
    case True
    then show ?thesis
      unfolding init by (simp add: finished)
  next
    case False
    then show ?thesis
      unfolding init by (subst run_loop_unfold) (simp add: demo_swap_step [OF False assms] finished)
  qed
qed

lemma demo_fee_rate: "compute_trade_fee_rate demo_lib (demo_core d) z amount 12 = Ok (if d then 2000 else 1000)"
proof -
  have "cv_amm_config (demo_core d) = Some ()"
    by (simp add: demo_core_def)
  moreover have "load_dynamic_pyth_prices (demo_core True) = Ok (\<lparr>price_price = 1, price_publish_time = 10\<rparr>, \<lparr>price_price = 1, price_publish_time = 10\<rparr>)"
    by (simp add: load_dynamic_pyth_prices_def demo_core_def DYNAMIC_MAX_PYTH_AGE_SECONDS_def wrap_i64_def)
  moreover have "cv_token0_program_id (demo_core True) \<noteq> ZERO_PUBKEY" "cv_token1_program_id (demo_core True) \<noteq> ZERO_PUBKEY"
    by (simp_all add: demo_core_def ZERO_PUBKEY_def no_feed [symmetric])
  moreover have "calculate_price_index (lib_math demo_lib) = (\<lambda>_ _ _ _. Ok ())" "quote_amount_from_base (lib_math demo_lib) = (\<lambda>a p b. Ok a)"
    "normalize_trade_size (lib_math demo_lib) = (\<lambda>_ _. Ok ())" "calculate_dynamic_fee_rate (lib_math demo_lib) = (\<lambda>_. Ok 2000)"
    by (simp_all add: demo_lib_def demo_math_lib_def)
  ultimately show ?thesis
    by (cases d) (simp_all add: compute_trade_fee_rate_def dynamic_fee_rate_def Let_def)
qed

lemma demo_compute_swap:
  "compute_swap demo_lib (demo_core d) z amount None 12
    = Ok \<lparr>sw_amount_in = amount, sw_amount_out = amount, sw_sqrt_price_x64 = 1005, sw_fee_rate = (if d then 2000 else 1000)\<rparr>"
proof -
  have "(if z then MIN_SQRT_PRICE_X64 (lib_math demo_lib) + 1 else MAX_SQRT_PRICE_X64 (lib_math demo_lib) - 1) \<noteq> 1005"
    by simp
  then show ?thesis
    by (simp add: compute_swap_def run_swap_def demo_simulate demo_fee_rate checked_sub_def)
qed

end
