(* ===== verification/Clmm_Properties.thy ===== *)
theory Clmm_Properties
  imports Demo_Pool
begin

text \<open>
  The properties of the CLMM core: the tick search and the swap loop end, quotes account for their
  input, prices bracket the realised rates, quoting needs complete state, updates implement their
  specification, and swap instructions have the layout the program expects.
\<close>

subsection \<open>Prices\<close>

lemma step_pos: "dynamic_fee_price_step v z amount = Some step \<Longrightarrow> 0 < step \<and> step \<le> amount"
  by (auto simp: dynamic_fee_price_step_def Let_def bind_eq_Some_conv split: if_splits)

lemma returns_clamp [simp]: "returns (f64_clamp x lo hi) \<longleftrightarrow> f64_le lo hi"
  by (simp add: f64_clamp_def)

lemma returns_actual_curve_price:
  assumes "\<And>a. returns (compute_swap L v z a None ts)"
  shows "returns (actual_curve_price L v z amount swap c ts ub)"
  unfolding actual_curve_price_def Let_def
  by (auto intro!: returns_intros assms split: option.split)

lemma f64_clamp_between:
  assumes "f64_clamp c lo (f64_min c r) = Ok p" and "c \<noteq> NaN" and "f64_le lo r"
  shows "f64_le lo p \<and> f64_le p r"
proof -
  have "f64_le lo p" "f64_le p (f64_min c r)"
    using f64_clamp_Ok_bounds [OF assms(1,2)] by simp_all
  moreover have "f64_le (f64_min c r) r"
    using assms(2) f64_le_not_NaN [OF assms(3)] f64_le_total [of c r] by (auto simp: f64_min_def)
  ultimately show ?thesis
    using f64_le_trans by blast
qed

lemma f64_max_between:
  assumes "\<not> f64_le lo (f64_min c r)" and "c \<noteq> NaN" and "f64_le lo r"
  shows "f64_le lo (f64_max c lo) \<and> f64_le (f64_max c lo) r"
proof -
  have lo: "lo \<noteq> NaN" "r \<noteq> NaN"
    using f64_le_not_NaN [OF assms(3)] by simp_all
  then have "f64_min c r = c"
    using assms f64_le_total [of c r] by (auto simp: f64_min_def split: if_split_asm)
  then have "f64_le c lo"
    using assms(1,2) lo(1) f64_le_total [of c lo] by auto
  then have "f64_max c lo = lo"
    using assms(2) lo(1) by (auto simp: f64_max_def)
  then show ?thesis
    using lo(1) assms(3) by simp
qed

text \<open>The rate realised between two swaps.\<close>

definition chord :: "SwapResult \<Rightarrow> SwapResult \<Rightarrow> u64 \<Rightarrow> f64" where
  "chord a b dx = f64_div (f64_of_word (sw_amount_out b - sw_amount_out a)) (f64_of_word dx)"

lemma curve_price_eq:
  assumes "venue_dynamic_fee_enabled L v" and "dynamic_fee_price_step v z amount = Some step"
    and "compute_swap L v z (amount - step) None ts = Ok prev" and "sw_amount_out prev < sw_amount_out swap"
    and "amount < ub" and "compute_swap L v z (amount + min step (ub - amount)) None ts = Ok nxt"
    and "sw_amount_out swap < sw_amount_out nxt"
    and "f64_is_finite (chord prev swap step)" "f64_lt (Fin 0) (chord prev swap step)"
    and "f64_is_finite (chord swap nxt (min step (ub - amount)))" "f64_lt (Fin 0) (chord swap nxt (min step (ub - amount)))"
  shows "actual_curve_price L v z amount swap c ts (Some ub) =
    (let lower = chord swap nxt (min step (ub - amount)); upper = f64_min c (chord prev swap step)
     in if f64_le lower upper then f64_clamp c lower upper else Ok (f64_max c lower))"
proof -
  have "\<not> f64_le (chord swap nxt (min step (ub - amount))) (Fin 0)"
    using assms(11) by (simp add: f64_lt_iff)
  moreover have "\<not> sw_amount_out swap \<le> sw_amount_out prev" "\<not> ub \<le> amount" "\<not> sw_amount_out nxt \<le> sw_amount_out swap"
    using assms(4,5,7) by simp_all
  ultimately show ?thesis
    using assms(1-3,6,8-10) unfolding actual_curve_price_def chord_def by (simp add: Let_def)
qed

subsection \<open>Termination\<close>

text \<open>The fee computation calls the crate only; none of these calls panics.  The rates of the venue itself
  are below one: the program refuses a configuration that charges the whole input, and the dynamic
  rate stays below one where the pool has switched it on.\<close>

definition fee_laws :: "'x clmm_lib \<Rightarrow> 'x ClmmVenue \<Rightarrow> bool" where
  "fee_laws L v \<longleftrightarrow>
     (\<forall>p a z t. returns (calculate_base_trade_fee_rate (lib_pool L) p a z t))
   \<and> (\<forall>a b d e. returns (calculate_price_index (lib_math L) a b d e))
   \<and> (\<forall>p. returns (price_from_sqrt_price_x64 (lib_math L) p))
   \<and> (\<forall>a p b. returns (quote_amount_from_base (lib_math L) a p b))
   \<and> (\<forall>q d. returns (normalize_trade_size (lib_math L) q d))
   \<and> (\<forall>i. returns (calculate_dynamic_fee_rate (lib_math L) i))
   \<and> (\<forall>config z t r. cv_amm_config v = Some config
        \<and> calculate_base_trade_fee_rate (lib_pool L) (cv_pool_state v) config z t = Ok r \<longrightarrow> r < FEE_RATE_DENOMINATOR_VALUE (lib_math L))
   \<and> (venue_dynamic_fee_enabled L v \<longrightarrow>
        (\<forall>i r. calculate_dynamic_fee_rate (lib_math L) i = Ok r \<longrightarrow> r < FEE_RATE_DENOMINATOR_VALUE (lib_math L)))
   \<and> 0 < MIN_SQRT_PRICE_X64 (lib_math L) + 1 \<and> 0 < MAX_SQRT_PRICE_X64 (lib_math L) - 1"

lemma returns_pyth_prices [simp]: "returns (load_dynamic_pyth_prices v)"
  unfolding load_dynamic_pyth_prices_def Let_def by (intro returns_intros) simp_all

lemma returns_fee_rate:
  assumes "fee_laws L v"
  shows "returns (compute_trade_fee_rate L v z amount ts)"
  using assms unfolding compute_trade_fee_rate_def dynamic_fee_rate_def Let_def fee_laws_def
  by (intro returns_intros) (auto intro!: returns_intros)

lemma fee_rate_below_one:
  assumes "fee_laws L v" and "compute_trade_fee_rate L v z amount ts = Ok r"
  shows "r < FEE_RATE_DENOMINATOR_VALUE (lib_math L)"
  using assms unfolding compute_trade_fee_rate_def dynamic_fee_rate_def Let_def fee_laws_def
  by (auto simp: and_then_Ok_iff ok_or_Ok_iff split: if_split_asm)

lemma returns_compute_swap:
  assumes "fee_laws L v" and "swap_laws L v z"
  shows "returns (compute_swap L v z amount None ts)"
proof -
  have pos: "0 < (if z then MIN_SQRT_PRICE_X64 (lib_math L) + 1 else MAX_SQRT_PRICE_X64 (lib_math L) - 1)"
    using assms(1) by (simp add: fee_laws_def)
  have "returns (simulate_swap_steps L v r a (if z then MIN_SQRT_PRICE_X64 (lib_math L) + 1 else MAX_SQRT_PRICE_X64 (lib_math L) - 1) z ts)"
    if "compute_trade_fee_rate L v z a ts = Ok r" for r a
    by (rule returns_simulate [OF assms(2) fee_rate_below_one [OF assms(1) that] pos])
  then show ?thesis
    using returns_fee_rate [OF assms(1)] unfolding compute_swap_def run_swap_def Let_def option.case
    by (intro returns_and_then) (auto intro!: returns_intros split: prod.split)
qed

lemma returns_marginal_price:
  "fee_laws L v \<Longrightarrow> returns (marginal_price_from_swap_state L z p fee)"
  unfolding marginal_price_from_swap_state_def fee_laws_def Let_def by (auto intro!: returns_intros)

lemma returns_check_quote_ready: "returns (check_quote_ready L v)"
  unfolding check_quote_ready_def ensure_swap_status_enabled_def by (auto intro!: returns_intros)

lemma validate_mints_cases:
  "returns (validate_mints v i out)" "validate_mints v i out = Ok (z, o0) \<Longrightarrow> z = (i = fst (cv_reserve_mints v))"
  by (auto simp: validate_mints_def Let_def split: if_splits)

lemma returns_classify [simp]: "returns (classify_swap_error msg)"
  by (simp add: classify_swap_error_def)

lemma returns_quote:
  assumes "fee_laws L v" and "swap_laws L v (req_input_mint req = fst (cv_reserve_mints v))"
  shows "returns (quote_with_price_upper_bound L v req ub)"
proof -
  let ?z = "req_input_mint req = fst (cv_reserve_mints v)"
  have swap: "returns (compute_swap L v ?z a None ts)" for a ts
    by (rule returns_compute_swap [OF assms])
  note rets = returns_fee_rate [OF assms(1)] returns_marginal_price [OF assms(1)]
    returns_actual_curve_price [of L v ?z, OF swap] returns_check_quote_ready
  have body: "returns (case compute_swap L v ?z (req_amount req) None ts of
      Err msg \<Rightarrow> classify_swap_error msg | Panic \<Rightarrow> Panic | Diverge \<Rightarrow> Diverge | Ok sw \<Rightarrow> k sw)"
    if "\<And>sw. returns (k sw)" for ts and k :: "SwapResult \<Rightarrow> CoreQuoteResult venue_result"
    using swap [of "req_amount req" ts] that by (cases "compute_swap L v ?z (req_amount req) None ts") simp_all
  show ?thesis
    unfolding quote_with_price_upper_bound_def Let_def
    by (rule returns_and_then [OF validate_mints_cases(1)])
      (auto intro!: returns_intros body simp: rets dest: validate_mints_cases(2))
qed

subsection \<open>Layout of the swap instruction\<close>

lemma build_swap_instruction_OkE:
  assumes "build_swap_instruction L v r = Ok ix"
  obtains z live pyth where "z \<longleftrightarrow> sb_source_mint r = fst (cv_reserve_mints v)"
    "live_directional_tick_arrays L v z = Ok live" "swap_pyth_accounts L v = Ok pyth"
    "ix = \<lparr>ix_program_id = cv_program_id v,
           ix_accounts = swap_base_accounts L v r z @ map (\<lambda>k. meta_new k False) live @ pyth,
           ix_data = SwapV3Dyn_data (lib_codec L) (sb_amount r) (sb_other_amount_threshold r) 0 True\<rparr>"
proof -
  obtain z o0 where val: "validate_mints v (sb_source_mint r) (sb_destination_mint r) = Ok (z, o0)"
    using assms by (auto simp: build_swap_instruction_def and_then_Ok_iff split: if_split_asm)
  with assms that [OF validate_mints_cases(2) [OF val]] show ?thesis
    by (auto simp: build_swap_instruction_def and_then_Ok_iff split: if_split_asm)
qed

lemma shard_zero: "to_le_bytes 2 (0 :: u16) = [0, 0]"
  by (simp add: to_le_bytes_def nat_le_bytes_zero numeral_2_eq_2)

lemma swap_pyth_accounts_Ok:
  "swap_pyth_accounts L v = Ok pyth \<Longrightarrow> map (\<lambda>m. (am_pubkey m, am_is_signer m, am_is_writable m)) pyth =
     (if is_swap_dynamic_fee_enabled (lib_pool L) (cv_pool_state v)
      then map (\<lambda>feed. (find_program_address (lib_codec L) [[0, 0], feed] (pyth_push_oracle_id (lib_codec L)), False, False))
             [pool_token0_pyth_feed_id (cv_pool_state v), pool_token1_pyth_feed_id (cv_pool_state v)]
      else [])"
  by (auto simp: swap_pyth_accounts_def and_then_Ok_iff ok_or_Ok_iff token0_pyth_oracle_pubkey_def token1_pyth_oracle_pubkey_def
      get_price_feed_account_address_def venue_dynamic_fee_enabled_def shard_zero meta_new_readonly_def split: if_split_asm)

lemma swap_pyth_accounts_flags:
  "swap_pyth_accounts L v = Ok pyth \<Longrightarrow> (\<forall>m \<in> set pyth. \<not> am_is_signer m)
     \<and> length pyth = (if venue_dynamic_fee_enabled L v then 2 else 0)"
  by (auto simp: swap_pyth_accounts_def and_then_Ok_iff split: if_split_asm)

lemma length_swap_base [simp]: "length (swap_base_accounts L v r z) = 14"
  by (simp add: swap_base_accounts_def Let_def)

lemma swap_base_signers:
  "m \<in> set (swap_base_accounts L v r z) \<Longrightarrow> am_is_signer m \<Longrightarrow> am_pubkey m = sb_user_authority r"
  by (cases z) (auto simp: swap_base_accounts_def Let_def)

subsection \<open>Properties\<close>



text \<open>C26: from a navigation state that fits the current tick, the search for the next initialised tick
  returns.  What it finds is an initialised tick of a loaded array, the one the navigation state then
  points to; it lies above the current tick when buying token 0 and at or below it when selling, so
  that the swap moves on from it, and the navigation state fits the tick after the crossing.\<close>

theorem next_tick_found_ahead:
  assumes "crate_laws L v zero_for_one" and "venue_placed L v" and "nav_ok L v zero_for_one tick nav"
  shows "returns (find_next_initialized_tick_with_nav L v tick zero_for_one nav)
    \<and> (\<forall>t nav'. find_next_initialized_tick_with_nav L v tick zero_for_one nav = Ok (t, nav') \<longrightarrow>
        (if zero_for_one then t \<le> tick else tick < t) \<and> nav_ok L v zero_for_one (if zero_for_one then t - 1 else t) nav'
      \<and> (\<exists>k ta. (k, ta) \<in> set (cv_dynamic_tick_arrays v)
           \<and> start_tick_index (lib_tick L) ta = nav_current_valid_tick_array_start_index nav'
           \<and> start_tick_index (lib_tick L) ta \<le> t \<and> t < start_tick_index (lib_tick L) ta + array_width L v
           \<and> (\<exists>entry \<in> set (array_ticks ta). ts_initialized entry \<and> ts_tick entry = t)))"
proof -
  have laws: "swap_laws L v zero_for_one"
    using assms(1,2) by (simp add: swap_laws_def)
  have "returns (find_next_initialized_tick_with_nav L v tick zero_for_one nav)"
    using assms laws by (intro returns_find_next_tick swap_laws_searchable) (simp_all add: crate_laws_def nav_ok_def Let_def)
  moreover have "(if zero_for_one then t \<le> tick else tick < t) \<and> nav_ok L v zero_for_one (if zero_for_one then t - 1 else t) nav'
      \<and> (\<exists>k ta. (k, ta) \<in> set (cv_dynamic_tick_arrays v)
           \<and> start_tick_index (lib_tick L) ta = nav_current_valid_tick_array_start_index nav'
           \<and> start_tick_index (lib_tick L) ta \<le> t \<and> t < start_tick_index (lib_tick L) ta + array_width L v
           \<and> (\<exists>entry \<in> set (array_ticks ta). ts_initialized entry \<and> ts_tick entry = t))"
    if "find_next_initialized_tick_with_nav L v tick zero_for_one nav = Ok (t, nav')" for t nav'
  proof -
    note found = find_next_found [OF laws assms(3) that]
    obtain ta where ta: "loaded_tick_array_by_start_index L v (nav_current_valid_tick_array_start_index nav') = Some ta" "holds_tick ta t"
      using found(5) by blast
    then show ?thesis
      using found(1,2,4) loaded_tick_array_Some(1,2) [OF ta(1)] unfolding ahead_def in_array_def holds_tick_def by metis
  qed
  ultimately show ?thesis by blast
qed

theorem next_tick_found_ahead_witness:
  "find_next_initialized_tick_with_nav demo_lib (demo_both False) 65 True
       \<lparr>nav_is_match_pool_current_tick_array = True, nav_current_valid_tick_array_start_index = 40\<rparr>
     = Ok (60, \<lparr>nav_is_match_pool_current_tick_array = True, nav_current_valid_tick_array_start_index = 40\<rparr>)
   \<and> (\<exists>k ta. (k, ta) \<in> set (cv_dynamic_tick_arrays (demo_both False)) \<and> start_tick_index (lib_tick demo_lib) ta = 40)"
proof -
  let ?nav = "\<lparr>nav_is_match_pool_current_tick_array = True, nav_current_valid_tick_array_start_index = 40\<rparr>"
  have shape: "array_width demo_lib (demo_both False) = 40" "spacing_of (demo_both False) = 10"
    using demo_width [of False] demo_spacing [of False] by (simp_all add: demo_both_def array_width_def)
  have "nav_ok demo_lib (demo_both False) True 65 ?nav"
    by (simp add: nav_ok_def shape start_fits_def tick_fits_def)
  note found = next_tick_found_ahead [OF demo_both_crate_laws demo_both_placed this]
  have loaded: "loaded_tick_array_by_start_index demo_lib (demo_both False) 40 = Some demo_dynamic"
    by (simp add: loaded_tick_array_by_start_index_def demo_both_def demo_array_def demo_dynamic_def) (simp add: demo_dyn)
  have "next_initialized_tick (lib_tick demo_lib) demo_dynamic 65 10 True = Ok (Some 60)"
    by (simp add: demo_dynamic_def demo_dyn first_slot_def demo_tick_def numeral_2_eq_2 index_or_panic_def)
  then have find: "find_next_initialized_tick_with_nav demo_lib (demo_both False) 65 True ?nav = Ok (60, ?nav)"
    unfolding find_next_initialized_tick_with_nav_def by (subst run_loop_unfold) (simp add: nav_step_def loaded shape)
  with found show ?thesis
    by fastforce
qed

text \<open>C27: quoting returns.  On a pool and tick arrays as the program writes them (\<open>venue_placed\<close>: the pool's
  tick and price in range, every initialised tick of either layout in its place), with fee rates below one, a
  quote is a result or an error for every request and in every other respect whatever the venue's state,
  never a panic and never an endless loop, given that the crate's own calls keep \<open>crate_laws\<close>; in particular the
  \<open>clamp\<close> of the price never sees its bounds reversed.\<close>

theorem quote_returns:
  assumes "fee_laws L v" and "crate_laws L v (req_input_mint request = fst (cv_reserve_mints v))" and "venue_placed L v"
  shows "returns (quote_with_price_upper_bound L v request upper_bound)"
  using assms by (intro returns_quote) (simp_all add: swap_laws_def)

lemma demo_fee_laws: "fee_laws demo_lib v"
  by (auto simp: fee_laws_def demo_defs)

definition demo_request :: "u64 \<Rightarrow> QuoteRequest" where
  "demo_request amount = \<lparr>req_input_mint = [1], req_output_mint = [2], req_amount = amount, req_swap_type = ExactIn\<rparr>"

theorem quote_returns_witness: "returns (quote_with_price_upper_bound demo_lib (demo_both True) (demo_request 1000) (Some 5000))"
  by (rule quote_returns [OF demo_fee_laws demo_both_crate_laws demo_both_placed])

text \<open>C20: a successful swap simulation takes no more input than specified, counts fees within it, and either
  takes the whole input or stops at the price limit; the subtraction of the remaining input never
  underflows.\<close>

theorem swap_uses_input_or_hits_limit:
  assumes "compute_swap L v zero_for_one amount None ts = Ok swap"
  shows "sw_amount_in swap \<le> amount
    \<and> (sw_amount_in swap = amount \<or> sw_sqrt_price_x64 swap
        = (if zero_for_one then MIN_SQRT_PRICE_X64 (lib_math L) + 1 else MAX_SQRT_PRICE_X64 (lib_math L) - 1))
    \<and> (\<exists>st. simulate_swap_steps L v (sw_fee_rate swap) amount
          (if zero_for_one then MIN_SQRT_PRICE_X64 (lib_math L) + 1 else MAX_SQRT_PRICE_X64 (lib_math L) - 1) zero_for_one ts = Ok st
        \<and> unat (ss_amount_specified_remaining st) + unat (sw_amount_in swap) = unat amount
        \<and> unat (ss_fee_amount st) \<le> unat (sw_amount_in swap))"
proof -
  from assms obtain st where st: "simulate_swap_steps L v (sw_fee_rate swap) amount
      (if zero_for_one then MIN_SQRT_PRICE_X64 (lib_math L) + 1 else MAX_SQRT_PRICE_X64 (lib_math L) - 1) zero_for_one ts = Ok st"
    and "unat amount = unat (ss_amount_specified_remaining st) + unat (sw_amount_in swap)"
    by (rule compute_swap_OkE)
  with simulate_accounted(1) [OF st] compute_swap_amounts [OF assms] show ?thesis
    by (fastforce simp: accounted_def)
qed

theorem swap_uses_input_or_hits_limit_witness:
  "sw_amount_in \<lparr>sw_amount_in = 700, sw_amount_out = 700, sw_sqrt_price_x64 = 1005, sw_fee_rate = 1000\<rparr> \<le> 700
   \<and> compute_swap demo_lib (demo_core False) True 700 None 12
      = Ok \<lparr>sw_amount_in = 700, sw_amount_out = 700, sw_sqrt_price_x64 = 1005, sw_fee_rate = 1000\<rparr>"
  using swap_uses_input_or_hits_limit [OF demo_compute_swap [of False True 700]] demo_compute_swap [of False True 700] by simp

text \<open>A quote never claims more input than requested and flags insufficient liquidity exactly when it
  takes less; a quote of zero is answered with zero amounts and no flag.\<close>

theorem quote_accounts_for_input:
  assumes "quote_with_price_upper_bound L v request upper_bound = Ok q"
  shows "cq_in_amount q \<le> req_amount request
    \<and> (cq_not_enough_liquidity q \<longleftrightarrow> cq_in_amount q < req_amount request)
    \<and> (req_amount request = 0 \<longrightarrow> cq_out_amount q = 0)"
proof -
  have "req_amount request = 0 \<longrightarrow> cq_out_amount q = 0"
    using assms by (cases rule: quote_OkE) auto
  with quote_amounts [OF assms] show ?thesis
    by blast
qed

lemma demo_quote:
  "\<exists>p. quote_with_price_upper_bound demo_lib (demo_core False) \<lparr>req_input_mint = m, req_output_mint = m', req_amount = amount, req_swap_type = t\<rparr> ub
     = Ok \<lparr>cq_in_amount = amount, cq_out_amount = amount, cq_not_enough_liquidity = False, cq_price = p\<rparr>"
  if "(m, m') = ([1], [2]) \<or> (m, m') = ([2], [1])"
proof -
  have core: "cv_reserve_mints (demo_core False) = ([1], [2])" "cv_amm_config (demo_core False) = Some ()" "cv_dynamic_tick_arrays (demo_core False) \<noteq> []"
    "cv_current_unix_timestamp (demo_core False) = 12" "pool_open_time (cv_pool_state (demo_core False)) = 3"
    by (simp_all add: demo_core_def demo_pool_def)
  have ready: "check_quote_ready demo_lib (demo_core False) = Ok ()"
    using core by (simp add: check_quote_ready_def ensure_swap_status_enabled_def)
  have fee: "compute_trade_fee_rate demo_lib (demo_core False) z 0 12 = Ok 1000" for z
    by (simp add: demo_fee_rate)
  have price: "\<exists>p. marginal_price_from_swap_state demo_lib z s f = Ok p" for z s f
    by (simp add: marginal_price_from_swap_state_def Let_def)
  have curve: "actual_curve_price demo_lib (demo_core False) z a sw c ts ub = Ok c" for z a sw c ts
    by (simp add: actual_curve_price_def)
  obtain p where p: "marginal_price_from_swap_state demo_lib (m = [1]) 1005 1000 = Ok p"
    using price by blast
  have val: "validate_mints (demo_core False) m m' = Ok (m = [1], m' = [1])"
    using that by (auto simp: validate_mints_def core)
  have pool: "pool_sqrt_price_x64 (cv_pool_state (demo_core False)) = 1005"
    by (simp add: demo_core_def demo_pool_def)
  show ?thesis
    by (simp add: quote_with_price_upper_bound_def val ready core fee p pool demo_compute_swap curve Let_def)
qed

theorem quote_accounts_for_input_witness:
  "\<exists>q. quote_with_price_upper_bound demo_lib (demo_core False) (demo_request 1000) None = Ok q
     \<and> cq_in_amount q = 1000 \<and> \<not> cq_not_enough_liquidity q"
proof -
  obtain p where q: "quote_with_price_upper_bound demo_lib (demo_core False) (demo_request 1000) None
      = Ok \<lparr>cq_in_amount = 1000, cq_out_amount = 1000, cq_not_enough_liquidity = False, cq_price = p\<rparr>"
    using demo_quote [of "[1]" "[2]" 1000 ExactIn None] by (auto simp: demo_request_def)
  from quote_accounts_for_input [OF q] q show ?thesis
    by auto
qed

text \<open>C28: with a dynamic fee, when the rates realised just below and just above the amount are finite,
  positive and not increasing, the reported price lies between them: it is at least the rate of the
  next chunk and at most the rate of the last one.\<close>

theorem curve_price_between_chords:
  assumes "venue_dynamic_fee_enabled L v" and "dynamic_fee_price_step v zero_for_one amount = Some step"
    and "compute_swap L v zero_for_one (amount - step) None ts = Ok prev" and "sw_amount_out prev < sw_amount_out swap"
    and "amount < ub" and "compute_swap L v zero_for_one (amount + min step (ub - amount)) None ts = Ok nxt"
    and "sw_amount_out swap < sw_amount_out nxt"
    and "f64_is_finite (chord prev swap step)" and "f64_lt (Fin 0) (chord prev swap step)"
    and "f64_is_finite (chord swap nxt (min step (ub - amount)))" and "f64_lt (Fin 0) (chord swap nxt (min step (ub - amount)))"
    and "f64_le (chord swap nxt (min step (ub - amount))) (chord prev swap step)" and "constant_fee_price \<noteq> NaN"
  shows "\<exists>p. actual_curve_price L v zero_for_one amount swap constant_fee_price ts (Some ub) = Ok p
    \<and> f64_le (chord swap nxt (min step (ub - amount))) p \<and> f64_le p (chord prev swap step)"
proof -
  let ?lo = "chord swap nxt (min step (ub - amount))" and ?hi = "chord prev swap step" and ?c = constant_fee_price
  note eq = curve_price_eq [OF assms(1-11), of ?c]
  show ?thesis
  proof (cases "f64_le ?lo (f64_min ?c ?hi)")
    case True
    then obtain p where "f64_clamp ?c ?lo (f64_min ?c ?hi) = (Ok p :: f64 any_result)"
      using f64_clamp_total by blast
    then show ?thesis
      using True f64_clamp_between [OF _ assms(13,12)] eq by (simp add: Let_def)
  next
    case False
    then show ?thesis
      using f64_max_between [OF False assms(13,12)] eq by (simp add: Let_def)
  qed
qed

lemma f64_one: "f64_of_word (1 :: u64) = Fin 1"
proof -
  have "ilog2 1 = 0"
    by (simp add: ilog2_def pow2_def bitlen_def)
  then have "round_mag 1 = 1"
    by (simp add: round_mag_def pow2_def round_half_even_def)
  then show ?thesis
    by (simp add: f64_of_word_def f64_of_rat_def)
qed

theorem curve_price_between_chords_witness:
  "\<exists>p. actual_curve_price demo_lib (demo_core True) True 1
      \<lparr>sw_amount_in = 1, sw_amount_out = 1, sw_sqrt_price_x64 = 1005, sw_fee_rate = 2000\<rparr> (Fin 2) 12 (Some 2) = Ok p
    \<and> f64_le (Fin 1) p \<and> f64_le p (Fin 1)"
proof -
  let ?sw = "\<lambda>a. \<lparr>sw_amount_in = a, sw_amount_out = a, sw_sqrt_price_x64 = 1005, sw_fee_rate = 2000\<rparr>"
  have step: "dynamic_fee_price_step (demo_core True) True 1 = Some 1"
    by (simp add: dynamic_fee_price_step_def input_token_unit_def demo_core_def demo_pool_def)
  have one: "f64_of_rat 1 = Fin 1"
    using f64_one by (simp add: f64_of_word_def)
  have chords: "chord (?sw 0) (?sw 1) 1 = Fin 1" "chord (?sw 1) (?sw 2) 1 = Fin 1"
    by (simp_all add: chord_def f64_one one)
  have m: "min (1 :: u64) (2 - 1) = 1" "(1 :: u64) + 1 = 2"
    by simp_all
  show ?thesis
    using curve_price_between_chords [of demo_lib "demo_core True" True 1 1 12 "?sw 0" "?sw 1" 2 "?sw 2" "Fin 2"]
      demo_compute_swap [of True True 0] demo_compute_swap [of True True 2] step
    by (simp add: chords m)
qed

text \<open>The reported price is positive whenever the constant-fee price is, whatever the neighbouring
  simulations return, and without a dynamic fee it is the constant-fee price.\<close>

theorem curve_price_positive:
  assumes "actual_curve_price L v zero_for_one amount swap constant_fee_price ts upper_bound = Ok p"
    and "f64_lt (Fin 0) constant_fee_price"
  shows "f64_lt (Fin 0) p \<and> (\<not> venue_dynamic_fee_enabled L v \<longrightarrow> p = constant_fee_price)"
proof
  show "\<not> venue_dynamic_fee_enabled L v \<longrightarrow> p = constant_fee_price"
    using assms(1) by (auto simp: actual_curve_price_def)
  have pos_clamp: "f64_lt (Fin 0) r" if "f64_clamp c lo hi = Ok r" "f64_lt (Fin 0) c" "f64_lt (Fin 0) lo" "f64_lt (Fin 0) hi" for c lo hi r
    using that by (auto simp: f64_clamp_def split: if_splits)
  have pos_min: "f64_lt (Fin 0) (f64_min a b)" if "f64_lt (Fin 0) a" "f64_lt (Fin 0) b" for a b
    using that f64_min_cases [of a b] by metis
  have pos_max: "f64_lt (Fin 0) (f64_max a b)" if "f64_lt (Fin 0) a" "f64_lt (Fin 0) b" for a b
    using that f64_max_cases [of a b] by metis
  have finite_pos: "f64_lt (Fin 0) a" if "f64_is_finite a" "\<not> f64_le a (Fin 0)" for a
    using that by (cases a) auto
  define upper where "upper r = (if f64_is_finite r \<and> f64_lt (Fin 0) r then f64_min constant_fee_price r else constant_fee_price)" for r
  have pos_upper: "f64_lt (Fin 0) (upper r)" for r
    using assms(2) pos_min by (simp add: upper_def)
  note price = assms(1) [unfolded actual_curve_price_def Let_def, folded upper_def]
  consider "p = constant_fee_price" | r where "p = upper r"
    | lo r where "f64_is_finite lo" "\<not> f64_le lo (Fin 0)" "f64_clamp constant_fee_price lo (upper r) = (Ok p :: f64 any_result)"
    | lo where "f64_is_finite lo" "\<not> f64_le lo (Fin 0)" "p = f64_max constant_fee_price lo"
    using price by (auto simp: and_then_Ok_iff split: if_split_asm option.split_asm)
  then show "f64_lt (Fin 0) p"
    by cases (use assms(2) pos_upper pos_max finite_pos pos_clamp in blast)+
qed

theorem curve_price_positive_witness:
  "f64_lt (Fin 0) (Fin 3) \<and> actual_curve_price demo_lib (demo_core False) True 5
     \<lparr>sw_amount_in = 5, sw_amount_out = 5, sw_sqrt_price_x64 = 1005, sw_fee_rate = 1000\<rparr> (Fin 3) 12 None = Ok (Fin 3)"
proof -
  have p: "actual_curve_price demo_lib (demo_core False) True 5
     \<lparr>sw_amount_in = 5, sw_amount_out = 5, sw_sqrt_price_x64 = 1005, sw_fee_rate = 1000\<rparr> (Fin 3) 12 None = Ok (Fin 3)"
    by (simp add: actual_curve_price_def)
  from curve_price_positive [OF p] p show ?thesis by simp
qed

text \<open>C31: the venue quotes only from complete state: a successful quote implies a clock after the pool's
  opening time, an enabled pool, two different mints of the pool, a loaded fee configuration, at least
  one loaded tick array and, under a dynamic fee, both vaults and two positive oracle prices at most an
  hour old.\<close>

theorem quote_needs_complete_state:
  assumes "quote_with_price_upper_bound L v request upper_bound = Ok q"
  shows "0 < cv_current_unix_timestamp v
    \<and> pool_open_time (cv_pool_state v) < word_of_int (cv_current_unix_timestamp v)
    \<and> status_swap_enabled (lib_pool L) (cv_pool_state v)
    \<and> req_input_mint request \<noteq> req_output_mint request
    \<and> {req_input_mint request, req_output_mint request} = {fst (cv_reserve_mints v), snd (cv_reserve_mints v)}
    \<and> cv_amm_config v \<noteq> None \<and> cv_dynamic_tick_arrays v \<noteq> []
    \<and> (venue_dynamic_fee_enabled L v \<longrightarrow>
         cv_token0_program_id v \<noteq> ZERO_PUBKEY \<and> cv_token1_program_id v \<noteq> ZERO_PUBKEY
       \<and> (\<exists>p0 p1. cv_token0_pyth_oracle_data v = Some p0 \<and> cv_token1_pyth_oracle_data v = Some p1
            \<and> 0 < price_price p0 \<and> 0 < price_price p1
            \<and> wrap_i64 (cv_current_unix_timestamp v - 3600) \<le> price_publish_time p0
            \<and> wrap_i64 (cv_current_unix_timestamp v - 3600) \<le> price_publish_time p1))"
proof -
  have val: "is_ok (validate_mints v (req_input_mint request) (req_output_mint request))"
    and ready: "check_quote_ready L v = Ok ()"
    using assms by (auto simp: quote_with_price_upper_bound_def and_then_Ok_iff)
  have mints: "req_input_mint request \<noteq> req_output_mint request"
    "{req_input_mint request, req_output_mint request} = {fst (cv_reserve_mints v), snd (cv_reserve_mints v)}"
    using val by (auto simp: validate_mints_def Let_def split: if_split_asm)
  have prices: "\<exists>p0 p1. cv_token0_pyth_oracle_data v = Some p0 \<and> cv_token1_pyth_oracle_data v = Some p1
            \<and> 0 < price_price p0 \<and> 0 < price_price p1
            \<and> wrap_i64 (cv_current_unix_timestamp v - 3600) \<le> price_publish_time p0
            \<and> wrap_i64 (cv_current_unix_timestamp v - 3600) \<le> price_publish_time p1"
    if "load_dynamic_pyth_prices v = Ok pp" for pp
    using that by (auto simp: load_dynamic_pyth_prices_def DYNAMIC_MAX_PYTH_AGE_SECONDS_def outcome_simps Let_def split: if_split_asm)
  show ?thesis
    using ready mints prices
    by (auto simp: check_quote_ready_def ensure_swap_status_enabled_def outcome_simps split: if_split_asm)
qed

theorem quote_needs_complete_state_witness:
  "\<exists>q. quote_with_price_upper_bound demo_lib (demo_core False) (demo_request 1000) None = Ok q
     \<and> cv_dynamic_tick_arrays (demo_core False) \<noteq> [] \<and> cv_amm_config (demo_core False) \<noteq> None"
proof -
  obtain q where "quote_with_price_upper_bound demo_lib (demo_core False) (demo_request 1000) None = Ok q"
    using demo_quote [of "[1]" "[2]" 1000 ExactIn None] by (auto simp: demo_request_def)
  with quote_needs_complete_state [OF this] show ?thesis by blast
qed

text \<open>C11: \<open>update_state\<close> implements its specification.  It succeeds exactly when the accounts decode as
  \<open>loaded\<close> asks, and then every field of the venue is the one the accounts determine: the clock, the
  pool (kept when its account is absent), the fee configuration, vaults and oracles of that pool, the
  bitmap extension, and the tick arrays at the addresses derived from them.\<close>

theorem update_state_implements_spec:
  "core_update_state L accounts v = (v', Ok ()) \<longleftrightarrow> loaded L accounts v v'"
  by (rule core_update_iff)

text \<open>C32: whatever the accounts and whether it succeeds or fails half way, an update keeps the market, the
  program and the array limit of the venue, the reserve mints equal to the mints of the pool, and one
  entry per tick array address.\<close>

theorem update_keeps_core_invariant:
  assumes "core_inv market program v"
  shows "core_inv market program (fst (core_update_state L accounts v))"
  by (rule core_update_inv [OF assms])

theorem update_keeps_core_invariant_witness:
  "core_inv [40] BYREAL_CLMM_PROGRAM_ID (fst (core_update_state demo_lib Map.empty (demo_core True)))"
  by (rule update_keeps_core_invariant) (simp add: core_inv_def demo_core_def demo_pool_def)

text \<open>A pool account that changed its owner is rejected with \<open>UnsupportedVenue\<close> before anything of it is
  decoded; only the clock of the venue has changed.\<close>

theorem owner_drift_rejected:
  assumes "accounts (cv_market_id v) = Some acc" and "acc_owner acc \<noteq> cv_program_id v"
    and "load_clock L accounts v = (v1, Ok ())"
  shows "core_update_state L accounts v = (v\<lparr>cv_current_unix_timestamp := cv_current_unix_timestamp v1\<rparr>,
    Err (UnsupportedVenue (EI_String (''Byreal CLMM pool owner must remain '' @ show_pubkey (lib_codec L) (cv_program_id v)
      @ '', got '' @ show_pubkey (lib_codec L) (acc_owner acc)))))"
proof -
  obtain t where "v1 = v\<lparr>cv_current_unix_timestamp := t\<rparr>"
    using assms(3) by (auto simp: load_clock_iff)
  with assms show ?thesis
    by (simp add: core_update_state_def update_pool_def)
qed

theorem owner_drift_rejected_witness:
  "core_update_state demo_lib [[30] \<mapsto> \<lparr>acc_lamports = 1, acc_data = [0, 0], acc_owner = [5]\<rparr>,
       [40] \<mapsto> \<lparr>acc_lamports = 1, acc_data = [1], acc_owner = [6]\<rparr>] (demo_core False)
   = ((demo_core False)\<lparr>cv_current_unix_timestamp := 2\<rparr>,
      Err (UnsupportedVenue (EI_String ''Byreal CLMM pool owner must remain key, got key'')))"
proof -
  let ?A = "[[30] \<mapsto> \<lparr>acc_lamports = 1, acc_data = [0, 0], acc_owner = [5]\<rparr>,
       [40] \<mapsto> \<lparr>acc_lamports = 1, acc_data = [1], acc_owner = [6]\<rparr>] :: account_map"
  have "load_clock demo_lib ?A (demo_core False) = ((demo_core False)\<lparr>cv_current_unix_timestamp := 2\<rparr>, Ok ())"
    by (simp add: load_clock_def demo_lib_def demo_codec_lib_def)
  from owner_drift_rejected [OF _ _ this, of "\<lparr>acc_lamports = 1, acc_data = [1], acc_owner = [6]\<rparr>"] show ?thesis
    by (simp add: demo_core_def demo_lib_def demo_codec_lib_def BYREAL_CLMM_PROGRAM_ID_def)
qed

text \<open>C29: a swap instruction goes to the pool's program with the amount and threshold of the request as data,
  and lists exactly these accounts, with these signer and writable flags: the fourteen fixed ones, vaults
  and mints in the direction of the swap; the loaded tick arrays of that direction in order, starting with
  the first array the swap needs and at most as many as the venue's limit; and the oracles of both
  tokens' price feeds, on shard 0, when the fee is dynamic.  Only the user signs.\<close>

theorem swap_instruction_layout:
  assumes "build_swap_instruction L v request = Ok ix" and "z \<longleftrightarrow> sb_source_mint request = fst (cv_reserve_mints v)"
  shows "ix_program_id ix = cv_program_id v
    \<and> ix_data ix = SwapV3Dyn_data (lib_codec L) (sb_amount request) (sb_other_amount_threshold request) 0 True
    \<and> (\<exists>live. map (\<lambda>m. (am_pubkey m, am_is_signer m, am_is_writable m)) (ix_accounts ix) =
         [(sb_user_authority request, True, False),
          (pool_amm_config (cv_pool_state v), False, False),
          (cv_market_id v, False, True),
          (sb_source_token_account request, False, True),
          (sb_destination_token_account request, False, True),
          (if z then pool_token_vault_0 (cv_pool_state v) else pool_token_vault_1 (cv_pool_state v), False, True),
          (if z then pool_token_vault_1 (cv_pool_state v) else pool_token_vault_0 (cv_pool_state v), False, True),
          (pool_observation_key (cv_pool_state v), False, True),
          (token_program_id (lib_spl (lib_codec L)), False, False),
          (token_2022_program_id (lib_spl (lib_codec L)), False, False),
          (spl_memo_id (lib_codec L), False, False),
          (if z then pool_token_mint_0 (cv_pool_state v) else pool_token_mint_1 (cv_pool_state v), False, False),
          (if z then pool_token_mint_1 (cv_pool_state v) else pool_token_mint_0 (cv_pool_state v), False, False),
          (find_program_address (lib_codec L) [POOL_TICK_ARRAY_BITMAP_SEED, cv_market_id v] (cv_program_id v), False, False)]
         @ map (\<lambda>k. (k, False, True)) live
         @ (if is_swap_dynamic_fee_enabled (lib_pool L) (cv_pool_state v)
            then map (\<lambda>feed. (find_program_address (lib_codec L) [[0, 0], feed] (pyth_push_oracle_id (lib_codec L)), False, False))
                   [pool_token0_pyth_feed_id (cv_pool_state v), pool_token1_pyth_feed_id (cv_pool_state v)]
            else [])
        \<and> live = filter (\<lambda>k. map_of (cv_dynamic_tick_arrays v) k \<noteq> None) (get_swap_tick_arrays L v z)
        \<and> live \<noteq> [] \<and> hd live = hd (get_swap_tick_arrays L v z)
        \<and> length live \<le> max 1 (cv_max_one_side_tick_arrays v))"
proof -
  from assms(1) obtain z' live pyth where z: "z' \<longleftrightarrow> sb_source_mint request = fst (cv_reserve_mints v)"
    and live: "live_directional_tick_arrays L v z' = Ok live" and pyth: "swap_pyth_accounts L v = Ok pyth"
    and ix: "ix = \<lparr>ix_program_id = cv_program_id v,
           ix_accounts = swap_base_accounts L v request z' @ map (\<lambda>k. meta_new k False) live @ pyth,
           ix_data = SwapV3Dyn_data (lib_codec L) (sb_amount request) (sb_other_amount_threshold request) 0 True\<rparr>"
    by (rule build_swap_instruction_OkE)
  have zz: "z' = z"
    using z assms(2) by simp
  note pyth' = swap_pyth_accounts_Ok [OF pyth]
  note live' = live_arrays_Ok [OF live [unfolded zz]]
  show ?thesis
    unfolding ix
    by (rule conjI, simp, rule conjI, simp, rule exI [of _ live], rule conjI)
      (simp add: swap_base_accounts_def Let_def zz pyth' meta_new_def meta_new_readonly_def tick_array_bitmap_extension_key_def comp_def,
        use live' in blast)
qed

definition demo_build :: SwapBuildRequest where
  "demo_build = \<lparr>sb_user_authority = [50], sb_source_mint = [1], sb_destination_mint = [2], sb_source_token_account = [51],
     sb_destination_token_account = [52], sb_amount = 700, sb_other_amount_threshold = 0\<rparr>"

lemma be_bytes_0: "i32_to_be_bytes 0 = [0, 0, 0, 0]"
proof -
  have "nat_le_bytes 4 0 = replicate 4 0"
    by (rule nat_le_bytes_zero)
  also have "\<dots> = [0, 0, 0, 0]"
    by (simp add: numeral_eq_Suc)
  finally have "nat_le_bytes 4 0 = [0, 0, 0, 0]" .
  then show ?thesis
    by (simp add: i32_to_be_bytes_def)
qed

lemma demo_address: "get_tick_array_address demo_lib (demo_core d) 0 = [116, 40, 0, 0, 0, 0]"
  by (simp add: get_tick_array_address_def demo_lib_def demo_tick_lib_def demo_codec_lib_def demo_core_def be_bytes_0)

lemma demo_live: "live_directional_tick_arrays demo_lib (demo_core d) z = Ok [[116, 40, 0, 0, 0, 0]]"
proof -
  have starts: "swap_tick_array_starts demo_lib (demo_core d) z = [0]"
    by (simp add: swap_tick_array_starts_def demo_lib_def demo_pool_lib_def demo_core_def eval_nat_numeral)
  have loaded: "map_of (cv_dynamic_tick_arrays (demo_core d)) [116, 40, 0, 0, 0, 0] = Some (Fixed demo_array)"
    by (simp add: demo_core_def)
  show ?thesis
    by (simp add: live_directional_tick_arrays_def get_swap_tick_arrays_def starts demo_address loaded)
qed

lemma demo_build_any:
  assumes "sb_source_mint r = [1]" and "sb_destination_mint r = [2]"
  shows "\<exists>ix. build_swap_instruction demo_lib (demo_core False) r = Ok ix"
proof -
  have core: "cv_reserve_mints (demo_core False) = ([1], [2])" "cv_current_unix_timestamp (demo_core False) = 12"
    "pool_open_time (cv_pool_state (demo_core False)) = 3"
    by (simp_all add: demo_core_def demo_pool_def)
  show ?thesis
    by (simp add: build_swap_instruction_def core ensure_swap_status_enabled_def validate_mints_def assms demo_live
        swap_pyth_accounts_def)
qed

lemma demo_build_Ok: "\<exists>ix. build_swap_instruction demo_lib (demo_core False) demo_build = Ok ix"
  by (rule demo_build_any) (simp_all add: demo_build_def)

theorem swap_instruction_layout_witness:
  "\<exists>ix. build_swap_instruction demo_lib (demo_core False) demo_build = Ok ix
     \<and> map am_pubkey (take 7 (ix_accounts ix)) = [[50], [10], [40], [51], [52], [11], [12]]
     \<and> map am_is_writable (take 7 (ix_accounts ix)) = [False, False, True, True, True, True, True]"
proof -
  obtain ix where ix: "build_swap_instruction demo_lib (demo_core False) demo_build = Ok ix"
    using demo_build_Ok by blast
  have facts: "sb_user_authority demo_build = [50]" "pool_amm_config (cv_pool_state (demo_core False)) = [10]"
    "cv_market_id (demo_core False) = [40]" "sb_source_token_account demo_build = [51]" "sb_destination_token_account demo_build = [52]"
    "pool_token_vault_0 (cv_pool_state (demo_core False)) = [11]" "pool_token_vault_1 (cv_pool_state (demo_core False)) = [12]"
    "sb_source_mint demo_build = fst (cv_reserve_mints (demo_core False))"
    by (simp_all add: demo_core_def demo_build_def demo_pool_def)
  obtain rest where accounts: "map (\<lambda>m. (am_pubkey m, am_is_signer m, am_is_writable m)) (ix_accounts ix) =
      [([50], True, False), ([10], False, False), ([40], False, True), ([51], False, True), ([52], False, True), ([11], False, True),
       ([12], False, True)] @ rest"
    using swap_instruction_layout [OF ix, of True] by (auto simp: facts)
  have "map f (take 7 (ix_accounts ix)) = map g (take 7 (map (\<lambda>m. (am_pubkey m, am_is_signer m, am_is_writable m)) (ix_accounts ix)))"
    if "\<And>m. f m = g (am_pubkey m, am_is_signer m, am_is_writable m)" for f and g :: "pubkey \<times> bool \<times> bool \<Rightarrow> 'a"
    by (simp add: take_map that comp_def)
  from this [of am_pubkey fst] this [of am_is_writable "snd \<circ> snd"] show ?thesis
    using ix unfolding accounts by auto
qed

end
