(* ===== verification/Byreal_Properties.thy ===== *)
theory Byreal_Properties
  imports Byreal_Venue Clmm_Properties
begin

text \<open>
  The Byreal venue as a whole: its invariant, the interpretation of the venue contract
  \<open>swap_venue\<close>, what the two-phase update reads, what it caches, and what quotes and bounds promise
  afterwards.
\<close>

subsection \<open>The invariant\<close>

definition venue_inv :: "pubkey \<Rightarrow> 'x ByrealClmmVenue \<Rightarrow> bool" where
  "venue_inv market v \<longleftrightarrow>
     core_inv market BYREAL_CLMM_PROGRAM_ID (bv_core v)
   \<and> length (bv_token_info v) = 2 \<and> length (bv_bounds_cache v) = 2
   \<and> (bv_initialized v \<longrightarrow> None \<notin> set (bv_bounds_cache v))"

lemma venue_inv_epoch [simp]: "venue_inv m (v\<lparr>bv_current_epoch := e\<rparr>) = venue_inv m v"
  by (simp add: venue_inv_def)

lemma refresh_tokens_Ok:
  "refresh_tokens L A epoch ms = Ok toks \<Longrightarrow> map ti_pubkey toks = map fst ms \<and> (\<forall>t \<in> set toks. 0 \<le> ti_decimals t)"
proof (induction ms arbitrary: toks)
  case (Cons m ms)
  then show ?case
    by (cases m) (fastforce simp: outcome_simps split: option.split_asm dest: token_info_new_Ok)
qed simp

lemma from_account_inv:
  assumes "from_account L k acc = Ok v"
  shows "venue_inv k v" and "\<not> bv_initialized v"
proof -
  obtain core where core: "from_pool_state_account L k (acc_owner acc) (acc_data acc) = Ok core"
    and own: "acc_owner acc = BYREAL_CLMM_PROGRAM_ID"
    and v: "v = \<lparr>bv_core = core, bv_token_info = base_token_info core, bv_initialized = False,
                 bv_current_epoch = 0, bv_bounds_cache = [None, None]\<rparr>"
    using assms by (auto simp: from_account_def and_then_Ok_iff split: if_split_asm)
  have "core_inv k BYREAL_CLMM_PROGRAM_ID core"
    using from_pool_state_inv [OF core] own by simp
  then show "venue_inv k v" "\<not> bv_initialized v"
    by (auto simp: venue_inv_def v base_token_info_def token_mints_def mint_decimals_def)
qed

lemma update_core_inv: "venue_inv m v \<Longrightarrow> venue_inv m (fst (update_core L A v))"
  using core_update_inv [of m BYREAL_CLMM_PROGRAM_ID "bv_core v" L A]
  by (auto simp: venue_inv_def update_core_def split: prod.split)

lemma refresh_token_info_inv:
  assumes "venue_inv m v"
  shows "venue_inv m (fst (refresh_token_info L A e v))"
proof (cases "refresh_tokens L A e (zip (token_mints (bv_core v)) (mint_decimals (bv_core v)))")
  case (Ok toks)
  then have "length toks = 2"
    using refresh_tokens_Ok [OF Ok] by (auto simp: token_mints_def mint_decimals_def dest!: arg_cong [where f = length])
  with Ok assms show ?thesis
    by (simp add: refresh_token_info_def venue_inv_def)
qed (use assms in \<open>simp_all add: refresh_token_info_def\<close>)

lemma refresh_bounds_cache_cases:
  "(\<exists>b0 b1. refresh_bounds_cache L v = (v\<lparr>bv_bounds_cache := [Some b0, Some b1]\<rparr>, Ok ())
      \<and> find_boundaries (quote_for_bounds L (bv_core v) (token_mints (bv_core v) ! 0) (token_mints (bv_core v) ! 1)) = Ok b0
      \<and> find_boundaries (quote_for_bounds L (bv_core v) (token_mints (bv_core v) ! 1) (token_mints (bv_core v) ! 0)) = Ok b1)
   \<or> (fst (refresh_bounds_cache L v) = v \<and> \<not> is_ok (snd (refresh_bounds_cache L v)))"
  by (cases "find_boundaries (quote_for_bounds L (bv_core v) (token_mints (bv_core v) ! 0) (token_mints (bv_core v) ! 1))";
      cases "find_boundaries (quote_for_bounds L (bv_core v) (token_mints (bv_core v) ! 1) (token_mints (bv_core v) ! 0))")
    (simp_all add: refresh_bounds_cache_def Let_def del: split_paired_Ex)

lemma refresh_bounds_cache_inv:
  assumes "venue_inv m v"
  shows "venue_inv m (fst (refresh_bounds_cache L v))"
    and "refresh_bounds_cache L v = (v', Ok ()) \<Longrightarrow> None \<notin> set (bv_bounds_cache v')"
  using refresh_bounds_cache_cases [of L v] assms by (auto simp: venue_inv_def)

lemma finish_update_inv:
  assumes "venue_inv m v"
  shows "venue_inv m (fst (finish_update L A v))"
  unfolding finish_update_def
proof (intro st_then_keeps [where P = "venue_inv m"])
  show "venue_inv m (fst (update_core L A v))"
    using assms by (rule update_core_inv)
next
  fix v3 v4 :: "'a ByrealClmmVenue" and a assume "refresh_bounds_cache L v3 = (v4, Ok a)" "venue_inv m v3" "venue_inv m v4"
  then show "venue_inv m (fst (v4\<lparr>bv_initialized := True\<rparr>, Ok ()))"
    using refresh_bounds_cache_inv(2) [of m v3 L v4] by (simp add: venue_inv_def)
qed (simp_all add: refresh_token_info_inv refresh_bounds_cache_inv(1))

lemma fst_fetching [simp]: "fst (fst (fetching ga keys s)) = fst s"
  by (simp add: fetching_def split: prod.split)

lemma fst_on_venue [simp]: "fst (fst (on_venue f s)) = fst (f (fst s))"
  by (simp add: on_venue_def split: prod.split)

lemma venue_update_inv:
  assumes "venue_inv m v"
  shows "venue_inv m (fst (fst (venue_update_state L ga v c)))"
  unfolding venue_update_state_def
  by (intro st_then_keeps [where P = "\<lambda>s. venue_inv m (fst s)"])
    (simp_all add: assms update_core_inv finish_update_inv)

subsection \<open>The venue contract of the route builder\<close>

lemma generate_swap_instruction_OkE:
  assumes "generate_swap_instruction L v req user = Ok ix"
  obtains r where "build_swap_instruction L (bv_core v) r = Ok ix" "sb_user_authority r = user"
    "sb_amount r = req_amount req" "sb_other_amount_threshold r = 0" "sb_source_mint r = req_input_mint req"
    "bv_initialized v" "req_swap_type req = ExactIn"
proof -
  obtain ti tj where b: "build_swap_instruction L (bv_core v)
            \<lparr>sb_user_authority = user, sb_source_mint = req_input_mint req,
             sb_destination_mint = req_output_mint req,
             sb_source_token_account = get_associated_token_address (lib_spl (lib_codec L)) ti user,
             sb_destination_token_account = get_associated_token_address (lib_spl (lib_codec L)) tj user,
             sb_amount = req_amount req, sb_other_amount_threshold = 0\<rparr> = Ok ix"
    and "bv_initialized v" "req_swap_type req = ExactIn"
    using assms by (auto simp: generate_swap_instruction_def and_then_Ok_iff split: if_split_asm)
  from that [OF b] this(2,3) show ?thesis by simp
qed

lemma generated_accounts:
  assumes "venue_inv m v" and "generate_swap_instruction L v req user = Ok ix"
  shows "ix_program_id ix = BYREAL_CLMM_PROGRAM_ID" and "length (ix_accounts ix) \<le> 22"
    and "\<And>a. a \<in> set (ix_accounts ix) \<Longrightarrow> am_is_signer a \<Longrightarrow> am_pubkey a = user"
proof -
  have core: "cv_max_one_side_tick_arrays (bv_core v) = 6" "cv_program_id (bv_core v) = BYREAL_CLMM_PROGRAM_ID"
    using assms(1) by (simp_all add: venue_inv_def core_inv_def)
  from assms(2) obtain r where r: "build_swap_instruction L (bv_core v) r = Ok ix" and user: "sb_user_authority r = user"
    by (rule generate_swap_instruction_OkE)
  from r obtain z live pyth where live: "live_directional_tick_arrays L (bv_core v) z = Ok live"
    and pyth: "swap_pyth_accounts L (bv_core v) = Ok pyth"
    and ix: "ix = \<lparr>ix_program_id = cv_program_id (bv_core v),
           ix_accounts = swap_base_accounts L (bv_core v) r z @ map (\<lambda>k. meta_new k False) live @ pyth,
           ix_data = SwapV3Dyn_data (lib_codec L) (sb_amount r) (sb_other_amount_threshold r) 0 True\<rparr>"
    by (rule build_swap_instruction_OkE)
  have "length live \<le> max 1 (cv_max_one_side_tick_arrays (bv_core v))"
    using live_arrays_Ok [OF live] by blast
  then have "length live \<le> 6"
    by (simp add: core(1))
  moreover have "length pyth \<le> 2" "\<forall>a \<in> set pyth. \<not> am_is_signer a"
    using swap_pyth_accounts_flags [OF pyth] by (simp_all split: if_splits)
  ultimately show "ix_program_id ix = BYREAL_CLMM_PROGRAM_ID" "length (ix_accounts ix) \<le> 22"
    "\<And>a. a \<in> set (ix_accounts ix) \<Longrightarrow> am_is_signer a \<Longrightarrow> am_pubkey a = user"
    using core(2) swap_base_signers [of _ L "bv_core v" r z] user by (auto simp: ix)
qed

interpretation byreal: swap_venue "byreal_obj L" "venue_inv m" for L m
proof unfold_locales
  fix v req user ix a
  assume v: "venue_inv m v" and gen: "vo_generate_swap_instruction (byreal_obj L v) req user = Ok ix"
  then have g: "generate_swap_instruction L v req user = Ok ix"
    by (simp add: byreal_obj_def)
  show "ix_program_id ix = vo_program_id (byreal_obj L v)"
    using generated_accounts(1) [OF v g] v by (simp add: byreal_obj_def venue_inv_def core_inv_def)
  show "length (ix_accounts ix) < 255"
    using generated_accounts(2) [OF v g] by simp
  show "a \<in> set (ix_accounts ix) \<Longrightarrow> am_is_signer a \<Longrightarrow> am_pubkey a = user"
    by (rule generated_accounts(3) [OF v g])
qed

subsection \<open>What an update reads\<close>

lemma collect_accounts_eq: "collect_accounts (zip keys (map S keys)) m = m ++ (S |` set keys)"
proof (induction keys arbitrary: m)
  case (Cons k keys)
  have "(case S k of Some a \<Rightarrow> m(k \<mapsto> a) | None \<Rightarrow> m) ++ S |` set keys = m ++ S |` set (k # keys)"
    by (auto simp: map_add_def restrict_map_def fun_eq_iff split: option.split)
  then show ?case
    using Cons by simp
qed simp

context accounts_cache
begin

lemma fetch_snapshot:
  assumes "shows_snapshot c S" and "fetch_account_map get_accounts c keys = (c', Ok m)"
  shows "m = S |` set keys" and "shows_snapshot c' S"
proof -
  obtain accs where ga: "get_accounts c keys = (c', Ok accs)" and m: "m = collect_accounts (zip keys accs) Map.empty"
    using assms(2) by (auto simp: fetch_account_map_def outcome_simps split: prod.split_asm)
  show "m = S |` set keys"
    using answers [OF assms(1) ga] by (simp add: m collect_accounts_eq)
  show "shows_snapshot c' S"
    using assms(1) ga by (rule keeps_snapshot)
qed

lemma fetching_snapshot:
  assumes "shows_snapshot (snd s) S" and "fetching get_accounts keys s = (s', Ok m)"
  shows "m = S |` set keys" and "shows_snapshot (snd s') S" and "fst s' = fst s"
proof -
  obtain c' where "fetch_account_map get_accounts (snd s) keys = (c', Ok m)" "s' = (fst s, c')"
    using assms(2) by (auto simp: fetching_def split: prod.split_asm)
  then show "m = S |` set keys" "shows_snapshot (snd s') S" "fst s' = fst s"
    using fetch_snapshot [OF assms(1)] by auto
qed

lemma update_phases:
  assumes "shows_snapshot c S" and "venue_update_state L get_accounts v c = ((v', c'), Ok ())"
  obtains core1 where
    "core_update_state L (S |` set (with_mints (bv_core v) (base_accounts_to_update L (bv_core v)))) (bv_core v) = (core1, Ok ())"
    "finish_update L (S |` set (with_mints core1 (accounts_to_update L core1))) (v\<lparr>bv_core := core1\<rparr>) = (v', Ok ())"
    "shows_snapshot c' S"
proof -
  from assms(2) obtain s1 A s2 s3 B where
    f1: "fetching get_accounts (with_mints (bv_core v) (base_accounts_to_update L (bv_core v))) (v, c) = (s1, Ok A)"
    and u1: "on_venue (update_core L A) s1 = (s2, Ok ())"
    and f2: "fetching get_accounts (with_mints (bv_core (fst s2)) (accounts_to_update L (bv_core (fst s2)))) s2 = (s3, Ok B)"
    and u2: "on_venue (finish_update L B) s3 = ((v', c'), Ok ())"
    unfolding venue_update_state_def st_then_Ok_iff by auto
  have s1: "A = S |` set (with_mints (bv_core v) (base_accounts_to_update L (bv_core v)))" "shows_snapshot (snd s1) S" "fst s1 = v"
    using fetching_snapshot [OF _ f1] assms(1) by auto
  obtain core1 where core1: "core_update_state L A (bv_core v) = (core1, Ok ())" and s2: "s2 = (v\<lparr>bv_core := core1\<rparr>, snd s1)"
    using u1 s1(3) by (auto simp: on_venue_def update_core_def split: prod.split_asm)
  have s3: "B = S |` set (with_mints core1 (accounts_to_update L core1))" "shows_snapshot (snd s3) S" "fst s3 = v\<lparr>bv_core := core1\<rparr>"
    using fetching_snapshot [OF _ f2] s1(2) s2 by auto
  have "finish_update L B (v\<lparr>bv_core := core1\<rparr>) = (v', Ok ())" "c' = snd s3"
    using u2 s3(3) by (auto simp: on_venue_def split: prod.split_asm)
  with core1 s1 s3 that show ?thesis by simp
qed

end

lemma finish_update_OkE:
  assumes "finish_update L A v = (v', Ok ())"
  obtains core' epoch toks b0 b1 where "core_update_state L A (bv_core v) = (core', Ok ())"
    "clock_from_account_map L A = Ok epoch"
    "refresh_tokens L A epoch (zip (token_mints core') (mint_decimals core')) = Ok toks"
    "find_boundaries (quote_for_bounds L core' (token_mints core' ! 0) (token_mints core' ! 1)) = Ok b0"
    "find_boundaries (quote_for_bounds L core' (token_mints core' ! 1) (token_mints core' ! 0)) = Ok b1"
    "v' = \<lparr>bv_core = core', bv_token_info = toks, bv_initialized = True, bv_current_epoch = epoch,
          bv_bounds_cache = [Some b0, Some b1]\<rparr>"
proof -
  from assms obtain v1 epoch v2 v3 where u: "update_core L A v = (v1, Ok ())"
    and e: "clock_from_account_map L A = Ok epoch"
    and t: "refresh_token_info L A epoch (v1\<lparr>bv_current_epoch := epoch\<rparr>) = (v2, Ok ())"
    and b: "refresh_bounds_cache L v2 = (v3, Ok ())" and v': "v' = v3\<lparr>bv_initialized := True\<rparr>"
    by (auto simp: finish_update_def st_then_Ok_iff)
  obtain core' where core': "core_update_state L A (bv_core v) = (core', Ok ())" "v1 = v\<lparr>bv_core := core'\<rparr>"
    using u by (auto simp: update_core_def split: prod.split_asm)
  then obtain toks where toks: "refresh_tokens L A epoch (zip (token_mints core') (mint_decimals core')) = Ok toks"
    "v2 = v\<lparr>bv_core := core', bv_current_epoch := epoch, bv_token_info := toks\<rparr>"
    using t by (auto simp: refresh_token_info_def st_then_Ok_iff)
  from b refresh_bounds_cache_cases [of L v2] obtain b0 b1 where
    "v3 = v2\<lparr>bv_bounds_cache := [Some b0, Some b1]\<rparr>"
    "find_boundaries (quote_for_bounds L core' (token_mints core' ! 0) (token_mints core' ! 1)) = Ok b0"
    "find_boundaries (quote_for_bounds L core' (token_mints core' ! 1) (token_mints core' ! 0)) = Ok b1"
    by (auto simp: toks(2) simp del: split_paired_Ex)
  then show ?thesis
    using that [OF core'(1) e toks(1)] by (simp add: v' toks(2))
qed

lemma update_finishes:
  assumes "venue_update_state L ga v c = ((v', c'), Ok ())"
  obtains A w where "finish_update L A w = (v', Ok ())"
proof -
  from assms obtain B s where "on_venue (finish_update L B) s = ((v', c'), Ok ())"
    unfolding venue_update_state_def st_then_Ok_iff by auto
  then show ?thesis
    by (intro that [of B "fst s"]) (auto simp: on_venue_def split: prod.split_asm)
qed

lemma keys_of_update:
  "cv_market_id core \<in> set (with_mints core (base_accounts_to_update L core))"
  "tick_array_bitmap_extension_key L core \<in> set (with_mints core (base_accounts_to_update L core))"
  "cv_market_id core \<in> set (with_mints core (accounts_to_update L core))"
  "tick_array_bitmap_extension_key L core \<in> set (with_mints core (accounts_to_update L core))"
  by (auto simp: with_mints_def token_mints_def push_unique_def base_accounts_to_update_def accounts_to_update_def)

lemma with_mints_cong: "cv_pool_state v = cv_pool_state w \<Longrightarrow> with_mints v keys = with_mints w keys"
  by (simp add: with_mints_def token_mints_def)

lemma two_phases_pool:
  assumes "core_update_state L (S |` set (with_mints core (base_accounts_to_update L core))) core = (core1, Ok ())"
    and "core_update_state L (S |` set (with_mints core1 (accounts_to_update L core1))) core1 = (core2, Ok ())"
  shows "cv_pool_state core2 = cv_pool_state core1" and "cv_bitmap_extension core2 = cv_bitmap_extension core1"
proof -
  have "loaded L (S |` set (with_mints core (base_accounts_to_update L core))) core core1"
    using assms(1) by (simp add: core_update_iff)
  then have ids: "cv_market_id core1 = cv_market_id core" "cv_program_id core1 = cv_program_id core"
    by (simp_all add: loaded_def)
  then have "tick_array_bitmap_extension_key L core1 = tick_array_bitmap_extension_key L core"
    by (simp add: tick_array_bitmap_extension_key_def)
  then show "cv_pool_state core2 = cv_pool_state core1" "cv_bitmap_extension core2 = cv_bitmap_extension core1"
    using same_pool [OF assms] ids keys_of_update [where core = core and L = L] keys_of_update [where core = core1 and L = L]
    by simp_all
qed

text \<open>The two phases together: the final state is the one its own required accounts determine.\<close>

lemma two_phases:
  assumes "core_update_state L (S |` set (with_mints core (base_accounts_to_update L core))) core = (core1, Ok ())"
    and "core_update_state L (S |` set (with_mints core1 (accounts_to_update L core1))) core1 = (core2, Ok ())"
  shows "core_update_state L (S |` set (with_mints core2 (accounts_to_update L core2))) core = (core2, Ok ())"
proof -
  let ?A = "S |` set (with_mints core (base_accounts_to_update L core))"
  let ?B = "S |` set (with_mints core1 (accounts_to_update L core1))"
  have l1: "loaded L ?A core core1"
    using assms(1) by (simp add: core_update_iff)
  then have ids: "cv_market_id core1 = cv_market_id core" "cv_program_id core1 = cv_program_id core"
    "cv_max_one_side_tick_arrays core1 = cv_max_one_side_tick_arrays core"
    by (simp_all add: loaded_def)
  then have ext: "tick_array_bitmap_extension_key L core1 = tick_array_bitmap_extension_key L core"
    by (simp add: tick_array_bitmap_extension_key_def)
  have at: "?A (cv_market_id core) = S (cv_market_id core)" "?B (cv_market_id core) = S (cv_market_id core)"
    "?A (tick_array_bitmap_extension_key L core) = S (tick_array_bitmap_extension_key L core)"
    "?B (tick_array_bitmap_extension_key L core) = S (tick_array_bitmap_extension_key L core)"
    using keys_of_update [where core = core and L = L] keys_of_update [where core = core1 and L = L] ids ext by simp_all
  have same: "cv_pool_state core2 = cv_pool_state core1" "cv_bitmap_extension core2 = cv_bitmap_extension core1"
    "cv_market_id core2 = cv_market_id core1" "cv_program_id core2 = cv_program_id core1"
    "cv_max_one_side_tick_arrays core2 = cv_max_one_side_tick_arrays core1"
    using same_pool [OF assms] at ids by simp_all
  have keys: "with_mints core2 (accounts_to_update L core2) = with_mints core1 (accounts_to_update L core1)"
    using accounts_to_update_cong [OF same(1,2,5,3,4), of L] with_mints_cong [OF same(1)] by simp
  show ?thesis
    unfolding keys
  proof (rule update_forgets [OF assms(2)])
    assume "?B (cv_market_id core1) = None"
    then show "cv_pool_state core = cv_pool_state core1 \<and> cv_reserve_mints core = cv_reserve_mints core1"
      using l1 at ids by (simp add: loaded_def pool_loaded_def)
  qed (simp_all add: ids)
qed

lemma rpc_update_spec:
  assumes "cache_shows c S" and "venue_update_state L cache_get_accounts v c = ((v', c'), Ok ())"
  shows "core_update_state L (S |` set (with_mints (bv_core v') (accounts_to_update L (bv_core v')))) (bv_core v) = (bv_core v', Ok ())"
    and "map ti_pubkey (bv_token_info v') = token_mints (bv_core v')" and "bv_initialized v'" and "cache_shows c' S"
proof -
  from assms obtain core1 where
    c1: "core_update_state L (S |` set (with_mints (bv_core v) (base_accounts_to_update L (bv_core v)))) (bv_core v) = (core1, Ok ())"
    and fin: "finish_update L (S |` set (with_mints core1 (accounts_to_update L core1))) (v\<lparr>bv_core := core1\<rparr>) = (v', Ok ())"
    and "cache_shows c' S"
    by (rule rpc.update_phases)
  from fin obtain core' epoch toks b0 b1 where
    c2: "core_update_state L (S |` set (with_mints core1 (accounts_to_update L core1))) core1 = (core', Ok ())"
    and toks: "refresh_tokens L (S |` set (with_mints core1 (accounts_to_update L core1))) epoch
      (zip (token_mints core') (mint_decimals core')) = Ok toks"
    and v': "v' = \<lparr>bv_core = core', bv_token_info = toks, bv_initialized = True, bv_current_epoch = epoch,
          bv_bounds_cache = [Some b0, Some b1]\<rparr>"
    by (rule finish_update_OkE) auto
  show "core_update_state L (S |` set (with_mints (bv_core v') (accounts_to_update L (bv_core v')))) (bv_core v) = (bv_core v', Ok ())"
    using two_phases [OF c1 c2] by (simp add: v')
  show "map ti_pubkey (bv_token_info v') = token_mints (bv_core v')"
    using refresh_tokens_Ok [OF toks] by (simp add: v' token_mints_def mint_decimals_def)
  show "bv_initialized v'" "cache_shows c' S"
    by (simp_all add: v' \<open>cache_shows c' S\<close>)
qed

subsection \<open>When an update succeeds\<close>

lemma rpc_fetch:
  assumes "cache_shows c S" and "\<And>ks. is_ok (rpc_get_multiple_accounts (rc_rpc_client c) ks)"
  shows "\<exists>c'. fetching cache_get_accounts keys (v, c) = ((v, c'), Ok (S |` set keys))
    \<and> cache_shows c' S \<and> rc_rpc_client c' = rc_rpc_client c"
  using get_accounts_served [OF assms, of keys] by (auto simp: fetching_def fetch_account_map_def collect_accounts_eq)

lemma refresh_tokens_succeeds:
  assumes "\<forall>m \<in> set (map fst ms). \<exists>acc info. A m = Some acc \<and> token_info_new (lib_spl (lib_codec L)) m acc epoch = Ok info"
  shows "\<exists>toks. refresh_tokens L A epoch ms = Ok toks"
  using assms
proof (induction ms)
  case (Cons m ms)
  moreover obtain k d where "m = (k, d)"
    by fastforce
  ultimately show ?case by auto
qed simp

lemma refresh_bounds_cache_outcome:
  assumes "\<And>m m'. total_quotes (quote_for_bounds L (bv_core v) m m')"
  shows "if \<forall>(i, j) \<in> {(0, 1), (1, 0)}. \<exists>k < 64. quotable (quote_for_bounds L (bv_core v) (token_mints (bv_core v) ! i) (token_mints (bv_core v) ! j)) (2 ^ k)
    then \<exists>b0 b1. refresh_bounds_cache L v = (v\<lparr>bv_bounds_cache := [Some b0, Some b1]\<rparr>, Ok ())
    else refresh_bounds_cache L v = (v, Err (NoQuotableValue (EI_StaticStr ''No quotable value found; exponential search hit u64::MAX'')))"
  using find_boundaries_total [OF assms, of "token_mints (bv_core v) ! 0" "token_mints (bv_core v) ! 1"]
    find_boundaries_total [OF assms, of "token_mints (bv_core v) ! 1" "token_mints (bv_core v) ! 0"]
  by (auto simp: refresh_bounds_cache_def Let_def split: if_split_asm simp del: split_paired_Ex)
    (intro exI, rule refl)

lemma finish_update_eq:
  assumes "core_update_state L A (bv_core v) = (core', Ok ())" and "clock_from_account_map L A = Ok epoch"
    and "refresh_tokens L A epoch (zip (token_mints core') (mint_decimals core')) = Ok toks"
  shows "finish_update L A v =
    st_then (refresh_bounds_cache L (v\<lparr>bv_core := core', bv_current_epoch := epoch, bv_token_info := toks\<rparr>))
      (\<lambda>v _. (v\<lparr>bv_initialized := True\<rparr>, Ok ()))"
  by (simp add: finish_update_def update_core_def refresh_token_info_def assms)

lemma returns_total_quotes:
  assumes "fee_laws L core" and "\<And>z. swap_laws L core z"
  shows "total_quotes (quote_for_bounds L core m m')"
proof -
  have "returns (quote_with_price_upper_bound L core r None)" for r
    by (rule returns_quote [OF assms])
  then have "returns (quote_for_bounds L core m m' a)" for a
    by (auto simp: quote_for_bounds_def core_quote_def intro!: returns_intros)
  then show ?thesis
    by (auto simp: total_quotes_def returns_def)
qed

lemma rpc_update_eq:
  assumes "cache_shows c S" and "\<And>ks. is_ok (rpc_get_multiple_accounts (rc_rpc_client c) ks)"
    and "core_update_state L (S |` set (with_mints (bv_core v) (base_accounts_to_update L (bv_core v)))) (bv_core v) = (core1, Ok ())"
  shows "\<exists>c'. venue_update_state L cache_get_accounts v c =
    (case finish_update L (S |` set (with_mints core1 (accounts_to_update L core1))) (v\<lparr>bv_core := core1\<rparr>) of (v', r) \<Rightarrow> ((v', c'), r))"
proof -
  from rpc_fetch [OF assms(1,2), of "with_mints (bv_core v) (base_accounts_to_update L (bv_core v))" v] obtain c1 where
    f1: "fetching cache_get_accounts (with_mints (bv_core v) (base_accounts_to_update L (bv_core v))) (v, c)
      = ((v, c1), Ok (S |` set (with_mints (bv_core v) (base_accounts_to_update L (bv_core v)))))"
    and c1: "cache_shows c1 S" "rc_rpc_client c1 = rc_rpc_client c"
    by (elim exE conjE) (rule that)
  have "is_ok (rpc_get_multiple_accounts (rc_rpc_client c1) ks)" for ks
    using assms(2) c1(2) by simp
  from rpc_fetch [OF c1(1) this, of "with_mints core1 (accounts_to_update L core1)" "v\<lparr>bv_core := core1\<rparr>"] obtain c2 where
    f2: "fetching cache_get_accounts (with_mints core1 (accounts_to_update L core1)) (v\<lparr>bv_core := core1\<rparr>, c1)
      = ((v\<lparr>bv_core := core1\<rparr>, c2), Ok (S |` set (with_mints core1 (accounts_to_update L core1))))"
    by (elim exE conjE) (rule that)
  show ?thesis
    by (rule exI [of _ c2]) (simp add: venue_update_state_def f1 f2 on_venue_def update_core_def assms(3))
qed

end
