(* ===== verification/Demo_Venue.thy ===== *)
theory Demo_Venue
  imports Byreal_Properties
begin

text \<open>
  A run of the venue on the demonstration pool: a chain snapshot with the pool, its configuration,
  mints, clock and one tick array, served through the RPC cache.
\<close>

definition demo_account :: "bytes \<Rightarrow> pubkey \<Rightarrow> account" where
  "demo_account data owner = \<lparr>acc_lamports = 1, acc_data = data, acc_owner = owner\<rparr>"

definition demo_chain :: "bool \<Rightarrow> pubkey \<rightharpoonup> account" where
  "demo_chain d = map_of
     [([40], demo_account [if d then 2 else 1] BYREAL_CLMM_PROGRAM_ID), ([10], demo_account [] []),
      ([1], demo_account [1] [20]), ([2], demo_account [1] [20]),
      (POOL_TICK_ARRAY_BITMAP_SEED @ [40], demo_account [] []), ([30], demo_account (replicate 12 0) []),
      ([116, 40, 0, 0, 0, 0], demo_account (replicate 8 1 @ replicate 36 0 @ [128, 138, 0, 158]) [])]"

definition demo_rpc :: "bool \<Rightarrow> RpcClient" where
  "demo_rpc d = \<lparr>rpc_get_account = (\<lambda>k. ok_or (demo_chain d k) ''AccountNotFound''),
     rpc_get_multiple_accounts = (\<lambda>ks. Ok (map (demo_chain d) ks))\<rparr>"

definition demo_new :: "unit ClmmVenue" where
  "demo_new = (demo_core False)\<lparr>cv_amm_config := None, cv_bitmap_extension := None, cv_dynamic_tick_arrays := [],
     cv_current_unix_timestamp := 0\<rparr>"

definition demo_venue :: "unit ByrealClmmVenue" where
  "demo_venue = \<lparr>bv_core = demo_new, bv_token_info = base_token_info demo_new, bv_initialized = False,
     bv_current_epoch = 0, bv_bounds_cache = [None, None]\<rparr>"

lemma demo_from_account: "from_account demo_lib [40] (demo_account [1] BYREAL_CLMM_PROGRAM_ID) = Ok demo_venue"
  by (simp add: from_account_def from_pool_state_account_def demo_account_def demo_venue_def demo_new_def demo_core_def
      demo_lib_def demo_codec_lib_def demo_pool_def)

lemma demo_venue_inv: "venue_inv [40] demo_venue"
  by (rule from_account_inv(1) [OF demo_from_account])

lemma length_seed: "length POOL_TICK_ARRAY_BITMAP_SEED = 32"
  by (simp add: POOL_TICK_ARRAY_BITMAP_SEED_def str_bytes_def)

lemma seed_not_Nil [simp]: "POOL_TICK_ARRAY_BITMAP_SEED \<noteq> []"
  using length_seed by auto

lemma seed_neq [simp]: "length xs < 32 \<Longrightarrow> POOL_TICK_ARRAY_BITMAP_SEED @ ys \<noteq> xs" "length xs < 32 \<Longrightarrow> xs \<noteq> POOL_TICK_ARRAY_BITMAP_SEED @ ys"
  using length_seed by auto

lemma demo_ext_key: "cv_market_id v = [40] \<Longrightarrow> tick_array_bitmap_extension_key demo_lib v = POOL_TICK_ARRAY_BITMAP_SEED @ [40]"
  by (simp add: tick_array_bitmap_extension_key_def demo_lib_def demo_codec_lib_def)

lemma demo_addresses:
  assumes "cv_market_id v = [40]" and "cv_max_one_side_tick_arrays v = 6"
  shows "get_all_tick_array_addresses demo_lib v = [[116, 40, 0, 0, 0, 0]]"
proof -
  have "follow_arrays demo_lib v z n s = []" for z n s
    by (cases n) (simp_all add: demo_lib_def demo_pool_lib_def)
  then have "all_tick_array_starts demo_lib v = [0]"
    using assms(2) by (simp add: all_tick_array_starts_def collect_dir_def btree_insert_def demo_lib_def demo_pool_lib_def Let_def)
  moreover have "get_tick_array_address demo_lib v 0 = [116, 40, 0, 0, 0, 0]"
    using assms(1) by (simp add: get_tick_array_address_def demo_lib_def demo_tick_lib_def demo_codec_lib_def be_bytes_0)
  ultimately show ?thesis
    by (simp add: get_all_tick_array_addresses_def)
qed

lemma demo_decode_array:
  "tick_array_from_account_data (lib_tick demo_lib) (replicate 8 1 @ replicate 36 0 @ [128, 138, 0, 158]) = Some (Fixed demo_array)"
proof -
  have sel: "size_of_TickState (lib_tick demo_lib) = 1" "TickArrayState_DISCRIMINATOR (lib_tick demo_lib) = replicate 8 1"
    "DynTickArrayState_DISCRIMINATOR (lib_tick demo_lib) = replicate 8 2"
    by (simp_all add: demo_lib_def demo_tick_lib_def)
  have ticks: "read_TickState (lib_tick demo_lib) [128] = demo_tick 0 True" "read_TickState (lib_tick demo_lib) [138] = demo_tick 10 True"
    "read_TickState (lib_tick demo_lib) [0] = demo_tick (-128) False" "read_TickState (lib_tick demo_lib) [158] = demo_tick 30 True"
    by (simp_all add: demo_lib_def demo_tick_lib_def)
  show ?thesis
    by (simp add: tick_array_from_account_data_def fixed_from_account_data_def sel ticks slice_get_def
        from_le_bytes_def Let_def upt_rec eval_nat_numeral demo_array_def)
qed

lemma demo_chain_at:
  "demo_chain d [40] = Some (demo_account [if d then 2 else 1] BYREAL_CLMM_PROGRAM_ID)"
  "demo_chain d [10] = Some (demo_account [] [])" "demo_chain d [1] = Some (demo_account [1] [20])"
  "demo_chain d [2] = Some (demo_account [1] [20])" "demo_chain d (POOL_TICK_ARRAY_BITMAP_SEED @ [40]) = Some (demo_account [] [])"
  "demo_chain d [30] = Some (demo_account (replicate 12 0) [])"
  "demo_chain d [116, 40, 0, 0, 0, 0] = Some (demo_account (replicate 8 1 @ replicate 36 0 @ [128, 138, 0, 158]) [])"
  "demo_chain d [11] = None" "demo_chain d [12] = None"
  by (simp_all add: demo_chain_def)

text \<open>The keys of the two phases.\<close>

lemma demo_base_keys:
  "set (with_mints demo_new (base_accounts_to_update demo_lib demo_new)) = {[40], [10], [1], [2], POOL_TICK_ARRAY_BITMAP_SEED @ [40], [30]}"
proof -
  have "cv_market_id demo_new = [40]" "cv_pool_state demo_new = demo_pool False"
    by (simp_all add: demo_new_def demo_core_def)
  moreover have "venue_dynamic_fee_enabled demo_lib demo_new = False" "clock_id (lib_codec demo_lib) = [30]"
    by (simp_all add: venue_dynamic_fee_enabled_def demo_new_def demo_defs)
  ultimately show ?thesis
    by (auto simp: base_accounts_to_update_def with_mints_def token_mints_def push_unique_def dynamic_fee_accounts_def
        demo_ext_key demo_pool_def)
qed

lemma demo_update_keys:
  assumes "cv_market_id v = [40]" and "cv_max_one_side_tick_arrays v = 6" and "cv_pool_state v = demo_pool False"
  shows "set (with_mints v (accounts_to_update demo_lib v))
    = {[40], [10], [1], [2], POOL_TICK_ARRAY_BITMAP_SEED @ [40], [30], [116, 40, 0, 0, 0, 0]}"
proof -
  have "venue_dynamic_fee_enabled demo_lib v = False" "clock_id (lib_codec demo_lib) = [30]"
    using assms(3) by (simp_all add: venue_dynamic_fee_enabled_def demo_defs)
  then show ?thesis
    using assms
    by (auto simp: accounts_to_update_def with_mints_def token_mints_def push_unique_def dynamic_fee_accounts_def
        demo_ext_key demo_addresses demo_pool_def)
qed

text \<open>What a set of accounts makes of the demonstration pool.\<close>

lemma demo_loaded_from:
  assumes "{[40], [10], [1], [2], POOL_TICK_ARRAY_BITMAP_SEED @ [40], [30]} \<subseteq> K" and "[11] \<notin> K" "[12] \<notin> K"
    and "cv_market_id v = [40]" "cv_program_id v = BYREAL_CLMM_PROGRAM_ID" "cv_max_one_side_tick_arrays v = 6"
  shows "core_update_state demo_lib (demo_chain False |` K) v
    = ((demo_core False)\<lparr>cv_dynamic_tick_arrays := if [116, 40, 0, 0, 0, 0] \<in> K then [([116, 40, 0, 0, 0, 0], Fixed demo_array)] else []\<rparr>, Ok ())"
proof -
  let ?v' = "(demo_core False)\<lparr>cv_dynamic_tick_arrays := if [116, 40, 0, 0, 0, 0] \<in> K then [([116, 40, 0, 0, 0, 0], Fixed demo_array)] else []\<rparr>"
  let ?A = "demo_chain False |` K"
  have at: "?A [40] = Some (demo_account [1] BYREAL_CLMM_PROGRAM_ID)" "?A [10] = Some (demo_account [] [])"
    "?A (POOL_TICK_ARRAY_BITMAP_SEED @ [40]) = Some (demo_account [] [])" "?A [30] = Some (demo_account (replicate 12 0) [])"
    "?A [11] = None" "?A [12] = None"
    using assms(1-3) by (simp_all add: demo_chain_at)
  have lib: "clock_id (lib_codec demo_lib) = [30]" "decode_Clock_unix_timestamp (lib_codec demo_lib) = (\<lambda>bs. Ok (int (length bs)))"
    "decode_PoolState (lib_codec demo_lib) [1] = Ok (demo_pool False)" "decode_AmmConfig (lib_codec demo_lib) = (\<lambda>_. Ok ())"
    "decode_TickArrayBitmapExtension (lib_codec demo_lib) = (\<lambda>_. Ok ())"
    by (simp_all add: demo_lib_def demo_codec_lib_def)
  have core: "cv_market_id ?v' = [40]" "cv_program_id ?v' = BYREAL_CLMM_PROGRAM_ID" "cv_max_one_side_tick_arrays ?v' = 6"
    "cv_current_unix_timestamp ?v' = 12" "cv_pool_state ?v' = demo_pool False" "cv_reserve_mints ?v' = ([1], [2])"
    "cv_amm_config ?v' = Some ()" "cv_bitmap_extension ?v' = Some ()" "cv_token0_vault_amount ?v' = 0" "cv_token1_vault_amount ?v' = 0"
    "cv_token0_program_id ?v' = ZERO_PUBKEY" "cv_token1_program_id ?v' = ZERO_PUBKEY"
    "cv_token0_pyth_oracle_data ?v' = None" "cv_token1_pyth_oracle_data ?v' = None"
    by (simp_all add: demo_core_def)
  have pool: "pool_amm_config (demo_pool False) = [10]" "pool_token_vault_0 (demo_pool False) = [11]" "pool_token_vault_1 (demo_pool False) = [12]"
    "pool_token_mint_0 (demo_pool False) = [1]" "pool_token_mint_1 (demo_pool False) = [2]"
    by (simp_all add: demo_pool_def)
  have "\<not> venue_dynamic_fee_enabled demo_lib ?v'"
    by (simp add: venue_dynamic_fee_enabled_def demo_defs)
  then have "oracles_loaded demo_lib ?A ?v'"
    by (simp add: oracles_loaded_def core)
  moreover have "load_tick_arrays demo_lib ?A (get_all_tick_array_addresses demo_lib ?v') [] = cv_dynamic_tick_arrays ?v'"
    by (simp add: demo_addresses [OF core(1,3)] restrict_map_def demo_chain_at demo_account_def demo_decode_array)
  ultimately have "loaded demo_lib ?A v ?v'"
    unfolding loaded_def pool_loaded_def config_loaded_def extension_loaded_def vault_loaded_def
    by (simp add: core pool lib at assms(4-6) demo_ext_key demo_account_def)
  then show ?thesis
    by (simp add: core_update_iff)
qed

lemma demo_cache_shows: "cache_shows (cache_new (demo_rpc d)) (demo_chain d)"
  by (simp add: cache_shows_def rpc_serves_def cache_new_def demo_rpc_def ok_or_Ok_iff)

text \<open>Every positive amount is quotable in both directions.\<close>

lemma demo_all_quotable:
  assumes "(m, m') = ([1], [2]) \<or> (m, m') = ([2], [1])"
  shows "total_quotes (quote_for_bounds demo_lib (demo_core False) m m')"
    and "\<exists>k < 64. quotable (quote_for_bounds demo_lib (demo_core False) m m') (2 ^ k)"
proof -
  let ?f = "quote_for_bounds demo_lib (demo_core False) m m'"
  have f: "\<exists>q. ?f a = Ok q \<and> res_expected_output q = a \<and> \<not> res_not_enough_liquidity q" for a
    using demo_quote [OF assms, of a ExactIn None] by (auto simp: quote_for_bounds_def core_quote_def)
  have "?f a \<noteq> Panic \<and> ?f a \<noteq> Diverge" for a
    using f [of a] by auto
  then show "total_quotes ?f"
    by (simp add: total_quotes_def)
  have "quotable ?f 1"
    using f [of 1] by (auto simp: quotable_def probe_def valid_quote_def)
  then show "\<exists>k < 64. quotable ?f (2 ^ k)"
    by (intro exI [of _ 0]) simp
qed

lemma demo_quotable:
  assumes "(m, m') = ([1], [2]) \<or> (m, m') = ([2], [1])"
  shows "\<exists>lo hi. find_boundaries (quote_for_bounds demo_lib (demo_core False) m m') = Ok (lo, hi)"
  using find_boundaries_total [OF demo_all_quotable(1) [OF assms]] demo_all_quotable(2) [OF assms] by simp

definition demo_tokens :: "TokenInfo list" where
  "demo_tokens = map (\<lambda>m. \<lparr>ti_pubkey = m, ti_decimals = 1, ti_is_token_2022 = False, ti_transfer_fee = None,
     ti_maximum_fee = None\<rparr>) [[1], [2]]"

lemma demo_finish:
  assumes "{[40], [10], [1], [2], POOL_TICK_ARRAY_BITMAP_SEED @ [40], [30], [116, 40, 0, 0, 0, 0]} = K"
    and "cv_market_id (bv_core v) = [40]" "cv_program_id (bv_core v) = BYREAL_CLMM_PROGRAM_ID" "cv_max_one_side_tick_arrays (bv_core v) = 6"
  shows "\<exists>b0 b1. finish_update demo_lib (demo_chain False |` K) v = (\<lparr>bv_core = demo_core False, bv_token_info = demo_tokens,
     bv_initialized = True, bv_current_epoch = 7, bv_bounds_cache = [Some b0, Some b1]\<rparr>, Ok ())"
proof -
  let ?A = "demo_chain False |` K"
  have "[11] \<notin> K" "[12] \<notin> K"
    unfolding assms(1) [symmetric] by simp_all
  moreover have "{[40], [10], [1], [2], POOL_TICK_ARRAY_BITMAP_SEED @ [40], [30]} \<subseteq> K" and arr: "[116, 40, 0, 0, 0, 0] \<in> K"
    using assms(1) by blast+
  moreover have "(demo_core False)\<lparr>cv_dynamic_tick_arrays := [([116, 40, 0, 0, 0, 0], Fixed demo_array)]\<rparr> = demo_core False"
    by (simp add: demo_core_def)
  ultimately have core: "core_update_state demo_lib ?A (bv_core v) = (demo_core False, Ok ())"
    using demo_loaded_from [of K "bv_core v"] assms(2-4) by simp
  have at: "?A [30] = Some (demo_account (replicate 12 0) [])" "?A [1] = Some (demo_account [1] [20])" "?A [2] = Some (demo_account [1] [20])"
    using assms(1) by (auto simp: demo_chain_at restrict_map_def)
  have epoch: "clock_from_account_map demo_lib ?A = Ok 7"
    using at(1) by (simp add: clock_from_account_map_def demo_lib_def demo_codec_lib_def)
  have mints: "token_mints (demo_core False) = [[1], [2]]" "mint_decimals (demo_core False) = [1, 1]"
    by (simp_all add: token_mints_def mint_decimals_def demo_core_def demo_pool_def)
  have info: "token_info_new (lib_spl (lib_codec demo_lib)) k (demo_account [1] [20]) e = Ok \<lparr>ti_pubkey = k, ti_decimals = 1,
      ti_is_token_2022 = False, ti_transfer_fee = None, ti_maximum_fee = None\<rparr>" for k e
    by (simp add: token_info_new_def demo_lib_def demo_codec_lib_def demo_spl_lib_def demo_account_def)
  have toks: "refresh_tokens demo_lib ?A 7 [([1], 1), ([2], 1)] = Ok demo_tokens"
    by (simp add: at info demo_tokens_def)
  obtain b0 b1 where "find_boundaries (quote_for_bounds demo_lib (demo_core False) [1] [2]) = Ok b0"
    "find_boundaries (quote_for_bounds demo_lib (demo_core False) [2] [1]) = Ok b1"
    using demo_quotable [of "[1]" "[2]"] demo_quotable [of "[2]" "[1]"] by auto
  then have "finish_update demo_lib ?A v = (\<lparr>bv_core = demo_core False, bv_token_info = demo_tokens,
     bv_initialized = True, bv_current_epoch = 7, bv_bounds_cache = [Some b0, Some b1]\<rparr>, Ok ())"
    by (simp add: finish_update_def update_core_def core epoch refresh_token_info_def toks refresh_bounds_cache_def mints Let_def
        del: refresh_tokens.simps)
  then show ?thesis by blast
qed

text \<open>The core after the first phase has everything but the tick arrays.\<close>

definition demo_mid :: "unit ClmmVenue" where
  "demo_mid = (demo_core False)\<lparr>cv_dynamic_tick_arrays := []\<rparr>"

lemma demo_mid_ids:
  "cv_market_id demo_mid = [40]" "cv_program_id demo_mid = BYREAL_CLMM_PROGRAM_ID" "cv_max_one_side_tick_arrays demo_mid = 6"
  "cv_pool_state demo_mid = demo_pool False"
  by (simp_all add: demo_mid_def demo_core_def)

lemma demo_first_phase:
  "core_update_state demo_lib (demo_chain False |` set (with_mints (bv_core demo_venue) (base_accounts_to_update demo_lib (bv_core demo_venue))))
     (bv_core demo_venue) = (demo_mid, Ok ())"
proof -
  have "bv_core demo_venue = demo_new" "cv_market_id demo_new = [40]" "cv_program_id demo_new = BYREAL_CLMM_PROGRAM_ID"
    "cv_max_one_side_tick_arrays demo_new = 6"
    by (simp_all add: demo_venue_def demo_new_def demo_core_def)
  then show ?thesis
    using demo_loaded_from [of "set (with_mints demo_new (base_accounts_to_update demo_lib demo_new))" demo_new]
    by (simp add: demo_base_keys demo_mid_def)
qed

lemma demo_second_phase:
  "core_update_state demo_lib (demo_chain False |` set (with_mints demo_mid (accounts_to_update demo_lib demo_mid))) demo_mid
     = (demo_core False, Ok ())"
  using demo_loaded_from [of "set (with_mints demo_mid (accounts_to_update demo_lib demo_mid))" demo_mid] demo_mid_ids
  by (simp add: demo_update_keys) (simp add: demo_core_def)

lemma demo_rpc_answers: "is_ok (rpc_get_multiple_accounts (rc_rpc_client (cache_new (demo_rpc d))) ks)"
  by (simp add: cache_new_def demo_rpc_def)

lemma demo_update:
  "\<exists>b0 b1 c'. venue_update_state demo_lib cache_get_accounts demo_venue (cache_new (demo_rpc False))
     = ((\<lparr>bv_core = demo_core False, bv_token_info = demo_tokens, bv_initialized = True, bv_current_epoch = 7,
          bv_bounds_cache = [Some b0, Some b1]\<rparr>, c'), Ok ())"
proof -
  obtain c' where "venue_update_state demo_lib cache_get_accounts demo_venue (cache_new (demo_rpc False)) =
      (case finish_update demo_lib (demo_chain False |` set (with_mints demo_mid (accounts_to_update demo_lib demo_mid)))
         (demo_venue\<lparr>bv_core := demo_mid\<rparr>) of (v', r) \<Rightarrow> ((v', c'), r))"
    using rpc_update_eq [OF demo_cache_shows demo_rpc_answers demo_first_phase] by blast
  moreover obtain b0 b1 where
    "finish_update demo_lib (demo_chain False |` set (with_mints demo_mid (accounts_to_update demo_lib demo_mid))) (demo_venue\<lparr>bv_core := demo_mid\<rparr>)
     = (\<lparr>bv_core = demo_core False, bv_token_info = demo_tokens, bv_initialized = True, bv_current_epoch = 7,
          bv_bounds_cache = [Some b0, Some b1]\<rparr>, Ok ())"
    using demo_finish [OF demo_update_keys [symmetric, of demo_mid], of "demo_venue\<lparr>bv_core := demo_mid\<rparr>"] demo_mid_ids by auto
  ultimately show ?thesis by auto
qed

subsection \<open>The updated venue and a leg through it\<close>

definition demo_updated :: "u64 \<times> u64 \<Rightarrow> u64 \<times> u64 \<Rightarrow> unit ByrealClmmVenue" where
  "demo_updated b0 b1 = \<lparr>bv_core = demo_core False, bv_token_info = demo_tokens, bv_initialized = True,
     bv_current_epoch = 7, bv_bounds_cache = [Some b0, Some b1]\<rparr>"

lemma demo_updated_Ok:
  "\<exists>b0 b1 c'. venue_update_state demo_lib cache_get_accounts demo_venue (cache_new (demo_rpc False)) = ((demo_updated b0 b1, c'), Ok ())"
  using demo_update by (simp add: demo_updated_def)

lemma demo_updated_inv: "venue_inv [40] (demo_updated b0 b1)"
  by (simp add: venue_inv_def core_inv_def demo_updated_def demo_tokens_def demo_core_def demo_pool_def)

definition demo_leg_request :: QuoteRequest where
  "demo_leg_request = \<lparr>req_input_mint = [1], req_output_mint = [2], req_amount = 700, req_swap_type = ExactIn\<rparr>"

lemma demo_generate_Ok: "\<exists>ix. generate_swap_instruction demo_lib (demo_updated b0 b1) demo_leg_request user = Ok ix"
  by (simp add: generate_swap_instruction_def demo_updated_def demo_leg_request_def demo_tokens_def demo_build_any)

lemma demo_leg_Ok:
  "\<exists>spec accs. build_swap_leg (byreal_obj demo_lib (demo_updated b0 b1)) demo_leg_request titan src dst w = Ok (spec, accs)"
proof -
  obtain ix where "generate_swap_instruction demo_lib (demo_updated b0 b1) demo_leg_request titan = Ok ix"
    using demo_generate_Ok by blast
  then show ?thesis
    by (simp add: build_swap_leg_def fail_closed_for_transfer_fee_route_mints_def protocol_to_venue_def byreal_obj_def
        demo_updated_def demo_tokens_def demo_leg_request_def Let_def)
qed

lemma demo_venue_quote: "\<exists>q. venue_quote demo_lib (demo_updated b0 b1) demo_leg_request = Ok q"
proof -
  have "\<exists>q. quote_with_price_upper_bound demo_lib (demo_core False) demo_leg_request ub = Ok q" for ub
    using demo_quote [of "[1]" "[2]" 700 ExactIn ub] by (auto simp: demo_leg_request_def)
  then obtain q where "quote_with_price_upper_bound demo_lib (demo_core False) demo_leg_request
      (Option.bind (bounds_cache_index_for_mints (demo_updated b0 b1) (req_input_mint demo_leg_request) (req_output_mint demo_leg_request))
         (\<lambda>i. map_option snd (bv_bounds_cache (demo_updated b0 b1) ! i))) = Ok q"
    by blast
  moreover have "bv_initialized (demo_updated b0 b1)" "bv_core (demo_updated b0 b1) = demo_core False" "req_swap_type demo_leg_request = ExactIn"
    by (simp_all add: demo_updated_def demo_leg_request_def)
  ultimately show ?thesis
    by (simp add: venue_quote_def ensure_exact_in_def Let_def)
qed

end
