(* ===== verification/Venue_Lifecycle.thy ===== *)
theory Venue_Lifecycle
  imports Demo_Venue
begin

text \<open>
  The life of a venue as a state machine: a venue made by \<open>from_account\<close> and the RPC cache it is used
  with are updated, quoted and asked for instructions in any order, while the cache may be reset and
  the chain behind the RPC client may change between any two calls.  What holds in every reachable
  state is proved by rule induction.
\<close>

subsection \<open>Steps and runs\<close>

datatype venue_event =
  Updated "unit venue_result"
| Quoted QuoteRequest "QuoteResult venue_result"
| Built QuoteRequest pubkey "instruction venue_result"
| CacheReset
| ChainMoved RpcClient

inductive venue_step ::
  "'x clmm_lib \<Rightarrow> 'x ByrealClmmVenue \<times> RpcClientCache \<Rightarrow> venue_event \<Rightarrow> 'x ByrealClmmVenue \<times> RpcClientCache \<Rightarrow> bool"
  for L where
  update: "venue_update_state L cache_get_accounts v c = (s', r) \<Longrightarrow> venue_step L (v, c) (Updated r) s'"
| quote: "venue_step L (v, c) (Quoted request (venue_quote L v request)) (v, c)"
| build: "venue_step L (v, c) (Built request user (generate_swap_instruction L v request user)) (v, c)"
| reset: "venue_step L (v, c) CacheReset (v, reset_cache c)"
| chain: "venue_step L (v, c) (ChainMoved rpc) (v, c\<lparr>rc_rpc_client := rpc\<rparr>)"

inductive venue_runs ::
  "'x clmm_lib \<Rightarrow> 'x ByrealClmmVenue \<times> RpcClientCache \<Rightarrow> venue_event list \<Rightarrow> 'x ByrealClmmVenue \<times> RpcClientCache \<Rightarrow> bool"
  for L s where
  start: "venue_runs L s [] s"
| further: "venue_runs L s es s' \<Longrightarrow> venue_step L s' e s'' \<Longrightarrow> venue_runs L s (es @ [e]) s''"

inductive_cases venue_stepE: "venue_step L s e s'"
inductive_cases quote_stepE: "venue_step L (v, c) (Quoted request r) s'"
inductive_cases build_stepE: "venue_step L (v, c) (Built request user r) s'"
inductive_simps venue_runs_Nil [simp]: "venue_runs L s [] s'"

lemma venue_runs_split:
  "venue_runs L s es t \<Longrightarrow> es = us @ e # ws \<Longrightarrow> \<exists>s1 s2. venue_runs L s us s1 \<and> venue_step L s1 e s2"
proof (induction arbitrary: ws rule: venue_runs.induct)
  case (further es s' e' s'')
  show ?case
  proof (cases ws rule: rev_cases)
    case Nil
    with further show ?thesis by (auto simp del: split_paired_Ex)
  next
    case (snoc ws' x)
    with further show ?thesis by simp
  qed
qed simp

subsection \<open>What an update does to the flag and the bounds\<close>

definition bounds_inv :: "'x ByrealClmmVenue \<Rightarrow> bool" where
  "bounds_inv v \<longleftrightarrow> (\<forall>lo hi. Some (lo, hi) \<in> set (bv_bounds_cache v) \<longrightarrow> 0 < lo \<and> lo \<le> hi)"

lemma fst_update_core: "fst (update_core L A v) = v\<lparr>bv_core := fst (core_update_state L A (bv_core v))\<rparr>"
  by (simp add: update_core_def split: prod.split)

lemma fst_refresh_token_info: "\<exists>toks. fst (refresh_token_info L A epoch v) = v\<lparr>bv_token_info := toks\<rparr>"
proof (cases "refresh_tokens L A epoch (zip (token_mints (bv_core v)) (mint_decimals (bv_core v)))")
  case (Ok toks)
  then show ?thesis by (auto simp: refresh_token_info_def)
qed (auto simp: refresh_token_info_def intro: exI [of _ "bv_token_info v"])

lemma refresh_bounds_cache_bounds_inv:
  assumes "bounds_inv v"
  shows "bounds_inv (fst (refresh_bounds_cache L v))"
proof -
  have "0 < lo \<and> lo \<le> hi" if "find_boundaries f = Ok (lo, hi)" for f lo hi
    using find_boundaries_brackets [OF that] by (auto simp: word_gt_0 not_less_iff_gr_or_eq)
  then show ?thesis
    using refresh_bounds_cache_cases [of L v] assms by (auto simp: bounds_inv_def)
qed

lemma venue_update_bounds_inv:
  assumes "bounds_inv v"
  shows "bounds_inv (fst (fst (venue_update_state L ga v c)))"
proof -
  have core: "bounds_inv (fst (update_core L A w)) = bounds_inv w" for A w
    by (simp add: fst_update_core bounds_inv_def)
  have toks: "bounds_inv (fst (refresh_token_info L A e w)) = bounds_inv w" for A e and w :: "'a ByrealClmmVenue"
    using fst_refresh_token_info [of L A e w] by (auto simp: bounds_inv_def)
  have "bounds_inv (fst (finish_update L A w))" if "bounds_inv w" for A w
    unfolding finish_update_def
    by (intro st_then_keeps [where P = bounds_inv])
      (use that in \<open>simp_all add: core toks refresh_bounds_cache_bounds_inv\<close>, simp_all add: bounds_inv_def)
  then show ?thesis
    unfolding venue_update_state_def
    by (intro st_then_keeps [where P = "\<lambda>s. bounds_inv (fst s)"]) (simp_all add: assms core)
qed

lemma refresh_bounds_cache_flag: "bv_initialized (fst (refresh_bounds_cache L v)) = bv_initialized v"
  using refresh_bounds_cache_cases [of L v] by auto

lemma refresh_token_info_flag: "bv_initialized (fst (refresh_token_info L A e v)) = bv_initialized v"
  using fst_refresh_token_info [of L A e v] by auto

lemma finish_update_flag:
  assumes "\<not> is_ok (snd (finish_update L A v))"
  shows "bv_initialized (fst (finish_update L A v)) = bv_initialized v"
  using assms unfolding finish_update_def
  by (intro st_then_failing [where P = "\<lambda>w. bv_initialized w = bv_initialized v"])
    (simp_all add: fst_update_core refresh_bounds_cache_flag refresh_token_info_flag)

text \<open>The flag goes up with the first update that succeeds and never down again.\<close>

lemma venue_update_flag:
  assumes "venue_update_state L ga v c = (s', r)"
  shows "bv_initialized (fst s') \<longleftrightarrow> bv_initialized v \<or> r = Ok ()"
proof (cases "r = Ok ()")
  case True
  then have "venue_update_state L ga v c = ((fst s', snd s'), Ok ())"
    using assms by simp
  then obtain A w where "finish_update L A w = (fst s', Ok ())"
    by (rule update_finishes)
  then show ?thesis
    using True by (auto elim!: finish_update_OkE)
next
  case False
  let ?P = "\<lambda>s. bv_initialized (fst s) = bv_initialized v"
  have "\<not> is_ok (snd (venue_update_state L ga v c))"
    using assms False by (cases r) auto
  then have "?P (fst (venue_update_state L ga v c))"
    unfolding venue_update_state_def
  proof (intro st_then_failing [where P = ?P])
    fix s A assume "\<not> is_ok (snd (on_venue (finish_update L A) s))" "?P s"
    then show "?P (fst (on_venue (finish_update L A) s))"
      using finish_update_flag [of L A "fst s"] by (auto simp: on_venue_def split: prod.split_asm)
  qed (simp_all add: fst_update_core)
  then show ?thesis
    using assms False by simp
qed

subsection \<open>Reachable venues\<close>

lemma venue_step_invariant:
  assumes "venue_step L s e s'" and "venue_inv key (fst s)" and "bounds_inv (fst s)"
  shows "venue_inv key (fst s') \<and> bounds_inv (fst s')
    \<and> (bv_initialized (fst s') \<longleftrightarrow> bv_initialized (fst s) \<or> e = Updated (Ok ()))"
  using assms(1)
proof cases
  case (update v c r)
  then show ?thesis
    using venue_update_inv [of key v L cache_get_accounts c] venue_update_bounds_inv [of v L cache_get_accounts c]
      venue_update_flag [of L cache_get_accounts v c s' r] assms(2,3)
    by simp
qed (use assms(2,3) in simp_all)

lemma venue_runs_invariant:
  assumes "venue_runs L s es s'" and "venue_inv key (fst s)" and "bounds_inv (fst s)"
  shows "venue_inv key (fst s') \<and> bounds_inv (fst s')
    \<and> (bv_initialized (fst s') \<longleftrightarrow> bv_initialized (fst s) \<or> Updated (Ok ()) \<in> set es)"
  using assms(1)
proof induction
  case (further es s' e s'')
  then show ?case
    using venue_step_invariant [OF further.hyps(2)] by auto
qed (use assms(2,3) in simp_all)

lemma from_account_bounds_inv:
  assumes "from_account L key acc = Ok v"
  shows "bounds_inv v"
proof -
  have "bv_bounds_cache v = [None, None]"
    using assms by (auto simp: from_account_def and_then_Ok_iff split: if_split_asm)
  then show ?thesis
    by (simp add: bounds_inv_def)
qed

lemma initialised_bounds:
  assumes "venue_inv key v" and "bounds_inv v" and "bv_initialized v" and "(i, j) = (0, 1) \<or> (i, j) = (1, 0)"
  shows "\<exists>lo hi. venue_bounds v i j = Ok (lo, hi) \<and> 0 < lo \<and> lo \<le> hi"
proof -
  obtain x y where xy: "bv_bounds_cache v = [x, y]"
    using assms(1) by (auto simp: venue_inv_def length_Suc_conv numeral_2_eq_2)
  have "None \<notin> set [x, y]"
    using assms(1,3) by (simp only: xy [symmetric] venue_inv_def simp_thms)
  then obtain b0 b1 where "x = Some b0" "y = Some b1"
    by (cases x; cases y) auto
  then show ?thesis
    using assms(2,4) xy by (cases b0; cases b1) (auto simp: bounds_inv_def venue_bounds_def)
qed

subsection \<open>Properties\<close>

text \<open>C9: in every state a venue can reach from \<open>from_account\<close>, through any sequence of updates (failing ones
  included), quotes, swap instructions, cache resets and changes of the chain, the venue invariant holds:
  program, market and the two tokens stay, and the reserve mints are those of the pool; the venue is
  initialised exactly when some update has succeeded, and then both directions have bounds with
  \<open>0 < lower \<le> upper\<close>.\<close>

theorem reachable_venue_invariant:
  assumes "from_account L key acc = Ok v" and "venue_runs L (v, cache) events (v', cache')"
  shows "venue_inv key v' \<and> (bv_initialized v' \<longleftrightarrow> Updated (Ok ()) \<in> set events)
    \<and> (Updated (Ok ()) \<in> set events \<longrightarrow>
         (\<forall>(i, j) \<in> {(0, 1), (1, 0)}. \<exists>lo hi. venue_bounds v' i j = Ok (lo, hi) \<and> 0 < lo \<and> lo \<le> hi))"
proof -
  have "venue_inv key v' \<and> bounds_inv v' \<and> (bv_initialized v' \<longleftrightarrow> Updated (Ok ()) \<in> set events)"
    using venue_runs_invariant [OF assms(2), of key] from_account_inv [OF assms(1)] from_account_bounds_inv [OF assms(1)] by simp
  then show ?thesis
    using initialised_bounds [of key v'] by auto
qed

lemma demo_runs:
  "\<exists>b0 b1 c'. venue_runs demo_lib (demo_venue, cache_new (demo_rpc False)) [Updated (Ok ())] (demo_updated b0 b1, c')"
proof -
  obtain b0 b1 c' where "venue_update_state demo_lib cache_get_accounts demo_venue (cache_new (demo_rpc False)) = ((demo_updated b0 b1, c'), Ok ())"
    using demo_updated_Ok by blast
  from venue_runs.further [OF venue_runs.start venue_step.update [OF this]] show ?thesis
    unfolding append_Nil by blast
qed

theorem reachable_venue_invariant_witness:
  "\<exists>v' cache' lo hi. venue_runs demo_lib (demo_venue, cache_new (demo_rpc False)) [Updated (Ok ())] (v', cache')
    \<and> venue_inv [40] v' \<and> venue_bounds v' 1 0 = Ok (lo, hi) \<and> lo \<le> hi"
proof -
  obtain v' cache' where runs: "venue_runs demo_lib (demo_venue, cache_new (demo_rpc False)) [Updated (Ok ())] (v', cache')"
    using demo_runs by blast
  from reachable_venue_invariant [OF demo_from_account runs] runs show ?thesis
    by auto
qed

text \<open>C30: no quote and no swap instruction is ever given out before an update has succeeded.\<close>

theorem nothing_before_update:
  assumes "from_account L key acc = Ok v" and "venue_runs L (v, cache) (before @ e # later) s"
    and "(\<exists>request q. e = Quoted request (Ok q)) \<or> (\<exists>request user ix. e = Built request user (Ok ix))"
  shows "Updated (Ok ()) \<in> set before"
proof -
  obtain v1 c1 s2 where runs: "venue_runs L (v, cache) before (v1, c1)" and step: "venue_step L (v1, c1) e s2"
    using venue_runs_split [OF assms(2) refl] by fastforce
  have "bv_initialized v1"
    using assms(3) step by (auto elim!: quote_stepE build_stepE simp: venue_quote_def generate_swap_instruction_def split: if_split_asm)
  then show ?thesis
    using venue_runs_invariant [OF runs, of key] from_account_inv [OF assms(1)] from_account_bounds_inv [OF assms(1)] by simp
qed

theorem nothing_before_update_witness:
  "\<exists>q s. venue_runs demo_lib (demo_venue, cache_new (demo_rpc False)) ([Updated (Ok ())] @ Quoted demo_leg_request (Ok q) # []) s
    \<and> Updated (Ok ()) \<in> set [Updated (Ok ())]"
proof -
  obtain b0 b1 c' where runs: "venue_runs demo_lib (demo_venue, cache_new (demo_rpc False)) [Updated (Ok ())] (demo_updated b0 b1, c')"
    using demo_runs by blast
  obtain q where "venue_quote demo_lib (demo_updated b0 b1) demo_leg_request = Ok q"
    using demo_venue_quote by blast
  then have runs2: "venue_runs demo_lib (demo_venue, cache_new (demo_rpc False)) ([Updated (Ok ())] @ Quoted demo_leg_request (Ok q) # [])
      (demo_updated b0 b1, c')"
    using venue_runs.further [OF runs venue_step.quote, of demo_leg_request] by simp
  from nothing_before_update [OF demo_from_account runs2] runs2 show ?thesis
    by blast
qed

end
