(* ===== verification/Venue_Properties.thy ===== *)
theory Venue_Properties
  imports Venue_Lifecycle
begin

text \<open>
  The properties of the Byreal venue, with a demonstration venue that is built from an account,
  updated through the RPC cache, quoted, and turned into a leg of a route.
\<close>

subsection \<open>Quotes and cached bounds\<close>

text \<open>The price bound only matters for a dynamic fee and an amount below it.\<close>

lemma quote_upper_bound_irrelevant:
  assumes "\<not> venue_dynamic_fee_enabled L v \<or> ub \<le> req_amount req"
  shows "quote_with_price_upper_bound L v req (Some ub) = core_quote L v req"
proof -
  have eq: "actual_curve_price L v z (req_amount req) sw c ts (Some ub) = actual_curve_price L v z (req_amount req) sw c ts None" for z sw c ts
    using assms by (auto simp: actual_curve_price_def Let_def split: option.split intro!: and_then_cong)
  show ?thesis
    unfolding core_quote_def quote_with_price_upper_bound_def eq by (rule refl)
qed

abbreviation exact_in :: "pubkey \<Rightarrow> pubkey \<Rightarrow> u64 \<Rightarrow> QuoteRequest" where
  "exact_in m m' a \<equiv> \<lparr>req_input_mint = m, req_output_mint = m', req_amount = a, req_swap_type = ExactIn\<rparr>"

lemma quotable_core_quote:
  assumes "quotable (quote_for_bounds L core m m') a"
  obtains q where "core_quote L core (exact_in m m' a) = Ok q" "\<not> cq_not_enough_liquidity q" "cq_out_amount q \<noteq> 0"
    "cq_in_amount q = a" "m \<noteq> m'"
proof -
  obtain q where q: "core_quote L core (exact_in m m' a) = Ok q" "\<not> cq_not_enough_liquidity q" "cq_out_amount q \<noteq> 0"
    using assms
    by (cases "core_quote L core (exact_in m m' a)")
      (auto simp: quotable_def probe_def quote_for_bounds_def valid_quote_def)
  have "cq_in_amount q = a"
    using quote_amounts [of L core "exact_in m m' a" None q] q by (simp add: core_quote_def)
  moreover have "m \<noteq> m'"
    using q(1) by (auto simp: core_quote_def quote_with_price_upper_bound_def validate_mints_def Let_def split: if_split_asm)
  ultimately show ?thesis
    using q that by blast
qed

text \<open>A venue quote at an amount the cached search found quotable.\<close>

lemma venue_quote_at_bound:
  assumes "bv_initialized v" and "bounds_cache_index_for_mints v m m' = Some i" and "bv_bounds_cache v ! i = Some (lo, hi)"
    and "quotable (quote_for_bounds L (bv_core v) m m') a" and "\<not> venue_dynamic_fee_enabled L (bv_core v) \<or> hi \<le> a"
  shows "\<exists>q. venue_quote L v (exact_in m m' a) = Ok q \<and> valid_quote q \<and> res_amount q = a"
proof -
  from assms(4) obtain q where q: "core_quote L (bv_core v) (exact_in m m' a) = Ok q" "\<not> cq_not_enough_liquidity q"
    "cq_out_amount q \<noteq> 0" "cq_in_amount q = a"
    by (rule quotable_core_quote)
  have "quote_with_price_upper_bound L (bv_core v) (exact_in m m' a) (Some hi) = Ok q"
    using quote_upper_bound_irrelevant [of L "bv_core v" hi "exact_in m m' a"] assms(5) q(1) by simp
  then show ?thesis
    using assms(1-3) q by (simp add: venue_quote_def ensure_exact_in_def valid_quote_def)
qed

lemma bounds_of_direction:
  assumes "find_boundaries (quote_for_bounds L (bv_core v) m m') = Ok (lo, hi)" and "bv_initialized v"
    and "m \<noteq> m' \<Longrightarrow> bounds_cache_index_for_mints v m m' = Some i" and "bv_bounds_cache v ! i = Some (lo, hi)"
  shows "0 < lo \<and> lo \<le> hi
    \<and> (\<exists>q. venue_quote L v (exact_in m m' hi) = Ok q \<and> valid_quote q \<and> res_amount q = hi)
    \<and> (\<not> venue_dynamic_fee_enabled L (bv_core v) \<longrightarrow>
        (\<exists>q. venue_quote L v (exact_in m m' lo) = Ok q \<and> valid_quote q \<and> res_amount q = lo))"
proof -
  from find_boundaries_brackets [OF assms(1)] obtain a where
    q: "quotable (quote_for_bounds L (bv_core v) m m') lo" "quotable (quote_for_bounds L (bv_core v) m m') hi"
    and le: "lo \<le> hi" "a < lo"
    by blast
  have "m \<noteq> m'"
    using quotable_core_quote [OF q(1)] by blast
  note at = venue_quote_at_bound [OF assms(2) assms(3) [OF this] assms(4)]
  show ?thesis
    using at [OF q(2)] at [OF q(1)] le by (auto simp: word_gt_0 not_less_iff_gr_or_eq)
qed

lemma venue_bounds_cached:
  "bv_bounds_cache v = [Some b0, Some b1] \<Longrightarrow> venue_bounds v 0 1 = Ok b0 \<and> venue_bounds v 1 0 = Ok b1"
  by (simp add: venue_bounds_def)

subsection \<open>Legs of a route\<close>

lemma generate_with_amount:
  assumes "generate_swap_instruction L v req user = Ok ix"
  shows "generate_swap_instruction L v (req\<lparr>req_amount := a\<rparr>) user
    = Ok (ix\<lparr>ix_data := SwapV3Dyn_data (lib_codec L) a 0 0 True\<rparr>)"
proof -
  have same: "swap_base_accounts L core (r\<lparr>sb_amount := a\<rparr>) z = swap_base_accounts L core r z" for core r z
    by (cases z) (simp_all add: swap_base_accounts_def Let_def)
  have build: "build_swap_instruction L core (r\<lparr>sb_amount := a\<rparr>)
      = Ok (i\<lparr>ix_data := SwapV3Dyn_data (lib_codec L) a (sb_other_amount_threshold r) 0 True\<rparr>)"
    if "build_swap_instruction L core r = Ok i" for core r i
    using that by (auto simp: build_swap_instruction_def and_then_Ok_iff same split: if_split_asm)
  obtain ti tj where t: "find (\<lambda>t. ti_pubkey t = req_input_mint req) (bv_token_info v) = Some ti"
    "find (\<lambda>t. ti_pubkey t = req_output_mint req) (bv_token_info v) = Some tj"
    and i: "bv_initialized v" "req_swap_type req = ExactIn"
    and b: "build_swap_instruction L (bv_core v)
            \<lparr>sb_user_authority = user, sb_source_mint = req_input_mint req,
             sb_destination_mint = req_output_mint req,
             sb_source_token_account = get_associated_token_address (lib_spl (lib_codec L)) ti user,
             sb_destination_token_account = get_associated_token_address (lib_spl (lib_codec L)) tj user,
             sb_amount = req_amount req, sb_other_amount_threshold = 0\<rparr> = Ok ix"
    using assms by (auto simp: generate_swap_instruction_def and_then_Ok_iff ok_or_Ok_iff split: if_split_asm)
  from build [OF b] t i show ?thesis
    by (simp add: generate_swap_instruction_def)
qed

text \<open>The encoding of the swap arguments the crate documents: discriminator and Borsh fields.\<close>

definition swap_data_law :: "'x clmm_lib \<Rightarrow> bool" where
  "swap_data_law L \<longleftrightarrow> (\<forall>amount. SwapV3Dyn_data (lib_codec L) amount 0 0 True
     = SWAP_V3_DYN_DISCRIMINATOR @ to_le_bytes 8 amount @ replicate 24 0 @ [1])"

lemma demo_swap_data_law: "swap_data_law demo_lib"
proof -
  have "to_le_bytes 8 (0 :: u64) @ to_le_bytes 16 (0 :: 128 word) = replicate 24 0"
    by (simp add: to_le_bytes_def nat_le_bytes_zero replicate_add [symmetric])
  then have "to_le_bytes 8 (0 :: u64) @ to_le_bytes 16 (0 :: 128 word) @ xs = replicate 24 0 @ xs" for xs
    by (metis append.assoc)
  then show ?thesis
    by (simp add: swap_data_law_def demo_lib_def demo_codec_lib_def SWAP_V3_DYN_DISCRIMINATOR_def)
qed

subsection \<open>Properties\<close>

text \<open>C5: through an RPC cache that shows one snapshot of the chain, the two-phase update reaches exactly
  the state that the accounts it finally requires determine: updating the old core once from these
  accounts gives the new core; token metadata belongs to the pool's mints in order, the venue is
  initialised, and the cache still shows the snapshot.\<close>

theorem update_reads_required_accounts:
  assumes "cache_shows cache S" and "venue_update_state L cache_get_accounts v cache = ((v', cache'), Ok ())"
  shows "\<exists>keys. get_required_pubkeys_for_update L v' = Ok keys
    \<and> core_update_state L (S |` set keys) (bv_core v) = (bv_core v', Ok ())
    \<and> map ti_pubkey (bv_token_info v') = [pool_token_mint_0 (cv_pool_state (bv_core v')), pool_token_mint_1 (cv_pool_state (bv_core v'))]
    \<and> bv_initialized v' \<and> cache_shows cache' S"
  using rpc_update_spec [OF assms] by (simp add: get_required_pubkeys_for_update_def token_mints_def)

theorem update_reads_required_accounts_witness:
  "\<exists>v' cache'. venue_update_state demo_lib cache_get_accounts demo_venue (cache_new (demo_rpc False)) = ((v', cache'), Ok ())
    \<and> bv_initialized v' \<and> cache_shows cache' (demo_chain False)"
proof -
  obtain v' cache' where "venue_update_state demo_lib cache_get_accounts demo_venue (cache_new (demo_rpc False)) = ((v', cache'), Ok ())"
    using demo_updated_Ok by blast
  with update_reads_required_accounts [OF demo_cache_shows this] show ?thesis by blast
qed

text \<open>C8: an update through a working RPC cache comes to an end, and which end is decided by the pool alone.
  When the accounts of both phases load, the two mints decode, the crates obey their laws, the loaded pool
  and arrays are placed as the pool program writes them (both parts of \<open>swap_laws\<close>) and the fee rates of
  the venue are below one (\<open>fee_laws\<close>), the core is the updated one in any case; if some power of two is quotable in each direction the update succeeds
  and the venue is initialised, and otherwise, one direction being enough, it fails with
  \<open>NoQuotableValue\<close> and the venue keeps its old bounds and its old \<open>initialized\<close> flag beside the new core.\<close>

theorem update_outcome:
  assumes "cache_shows cache S" and "\<forall>ks. is_ok (rpc_get_multiple_accounts (rc_rpc_client cache) ks)"
    and "core_update_state L (S |` set (with_mints (bv_core v) (base_accounts_to_update L (bv_core v)))) (bv_core v) = (core1, Ok ())"
    and "core_update_state L (S |` set (with_mints core1 (accounts_to_update L core1))) core1 = (core2, Ok ())"
    and "S (clock_id (lib_codec L)) = Some clk" and "decode_Clock_epoch (lib_codec L) (acc_data clk) = Ok epoch"
    and "\<forall>m \<in> set (token_mints core2). \<exists>acc info. S m = Some acc \<and> token_info_new (lib_spl (lib_codec L)) m acc epoch = Ok info"
    and "fee_laws L core2" and "\<forall>z. swap_laws L core2 z"
  shows "\<exists>v' cache'. bv_core v' = core2 \<and>
    (if \<forall>(i, j) \<in> {(0, 1), (1, 0)}. \<exists>k < 64.
          quotable (quote_for_bounds L core2 (token_mints core2 ! i) (token_mints core2 ! j)) (2 ^ k)
     then venue_update_state L cache_get_accounts v cache = ((v', cache'), Ok ()) \<and> bv_initialized v'
     else venue_update_state L cache_get_accounts v cache = ((v', cache'), Err (NoQuotableValue
            (EI_StaticStr ''No quotable value found; exponential search hit u64::MAX'')))
        \<and> bv_initialized v' = bv_initialized v \<and> bv_bounds_cache v' = bv_bounds_cache v)"
proof -
  let ?keys = "with_mints core1 (accounts_to_update L core1)"
  let ?A = "S |` set ?keys"
  have "loaded L ?A core1 core2"
    using assms(4) by (simp add: core_update_iff)
  then have epoch: "clock_from_account_map L ?A = Ok epoch"
    using assms(5,6) by (auto simp: clock_from_account_map_def loaded_def restrict_map_def split: if_split_asm)
  have "set (token_mints core2) \<subseteq> set ?keys"
    using two_phases_pool(1) [OF assms(3,4)] by (auto simp: with_mints_def token_mints_def push_unique_def)
  then have mints: "\<forall>m \<in> set (token_mints core2). ?A m = S m"
    by auto
  have "map fst (zip (token_mints core2) (mint_decimals core2)) = token_mints core2"
    by (simp add: token_mints_def mint_decimals_def)
  then obtain toks where toks: "refresh_tokens L ?A epoch (zip (token_mints core2) (mint_decimals core2)) = Ok toks"
    using refresh_tokens_succeeds [of "zip (token_mints core2) (mint_decimals core2)" ?A L epoch] assms(7) mints by auto
  let ?v = "v\<lparr>bv_core := core2, bv_current_epoch := epoch, bv_token_info := toks\<rparr>"
  obtain cache' where upd: "venue_update_state L cache_get_accounts v cache =
      (case st_then (refresh_bounds_cache L ?v) (\<lambda>v _. (v\<lparr>bv_initialized := True\<rparr>, Ok ())) of (v', r) \<Rightarrow> ((v', cache'), r))"
    using rpc_update_eq [OF assms(1) _ assms(3)] assms(2) finish_update_eq [of L ?A "v\<lparr>bv_core := core1\<rparr>" core2 epoch toks] assms(4) epoch toks
    by auto
  have "total_quotes (quote_for_bounds L (bv_core ?v) m m')" for m m'
    using returns_total_quotes [OF assms(8)] assms(9) by simp
  note out = refresh_bounds_cache_outcome [OF this]
  show ?thesis
  proof (cases "\<forall>(i, j) \<in> {(0, 1), (1, 0)}. \<exists>k < 64. quotable (quote_for_bounds L core2 (token_mints core2 ! i) (token_mints core2 ! j)) (2 ^ k)")
    case True
    with out obtain b0 b1 where "refresh_bounds_cache L ?v = (?v\<lparr>bv_bounds_cache := [Some b0, Some b1]\<rparr>, Ok ())"
      by (auto simp del: split_paired_Ex)
    with True show ?thesis
      by (intro exI [of _ "?v\<lparr>bv_bounds_cache := [Some b0, Some b1], bv_initialized := True\<rparr>"] exI [of _ cache'])
        (simp add: upd)
  next
    case False
    with out have "refresh_bounds_cache L ?v = (?v, Err (NoQuotableValue (EI_StaticStr ''No quotable value found; exponential search hit u64::MAX'')))"
      by auto
    with False show ?thesis
      by (intro exI [of _ ?v] exI [of _ cache']) (simp add: upd)
  qed
qed

theorem update_outcome_witness:
  "\<exists>v' cache'. venue_update_state demo_lib cache_get_accounts demo_venue (cache_new (demo_rpc False)) = ((v', cache'), Ok ())
    \<and> bv_core v' = demo_core False \<and> bv_initialized v'"
proof -
  have answers: "\<forall>ks. is_ok (rpc_get_multiple_accounts (rc_rpc_client (cache_new (demo_rpc False))) ks)"
    by (intro allI demo_rpc_answers)
  have clk: "demo_chain False (clock_id (lib_codec demo_lib)) = Some (demo_account (replicate 12 0) [])"
    "decode_Clock_epoch (lib_codec demo_lib) (acc_data (demo_account (replicate 12 0) [])) = Ok 7"
    by (simp_all add: demo_lib_def demo_codec_lib_def demo_chain_at)
  have mints: "token_mints (demo_core False) = [[1], [2]]"
    by (simp add: token_mints_def demo_core_def demo_pool_def)
  have "\<exists>info. token_info_new (lib_spl (lib_codec demo_lib)) m (demo_account [1] [20]) 7 = Ok info" for m
    by (simp add: token_info_new_def demo_lib_def demo_codec_lib_def demo_spl_lib_def demo_account_def)
  then have decode: "\<forall>m \<in> set (token_mints (demo_core False)). \<exists>acc info. demo_chain False m = Some acc
      \<and> token_info_new (lib_spl (lib_codec demo_lib)) m acc 7 = Ok info"
    by (simp add: mints demo_chain_at)
  have "\<forall>(i, j) \<in> {(0, 1), (1, 0)}. \<exists>k < 64.
      quotable (quote_for_bounds demo_lib (demo_core False) (token_mints (demo_core False) ! i) (token_mints (demo_core False) ! j)) (2 ^ k)"
    using demo_all_quotable(2) by (simp add: mints)
  with update_outcome [OF demo_cache_shows answers demo_first_phase demo_second_phase clk decode demo_fee_laws allI [OF demo_swap_laws]]
  show ?thesis by auto
qed

text \<open>C21: after a successful update both directions have bounds, the lower one positive and at most the
  upper one; a quote of the upper bound is valid and takes the whole amount, and so is a quote of the
  lower bound when the fee is not dynamic.\<close>

theorem bounds_valid_after_update:
  assumes "venue_update_state L ga v cache = ((v', cache'), Ok ())"
    and "(input, output, i, j) = (token_mints (bv_core v') ! 0, token_mints (bv_core v') ! 1, 0, 1)
       \<or> (input, output, i, j) = (token_mints (bv_core v') ! 1, token_mints (bv_core v') ! 0, 1, 0)"
  shows "\<exists>lo hi. venue_bounds v' i j = Ok (lo, hi) \<and> 0 < lo \<and> lo \<le> hi
    \<and> (\<exists>q. venue_quote L v' (exact_in input output hi) = Ok q \<and> valid_quote q \<and> res_amount q = hi)
    \<and> (\<not> venue_dynamic_fee_enabled L (bv_core v') \<longrightarrow>
        (\<exists>q. venue_quote L v' (exact_in input output lo) = Ok q \<and> valid_quote q \<and> res_amount q = lo))"
proof -
  obtain A w where "finish_update L A w = (v', Ok ())"
    using assms(1) by (rule update_finishes)
  then obtain b0 b1 where
    b: "find_boundaries (quote_for_bounds L (bv_core v') (token_mints (bv_core v') ! 0) (token_mints (bv_core v') ! 1)) = Ok b0"
      "find_boundaries (quote_for_bounds L (bv_core v') (token_mints (bv_core v') ! 1) (token_mints (bv_core v') ! 0)) = Ok b1"
    and v': "bv_initialized v'" "bv_bounds_cache v' = [Some b0, Some b1]"
    by (rule finish_update_OkE) auto
  obtain lo0 hi0 lo1 hi1 where bs: "b0 = (lo0, hi0)" "b1 = (lo1, hi1)"
    by fastforce
  note d0 = bounds_of_direction [OF b(1) [unfolded bs] v'(1), of 0]
    and d1 = bounds_of_direction [OF b(2) [unfolded bs] v'(1), of 1]
  show ?thesis
    using assms(2) d0 d1 venue_bounds_cached [OF v'(2)] v'(2) unfolding bs
    by (auto simp: bounds_cache_index_for_mints_def Let_def)
qed

theorem bounds_valid_after_update_witness:
  "\<exists>v' cache' lo hi. venue_update_state demo_lib cache_get_accounts demo_venue (cache_new (demo_rpc False)) = ((v', cache'), Ok ())
    \<and> venue_bounds v' 0 1 = Ok (lo, hi) \<and> 0 < lo \<and> lo \<le> hi"
proof -
  obtain v' cache' where "venue_update_state demo_lib cache_get_accounts demo_venue (cache_new (demo_rpc False)) = ((v', cache'), Ok ())"
    using demo_updated_Ok by blast
  note upd = this
  from bounds_valid_after_update [OF upd disjI1 [OF refl]] obtain lo hi where "venue_bounds v' 0 1 = Ok (lo, hi)" "0 < lo" "lo \<le> hi"
    by (elim exE conjE) (rule that)
  with upd show ?thesis by blast
qed

text \<open>C22: a venue quote that succeeds is for the requested mints of an exact-in request to an initialised
  venue, never claims more input than requested, flags insufficient liquidity exactly when it takes
  less, and reports price zero then.\<close>

theorem venue_quote_faithful:
  assumes "venue_quote L v request = Ok q"
  shows "bv_initialized v \<and> req_swap_type request = ExactIn
    \<and> res_input_mint q = req_input_mint request \<and> res_output_mint q = req_output_mint request
    \<and> res_amount q \<le> req_amount request
    \<and> (res_not_enough_liquidity q \<longleftrightarrow> res_amount q < req_amount request)
    \<and> (res_not_enough_liquidity q \<longrightarrow> res_price q = Fin 0)"
proof -
  obtain c ub where c: "quote_with_price_upper_bound L (bv_core v) request ub = Ok c"
    and q: "q = \<lparr>res_input_mint = req_input_mint request, res_output_mint = req_output_mint request,
              res_amount = cq_in_amount c, res_expected_output = cq_out_amount c,
              res_not_enough_liquidity = cq_not_enough_liquidity c,
              res_price = (if cq_not_enough_liquidity c then Fin 0 else cq_price c)\<rparr>"
    and i: "bv_initialized v" "req_swap_type request = ExactIn"
    using assms by (auto simp: venue_quote_def ensure_exact_in_def and_then_Ok_iff Let_def split: if_split_asm)
  show ?thesis
    using quote_amounts [OF c] i by (simp add: q)
qed

theorem venue_quote_faithful_witness:
  "\<exists>q. venue_quote demo_lib (demo_updated (1, 5) (1, 5)) demo_leg_request = Ok q \<and> res_input_mint q = [1] \<and> res_amount q \<le> 700"
proof -
  obtain q where q: "venue_quote demo_lib (demo_updated (1, 5) (1, 5)) demo_leg_request = Ok q"
    using demo_venue_quote by blast
  from venue_quote_faithful [OF q] q show ?thesis
    by (auto simp: demo_leg_request_def)
qed

text \<open>Before its first successful update the venue refuses to quote and to build instructions with
  \<open>NotInitialized\<close>, and it refuses exact-out requests always.\<close>

theorem venue_refuses:
  "(\<not> bv_initialized v \<longrightarrow>
      venue_quote L v request = Err (NotInitialized (EI_Pubkey (cv_market_id (bv_core v))))
    \<and> generate_swap_instruction L v request user = Err (NotInitialized (EI_Pubkey (cv_market_id (bv_core v)))))
   \<and> (bv_initialized v \<and> req_swap_type request = ExactOut \<longrightarrow>
      venue_quote L v request = Err ExactOutNotSupported \<and> generate_swap_instruction L v request user = Err ExactOutNotSupported)"
  by (auto simp: venue_quote_def generate_swap_instruction_def ensure_exact_in_def)

theorem venue_refuses_witness:
  "venue_quote demo_lib demo_venue demo_leg_request = Err (NotInitialized (EI_Pubkey [40]))
   \<and> venue_quote demo_lib (demo_updated (1, 5) (1, 5)) (demo_leg_request\<lparr>req_swap_type := ExactOut\<rparr>) = Err ExactOutNotSupported"
proof -
  have "\<not> bv_initialized demo_venue" "cv_market_id (bv_core demo_venue) = [40]" "bv_initialized (demo_updated (1, 5) (1, 5))"
    by (simp_all add: demo_venue_def demo_new_def demo_core_def demo_updated_def)
  with venue_refuses [of demo_venue demo_lib demo_leg_request] 
    venue_refuses [of "demo_updated (1, 5) (1, 5)" demo_lib "demo_leg_request\<lparr>req_swap_type := ExactOut\<rparr>"]
  show ?thesis by simp
qed

text \<open>The invocation of a leg, as the venue itself would build it.\<close>

lemma byreal_leg_call:
  assumes "venue_inv market v" and "swap_data_law L"
    and "build_swap_leg (byreal_obj L v) request titan src dst weight = Ok (spec, accs)"
  shows "unat (spec_n_accounts spec) = length accs
    \<and> (\<exists>ix. generate_swap_instruction L v (request\<lparr>req_amount := amt\<rparr>) titan = Ok ix
        \<and> leg_call titan seeds (map info_of accs) amt =
            InvokeSigned (ix\<lparr>ix_accounts := map (titan_signs titan) (ix_accounts ix)\<rparr>)
              (map am_pubkey (ix_accounts ix) @ [BYREAL_CLMM_PROGRAM_ID]) seeds
        \<and> (\<forall>m \<in> set (map (titan_signs titan) (ix_accounts ix)). am_is_signer m \<longleftrightarrow> am_pubkey m = titan))"
proof -
  from byreal.leg_reaches_venue [OF assms(1,3), of seeds amt] obtain ix where
    gen: "generate_swap_instruction L v request titan = Ok ix"
    and call: "leg_call titan seeds (map info_of accs) amt =
        InvokeSigned \<lparr>ix_program_id = ix_program_id ix, ix_accounts = map (titan_signs titan) (ix_accounts ix),
          ix_data = SWAP_V3_DYN_DISCRIMINATOR @ to_le_bytes 8 amt @ replicate 24 0 @ [1]\<rparr>
        (map am_pubkey (ix_accounts ix) @ [ix_program_id ix]) seeds"
    and sign: "\<forall>m \<in> set (map (titan_signs titan) (ix_accounts ix)). am_is_signer m \<longleftrightarrow> am_pubkey m = titan"
    by (auto simp: byreal_obj_def)
  let ?ix = "ix\<lparr>ix_data := SwapV3Dyn_data (lib_codec L) amt 0 0 True\<rparr>"
  have "leg_call titan seeds (map info_of accs) amt =
            InvokeSigned (?ix\<lparr>ix_accounts := map (titan_signs titan) (ix_accounts ?ix)\<rparr>)
              (map am_pubkey (ix_accounts ?ix) @ [BYREAL_CLMM_PROGRAM_ID]) seeds"
    using assms(2) generated_accounts(1) [OF assms(1) gen] call unfolding swap_data_law_def
    by (cases ix) simp
  then show ?thesis
    using byreal.n_accounts(1) [OF assms(1,3)] generate_with_amount [OF gen, of amt] sign
    by (intro conjI exI [of _ ?ix]) simp_all
qed

text \<open>What the handler hands to \<open>perform_cpi_swap\<close> for the accounts of a leg: all but the last as metas, the
  TitanPDA made a signer, and all of them as infos.\<close>

definition perform_leg :: "runtime \<Rightarrow> pubkey \<Rightarrow> signer_seeds \<Rightarrow> ProgSwapSpec \<Rightarrow> AccountInfo list \<Rightarrow> u64 \<Rightarrow> rt \<Rightarrow> rt route_result" where
  "perform_leg R titan seeds swap accts amt s =
     perform_cpi_swap R amt swap (leg_account_metas titan (take (length accts - 1) accts)) accts seeds s"

lemma perform_leg_invokes: "accts \<noteq> [] \<Longrightarrow> perform_leg R titan seeds swap accts amt s = invoke_cpi R (leg_call titan seeds accts amt) s"
  using perform_cpi_swap_invokes [of accts R amt swap titan seeds s] by (simp add: perform_leg_def butlast_conv_take)

lemma built_accounts_nonempty: "build_swap_leg venue request titan src dst weight = Ok (spec, accs) \<Longrightarrow> accs \<noteq> []"
  by (auto simp: build_swap_leg_def assemble_leg_accounts_def and_then_Ok_iff Let_def split: if_split_asm)

text \<open>C7: a leg the route builder makes of a Byreal venue reaches the venue program intact.  Its account count
  does not overflow the byte that carries it, and when the program performs the swap of this leg over
  these accounts for an input of \<open>amt\<close>, then all it does is to invoke the swap instruction that the venue
  itself generates for \<open>amt\<close>, data and accounts in the same order, signed by the TitanPDA and nobody
  else; it succeeds and fails as this invocation does.\<close>

theorem byreal_leg_reaches_venue:
  assumes "venue_inv market v" and "swap_data_law L"
    and "build_swap_leg (byreal_obj L v) request titan src dst weight = Ok (spec, accs)"
  shows "unat (spec_n_accounts spec) = length accs
    \<and> (\<exists>ix. generate_swap_instruction L v (request\<lparr>req_amount := amt\<rparr>) titan = Ok ix
        \<and> perform_cpi_swap R amt (prog_spec spec) (leg_account_metas titan (map info_of (take (length accs - 1) accs)))
              (map info_of accs) seeds s
          = invoke_cpi R (InvokeSigned (ix\<lparr>ix_accounts := map (titan_signs titan) (ix_accounts ix)\<rparr>)
              (map am_pubkey (ix_accounts ix) @ [BYREAL_CLMM_PROGRAM_ID]) seeds) s
        \<and> (\<forall>m \<in> set (map (titan_signs titan) (ix_accounts ix)). am_is_signer m \<longleftrightarrow> am_pubkey m = titan))"
proof -
  have "perform_cpi_swap R amt (prog_spec spec) (leg_account_metas titan (map info_of (take (length accs - 1) accs)))
      (map info_of accs) seeds s = invoke_cpi R (leg_call titan seeds (map info_of accs) amt) s"
    using perform_leg_invokes [of "map info_of accs" R titan seeds "prog_spec spec" amt s] built_accounts_nonempty [OF assms(3)]
    by (simp add: perform_leg_def take_map)
  with byreal_leg_call [OF assms, of amt seeds] show ?thesis
    by metis
qed

theorem byreal_leg_reaches_venue_witness:
  "\<forall>R s. \<exists>spec accs ix c. build_swap_leg (byreal_obj demo_lib (demo_updated (1, 5) (1, 5))) demo_leg_request [50] 0 1 1000000000 = Ok (spec, accs)
    \<and> generate_swap_instruction demo_lib (demo_updated (1, 5) (1, 5)) (demo_leg_request\<lparr>req_amount := 650\<rparr>) [50] = Ok ix
    \<and> perform_cpi_swap R 650 (prog_spec spec) (leg_account_metas [50] (map info_of (take (length accs - 1) accs))) (map info_of accs) [] s
      = invoke_cpi R c s"
proof (intro allI)
  fix R s
  obtain spec accs where "build_swap_leg (byreal_obj demo_lib (demo_updated (1, 5) (1, 5))) demo_leg_request [50] 0 1 1000000000 = Ok (spec, accs)"
    using demo_leg_Ok by blast
  with byreal_leg_reaches_venue [OF demo_updated_inv demo_swap_data_law this, of 650 R "[]" s]
  show "\<exists>spec accs ix c. build_swap_leg (byreal_obj demo_lib (demo_updated (1, 5) (1, 5))) demo_leg_request [50] 0 1 1000000000 = Ok (spec, accs)
    \<and> generate_swap_instruction demo_lib (demo_updated (1, 5) (1, 5)) (demo_leg_request\<lparr>req_amount := 650\<rparr>) [50] = Ok ix
    \<and> perform_cpi_swap R 650 (prog_spec spec) (leg_account_metas [50] (map info_of (take (length accs - 1) accs))) (map info_of accs) [] s
      = invoke_cpi R c s"
    by blast
qed

text \<open>The legs of a route run one by one, each over its own accounts: what the handler's loop does once its
  slices of the remaining accounts are taken for granted.\<close>

fun run_own_accounts :: "runtime \<Rightarrow> pubkey \<Rightarrow> signer_seeds \<Rightarrow> u64 list \<Rightarrow> AccountInfo list \<Rightarrow> (ProgSwapSpec \<times> AccountInfo list) list
   \<Rightarrow> rt \<Rightarrow> rt route_result" where
  "run_own_accounts R titan seeds reserved ra [] s = Ok s"
| "run_own_accounts R titan seeds reserved ra ((swap, accts) # legs) s =
     and_then (remaining_get ra (unat (ps_from swap))) (\<lambda>source.
     and_then (extract_token_amount (rt_ledger s) (ai_key source)) (\<lambda>balance.
     and_then (index_or_panic reserved (unat (ps_from swap))) (\<lambda>res.
     let amt = leg_input_amount balance res (ps_weight_nanos swap) in
     and_then (if 0 < amt then perform_leg R titan seeds swap accts amt s else Ok s) (\<lambda>s1.
     run_own_accounts R titan seeds reserved ra legs s1))))"

lemma run_legs_own_accounts:
  assumes "\<forall>(swap, accts) \<in> set legs. unat (ps_n_accounts swap) = length accts \<and> accts \<noteq> []"
    and "ra = pre @ concat (map snd legs)"
  shows "run_legs R titan seeds reserved ra (length pre) (map fst legs) s = run_own_accounts R titan seeds reserved ra legs s"
  using assms
proof (induction legs arbitrary: pre s)
  case (Cons leg legs)
  obtain swap accts where leg: "leg = (swap, accts)"
    by fastforce
  have n: "unat (ps_n_accounts swap) = length accts" "0 < length accts"
    using Cons.prems(1) by (auto simp: leg)
  have slice: "take (length accts) (drop (length pre) ra) = accts" "length pre + length accts \<le> length ra"
    using Cons.prems(2) by (simp_all add: leg)
  have rest: "run_legs R titan seeds reserved ra (length pre + length accts) (map fst legs) s1 = run_own_accounts R titan seeds reserved ra legs s1" for s1
    using Cons.IH [of "pre @ accts" s1] Cons.prems by (simp add: leg)
  show ?case
    using n slice
    by (simp add: leg rest perform_leg_def Let_def index_or_panic_def list_get_def del: One_nat_def cong: if_cong and_then_cong split: option.split)
qed simp

text \<open>C17: the program reads a whole route as the builder meant it.  From the encoded instruction data it decodes
  one spec per leg, and its loop over the legs, which cuts the remaining accounts behind the token
  accounts and mints into slices by the counts of the specs, does exactly what running each leg over
  the accounts the builder gave it would do, on every runtime and ledger, failures included; the checks
  of the slices never fail.\<close>

theorem route_reaches_program:
  assumes "\<forall>(spec, accs) \<in> set legs. \<exists>market v request titan src dst weight.
      venue_inv market v \<and> build_swap_leg (byreal_obj L v) request titan src dst weight = Ok (spec, accs)"
    and "length legs < 2 ^ 32"
    and "ra = map info_of (route_accounts atas mint_metas legs)"
  shows "\<exists>specs. decode_swap_route_v3 (encode_swap_route_v3_data amount mints (map fst legs)) = Some (amount, mints, specs)
    \<and> run_legs R titan seeds reserved ra (length atas + length mint_metas) specs s
        = run_own_accounts R titan seeds reserved ra (zip specs (map (\<lambda>leg. map info_of (snd leg)) legs)) s"
proof -
  let ?specs = "map (\<lambda>leg. prog_spec (fst leg)) legs" and ?accts = "map (\<lambda>leg. map info_of (snd leg)) legs"
  have "\<forall>(spec, accs) \<in> set legs. unat (spec_n_accounts spec) = length accs \<and> accs \<noteq> []"
    using assms(1) byreal.n_accounts(1) built_accounts_nonempty by (fast elim: ballE)
  then have "\<forall>(swap, accts) \<in> set (zip ?specs ?accts). unat (ps_n_accounts swap) = length accts \<and> accts \<noteq> []"
    by (auto simp: zip_map_map prog_spec_def zip_same_conv_map)
  moreover have "ra = map info_of (atas @ mint_metas) @ concat (map snd (zip ?specs ?accts))"
    by (simp add: assms(3) route_accounts_def map_concat comp_def)
  ultimately have "run_legs R titan seeds reserved ra (length (map info_of (atas @ mint_metas))) (map fst (zip ?specs ?accts)) s
      = run_own_accounts R titan seeds reserved ra (zip ?specs ?accts) s"
    by (rule run_legs_own_accounts)
  then show ?thesis
    using swap_route_data_roundtrip_lib [of "map fst legs" amount mints] assms(2) by (simp add: comp_def)
qed

theorem route_reaches_program_witness:
  "\<forall>R titan seeds reserved s (atas :: account_meta list) mint_metas. \<exists>leg specs. build_swap_leg (byreal_obj demo_lib (demo_updated (1, 5) (1, 5))) demo_leg_request [50] 0 1 1000000000 = Ok leg
    \<and> decode_swap_route_v3 (encode_swap_route_v3_data 700 2 [fst leg, fst leg]) = Some (700, 2, specs)
    \<and> run_legs R titan seeds reserved (map info_of (route_accounts atas mint_metas [leg, leg])) (length atas + length mint_metas) specs s
        = run_own_accounts R titan seeds reserved (map info_of (route_accounts atas mint_metas [leg, leg]))
            (zip specs [map info_of (snd leg), map info_of (snd leg)]) s"
proof (intro allI)
  fix R titan seeds reserved s and atas mint_metas :: "account_meta list"
  obtain spec accs where leg: "build_swap_leg (byreal_obj demo_lib (demo_updated (1, 5) (1, 5))) demo_leg_request [50] 0 1 1000000000 = Ok (spec, accs)"
    using demo_leg_Ok by blast
  have "\<forall>(spec, accs) \<in> set [(spec, accs), (spec, accs)]. \<exists>market v request titan src dst weight.
      venue_inv market v \<and> build_swap_leg (byreal_obj demo_lib v) request titan src dst weight = Ok (spec, accs)"
    using leg demo_updated_inv [of "(1, 5)" "(1, 5)"] by (simp del: split_paired_Ex) blast
  from route_reaches_program [OF this _ refl, of 700 2 R titan seeds reserved atas mint_metas s]
  show "\<exists>leg specs. build_swap_leg (byreal_obj demo_lib (demo_updated (1, 5) (1, 5))) demo_leg_request [50] 0 1 1000000000 = Ok leg
    \<and> decode_swap_route_v3 (encode_swap_route_v3_data 700 2 [fst leg, fst leg]) = Some (700, 2, specs)
    \<and> run_legs R titan seeds reserved (map info_of (route_accounts atas mint_metas [leg, leg])) (length atas + length mint_metas) specs s
        = run_own_accounts R titan seeds reserved (map info_of (route_accounts atas mint_metas [leg, leg]))
            (zip specs [map info_of (snd leg), map info_of (snd leg)]) s"
    using leg by auto
qed

text \<open>C34: pool creations are found in order, only in instructions of the Byreal program that carry one of the
  two creation discriminators and enough accounts, and their pool and mints are accounts 4, 6 and 7.\<close>

theorem pool_creations_parsed:
  "set (parse_pool_creations instructions) =
     {\<lparr>pc_protocol = ByrealClmm, pc_pool = pi_accounts ins ! 4, pc_mints = [pi_accounts ins ! 6, pi_accounts ins ! 7]\<rparr> | ins.
        ins \<in> set instructions \<and> pi_program_id ins = BYREAL_CLMM_PROGRAM_ID \<and> 8 \<le> length (pi_accounts ins)
        \<and> (\<exists>args. pi_data ins = CREATE_POOL_DISCRIMINATOR @ args \<or> pi_data ins = CREATE_POOL_DECAY_FEE_DISCRIMINATOR @ args)}
   \<and> parse_pool_creations (instructions @ others) = parse_pool_creations instructions @ parse_pool_creations others"
proof -
  have starts: "starts_with_discriminator data d \<longleftrightarrow> (\<exists>args. data = d @ args)" for data d
    by (auto simp: starts_with_discriminator_def) (metis append_take_drop_id)
  have one: "parse_pool_creation ins = (if pi_program_id ins = BYREAL_CLMM_PROGRAM_ID \<and> 8 \<le> length (pi_accounts ins)
        \<and> (\<exists>args. pi_data ins = CREATE_POOL_DISCRIMINATOR @ args \<or> pi_data ins = CREATE_POOL_DECAY_FEE_DISCRIMINATOR @ args)
      then Some \<lparr>pc_protocol = ByrealClmm, pc_pool = pi_accounts ins ! 4, pc_mints = [pi_accounts ins ! 6, pi_accounts ins ! 7]\<rparr>
      else None)" for ins
    by (auto simp: parse_pool_creation_def starts CREATE_POOL_POOL_INDEX_def CREATE_POOL_TOKEN_MINT_0_INDEX_def
        CREATE_POOL_TOKEN_MINT_1_INDEX_def Let_def)
  show ?thesis
    unfolding parse_pool_creations_def by (auto simp: map_filter_def one split: if_split_asm)
qed

text \<open>C35: when a pool switches its dynamic fee on, the next update fails.  The first phase asks for the accounts
  of the old pool state, which do not include the vaults, decodes the new pool and then misses them; the
  update ends in \<open>MissingState\<close> although all accounts exist.  The new pool state stays in the venue, so
  that only the update after that asks for the vaults.\<close>

theorem fee_activation_fails_one_update:
  assumes "ga cache keys = (cache', Ok (map S keys))"
    and "keys = with_mints (bv_core v) (base_accounts_to_update L (bv_core v))"
    and "S (clock_id (lib_codec L)) = Some clk" and "decode_Clock_unix_timestamp (lib_codec L) (acc_data clk) = Ok t"
    and "S (cv_market_id (bv_core v)) = Some acc" and "acc_owner acc = cv_program_id (bv_core v)"
    and "decode_PoolState (lib_codec L) (acc_data acc) = Ok pool" and "is_swap_dynamic_fee_enabled (lib_pool L) pool"
    and "config_loaded L (S |` set keys) (pool_amm_config pool) cfg"
    and "pool_token_vault_0 pool \<notin> set keys" and "pool_token_vault_1 pool \<notin> set keys"
  shows "\<exists>v'. venue_update_state L ga v cache = ((v', cache'), Err (MissingState (EI_StaticStr
      ''missing dynamic fee vault accounts; call update_state() with required accounts'')))
    \<and> cv_pool_state (bv_core v') = pool
    \<and> {pool_token_vault_0 pool, pool_token_vault_1 pool} \<subseteq> set (base_accounts_to_update L (bv_core v'))"
proof -
  let ?A = "S |` set keys" and ?core = "bv_core v"
  let ?v1 = "?core\<lparr>cv_current_unix_timestamp := t\<rparr>"
  let ?v2 = "?v1\<lparr>cv_pool_state := pool, cv_reserve_mints := (pool_token_mint_0 pool, pool_token_mint_1 pool)\<rparr>"
  let ?v3 = "?v2\<lparr>cv_amm_config := cfg\<rparr>"
  let ?v4 = "?v3\<lparr>cv_token0_vault_amount := 0, cv_token0_program_id := ZERO_PUBKEY,
                 cv_token1_vault_amount := 0, cv_token1_program_id := ZERO_PUBKEY\<rparr>"
  have keys: "cv_market_id ?core \<in> set keys" "clock_id (lib_codec L) \<in> set keys"
    unfolding assms(2) by (auto simp: with_mints_def token_mints_def push_unique_def base_accounts_to_update_def)
  have "load_clock L ?A ?core = (?v1, Ok ())"
    using assms(3,4) keys by (simp add: load_clock_iff)
  moreover have "update_pool L ?A ?v1 = (?v2, Ok ())"
    using assms(5-7) keys by (simp add: update_pool_def)
  moreover have "update_amm_config L ?A ?v2 = (?v3, Ok ())"
    unfolding update_amm_config_iff using assms(9) by auto
  moreover have "update_vaults L ?A ?v3 = (?v4, Ok ())"
    using assms(10,11) by (simp add: update_vaults_def)
  moreover have "venue_dynamic_fee_enabled L ?v4"
    using assms(8) by (simp add: venue_dynamic_fee_enabled_def)
  then have "update_oracles L ?A ?v4 = (?v4, Err (MissingState (EI_StaticStr
      ''missing dynamic fee vault accounts; call update_state() with required accounts'')))"
    by (simp add: update_oracles_def)
  ultimately have upd: "core_update_state L ?A ?core = (?v4, Err (MissingState (EI_StaticStr
      ''missing dynamic fee vault accounts; call update_state() with required accounts'')))"
    by (simp add: core_update_state_def)
  have fetch: "fetch_account_map ga cache keys = (cache', Ok ?A)"
    by (simp add: fetch_account_map_def assms(1) collect_accounts_eq)
  have "venue_update_state L ga v cache = ((v\<lparr>bv_core := ?v4\<rparr>, cache'), Err (MissingState (EI_StaticStr
      ''missing dynamic fee vault accounts; call update_state() with required accounts'')))"
    unfolding venue_update_state_def assms(2) [symmetric]
    by (simp add: fetching_def fetch on_venue_def update_core_def upd)
  moreover have "{pool_token_vault_0 pool, pool_token_vault_1 pool} \<subseteq> set (base_accounts_to_update L ?v4)"
    using assms(8) by (simp add: base_accounts_to_update_def dynamic_fee_accounts_def venue_dynamic_fee_enabled_def)
  ultimately show ?thesis
    by (intro exI [of _ "v\<lparr>bv_core := ?v4\<rparr>"]) simp
qed

theorem fee_activation_fails_one_update_witness:
  "\<exists>s'. venue_update_state demo_lib cache_get_accounts demo_venue (cache_new (demo_rpc True)) = (s', Err (MissingState (EI_StaticStr
      ''missing dynamic fee vault accounts; call update_state() with required accounts'')))"
proof -
  let ?keys = "with_mints (bv_core demo_venue) (base_accounts_to_update demo_lib (bv_core demo_venue))"
  have core: "bv_core demo_venue = demo_new" "cv_market_id demo_new = [40]" "cv_program_id demo_new = BYREAL_CLMM_PROGRAM_ID"
    by (simp_all add: demo_venue_def demo_new_def demo_core_def)
  have keys: "set ?keys = {[40], [10], [1], [2], POOL_TICK_ARRAY_BITMAP_SEED @ [40], [30]}"
    unfolding core(1) by (rule demo_base_keys)
  have pool: "pool_token_vault_0 (demo_pool True) = [11]" "pool_token_vault_1 (demo_pool True) = [12]" "pool_amm_config (demo_pool True) = [10]"
    by (simp_all add: demo_pool_def)
  obtain cache' where ga: "cache_get_accounts (cache_new (demo_rpc True)) ?keys = (cache', Ok (map (demo_chain True) ?keys))"
    using get_accounts_served [OF demo_cache_shows, of True ?keys] by (auto simp: demo_rpc_def cache_new_def)
  have clk: "demo_chain True (clock_id (lib_codec demo_lib)) = Some (demo_account (replicate 12 0) [])"
    "decode_Clock_unix_timestamp (lib_codec demo_lib) (acc_data (demo_account (replicate 12 0) [])) = Ok 12"
    by (simp_all add: demo_lib_def demo_codec_lib_def demo_chain_at demo_account_def)
  have acc: "demo_chain True (cv_market_id (bv_core demo_venue)) = Some (demo_account [2] BYREAL_CLMM_PROGRAM_ID)"
    "acc_owner (demo_account [2] BYREAL_CLMM_PROGRAM_ID) = cv_program_id (bv_core demo_venue)"
    "decode_PoolState (lib_codec demo_lib) (acc_data (demo_account [2] BYREAL_CLMM_PROGRAM_ID)) = Ok (demo_pool True)"
    by (simp_all add: core demo_chain_at demo_account_def demo_lib_def demo_codec_lib_def)
  have dyn: "is_swap_dynamic_fee_enabled (lib_pool demo_lib) (demo_pool True)"
    by (simp add: demo_lib_def demo_pool_lib_def demo_pool_def)
  have cfg: "config_loaded demo_lib (demo_chain True |` set ?keys) (pool_amm_config (demo_pool True)) (Some ())"
    unfolding keys by (simp add: config_loaded_def pool demo_chain_at demo_account_def demo_lib_def demo_codec_lib_def)
  have vaults: "pool_token_vault_0 (demo_pool True) \<notin> set ?keys" "pool_token_vault_1 (demo_pool True) \<notin> set ?keys"
    unfolding keys pool by simp_all
  from fee_activation_fails_one_update [where ga = cache_get_accounts and cache = "cache_new (demo_rpc True)" and cache' = cache'
      and keys = ?keys and S = "demo_chain True" and v = demo_venue and L = demo_lib, OF ga refl clk acc dyn cfg vaults] show ?thesis by blast
qed

end
