(* ===== verification/Program_Settlement.thy ===== *)
theory Program_Settlement
  imports Program_Properties
begin

text \<open>
  What a route does to balances, given what the SPL token programs document: who pays, who is paid,
  and what stays with the TitanPDA.  The laws below speak about the runtime \<open>R\<close> only where the handler
  calls it; a venue stays arbitrary up to the account isolation of the Solana runtime
  (\<open>isolated\<close>) or up to taking no more than it is offered (\<open>fair_legs\<close>).
\<close>

subsection \<open>The token programs\<close>

abbreviation tok :: "ledger \<Rightarrow> pubkey \<Rightarrow> nat" where
  "tok L k \<equiv> unat (token_amount_or_zero L k)"

text \<open>A transfer takes the amount from the source; all of it arrives unless the mint charges a transfer
  fee, and no other balance changes.\<close>

definition debits :: "pubkey \<Rightarrow> pubkey \<Rightarrow> u64 \<Rightarrow> ledger \<Rightarrow> ledger \<Rightarrow> bool" where
  "debits src dst amt L L' \<longleftrightarrow> tok L' src + unat amt = tok L src \<and> tok L dst \<le> tok L' dst
     \<and> (\<forall>k. k \<noteq> src \<longrightarrow> k \<noteq> dst \<longrightarrow> tok L' k = tok L k)"

definition moves :: "pubkey \<Rightarrow> pubkey \<Rightarrow> u64 \<Rightarrow> ledger \<Rightarrow> ledger \<Rightarrow> bool" where
  "moves src dst amt L L' \<longleftrightarrow> debits src dst amt L L' \<and> tok L' dst = tok L dst + unat amt"

text \<open>Creating an associated token account that is there already changes nothing.  A new one is empty, but
  one for the native mint starts with the SOL that its address held, so its balance can only be bounded
  from below.  Neither creation nor a transfer removes an account.\<close>

definition creates :: "prog_env \<Rightarrow> pubkey \<Rightarrow> pubkey \<Rightarrow> ledger \<Rightarrow> ledger \<Rightarrow> bool" where
  "creates E m ata L L' \<longleftrightarrow> (\<forall>k. tok L k \<le> tok L' k \<and> (account_exists L k \<longrightarrow> account_exists L' k)
     \<and> (k \<noteq> ata \<or> account_exists L k \<or> \<not> is_native_mint E m \<longrightarrow> tok L' k = tok L k))"

text \<open>\<open>F\<close> holds the mints without a transfer fee.  The second account of a creation is the new one; closing
  an account removes its balance, lamports are no tokens, and \<open>SyncNative\<close> touches its account only.\<close>

definition token_laws :: "prog_env \<Rightarrow> runtime \<Rightarrow> pubkey set \<Rightarrow> bool" where
  "token_laws E R F \<longleftrightarrow>
     (\<forall>tp src dst auth amt seeds L L'. R (TokenTransfer tp src dst auth amt seeds) L = Ok L' \<longrightarrow> src \<noteq> dst \<longrightarrow>
        moves src dst amt L L' \<and> (\<forall>k. account_exists L k \<longrightarrow> account_exists L' k))
   \<and> (\<forall>tp src m dst auth amt dec seeds L L'. R (TokenTransferChecked tp src m dst auth amt dec seeds) L = Ok L' \<longrightarrow>
        src \<noteq> dst \<longrightarrow> debits src dst amt L L' \<and> (m \<in> F \<longrightarrow> moves src dst amt L L')
        \<and> (\<forall>k. account_exists L k \<longrightarrow> account_exists L' k))
   \<and> (\<forall>p w m tp payer ata infos L L'. R (CreateAtaIdempotent p w m tp (payer # ata # infos)) L = Ok L' \<longrightarrow> creates E m ata L L')
   \<and> (\<forall>tp a d w seeds L L'. R (TokenCloseAccount tp a d w seeds) L = Ok L' \<longrightarrow>
        tok L' a = 0 \<and> (\<forall>k. k \<noteq> a \<longrightarrow> tok L' k = tok L k))
   \<and> (\<forall>src dst amt L L'. R (SystemTransfer src dst amt) L = Ok L' \<longrightarrow> (\<forall>k. tok L' k = tok L k))
   \<and> (\<forall>tp a L L'. R (SyncNative tp a) L = Ok L' \<longrightarrow> (\<forall>k. k \<noteq> a \<longrightarrow> tok L' k = tok L k))"

lemma token_lawsD:
  assumes "token_laws E R F"
  shows "R (TokenTransfer tp src dst auth amt seeds) L = Ok L' \<Longrightarrow> src \<noteq> dst \<Longrightarrow>
      moves src dst amt L L' \<and> (account_exists L k \<longrightarrow> account_exists L' k)"
    and "R (TokenTransferChecked tp src m dst auth amt dec seeds) L = Ok L' \<Longrightarrow> src \<noteq> dst \<Longrightarrow>
      debits src dst amt L L' \<and> (m \<in> F \<longrightarrow> moves src dst amt L L') \<and> (account_exists L k \<longrightarrow> account_exists L' k)"
    and "R (CreateAtaIdempotent p w m tp (payer # ata # infos)) L = Ok L' \<Longrightarrow> creates E m ata L L'"
    and "R (TokenCloseAccount tp a d w sds) L = Ok L' \<Longrightarrow> tok L' k = (if k = a then 0 else tok L k)"
    and "R (SystemTransfer src dst amt) L = Ok L' \<Longrightarrow> tok L' k = tok L k"
    and "R (SyncNative tp a) L = Ok L' \<Longrightarrow> k \<noteq> a \<Longrightarrow> tok L' k = tok L k"
  using assms unfolding token_laws_def by metis+

lemma createsD:
  assumes "creates E m ata L L'"
  shows "tok L k \<le> tok L' k" and "account_exists L k \<Longrightarrow> account_exists L' k"
    and "k \<noteq> ata \<or> account_exists L k \<or> \<not> is_native_mint E m \<Longrightarrow> tok L' k = tok L k"
  using assms unfolding creates_def by blast+

lemma invoke_cpi_Ok: "invoke_cpi R c s = Ok s' \<Longrightarrow> R c (rt_ledger s) = Ok (rt_ledger s')"
  by (auto simp: invoke_cpi_def outcome_simps)

text \<open>What each phase of the handler does to the balances.\<close>

lemma transfer_tokens_debits:
  assumes "token_laws E R F" and "transfer_tokens R E tp src dst auth (Some m) amt dec seeds s = Ok s'" and "src \<noteq> dst"
  shows "debits src dst amt (rt_ledger s) (rt_ledger s')"
    and "tp = spl_token_2022_id E \<Longrightarrow> m \<in> F \<Longrightarrow> moves src dst amt (rt_ledger s) (rt_ledger s')"
    and "tp \<noteq> spl_token_2022_id E \<Longrightarrow> moves src dst amt (rt_ledger s) (rt_ledger s')"
    and "account_exists (rt_ledger s) k \<Longrightarrow> account_exists (rt_ledger s') k"
  using assms(2,3) token_lawsD(1,2) [OF assms(1), where k = k]
  by (auto simp: transfer_tokens_def moves_def debits_def split: if_splits dest!: invoke_cpi_Ok)

text \<open>Creating the missing accounts changes the balance of an account only if it was missing and its mint is
  the native one.\<close>

lemma create_missing_atas_SucE:
  assumes "create_missing_atas R E ctx ra m (Suc n) created s = Ok (s', created')" and "Suc n \<le> m"
  obtains (there) "create_missing_atas R E ctx ra m n created s = Ok (s', created')"
    | (new) i s1 tp c infos where "create_missing_atas R E ctx ra m n c s1 = Ok (s', created')" "i < m" "i < length ra"
        "R (CreateAtaIdempotent (sr_payer ctx) (sr_titan_pda ctx) (ai_key (ra ! (m + i))) tp (sr_payer ctx # ai_key (ra ! i) # infos))
           (rt_ledger s) = Ok (rt_ledger s1)"
proof -
  let ?i = "m - Suc n"
  have i: "?i < m"
    using assms(2) by simp
  obtain ata where ata: "remaining_get ra ?i = Ok ata"
    using assms(1) by (auto simp: Let_def outcome_simps)
  show thesis
  proof (cases "account_exists (rt_ledger s) (ai_key ata)")
    case True
    then show thesis
      using assms(1) ata there by (simp add: Let_def)
  next
    case False
    then show thesis
      using assms(1) ata new [OF _ i]
      by (auto simp: Let_def outcome_simps create_titan_pda_ata_def remaining_get_Ok dest!: invoke_cpi_Ok)
  qed
qed

lemma create_missing_atas_keep:
  assumes "token_laws E R F" and "create_missing_atas R E ctx ra m n created s = Ok (s', created')" and "n \<le> m"
    and "account_exists (rt_ledger s) k"
  shows "account_exists (rt_ledger s') k"
  using assms(2-)
proof (induction n arbitrary: created s)
  case (Suc n)
  from Suc.prems(1,2) show ?case
  proof (cases rule: create_missing_atas_SucE)
    case there
    then show ?thesis using Suc by simp
  next
    case (new i s1 tp c infos)
    then have "account_exists (rt_ledger s1) k"
      using createsD(2) [OF token_lawsD(3) [OF assms(1)]] Suc.prems(3) by blast
    with new(1) Suc.IH Suc.prems(2) show ?thesis by simp
  qed
qed simp

lemma create_missing_atas_tok:
  assumes "token_laws E R F" and "create_missing_atas R E ctx ra m n created s = Ok (s', created')" and "n \<le> m"
    and "\<And>i. i < m \<Longrightarrow> i < length ra \<Longrightarrow> ai_key (ra ! i) = k \<Longrightarrow> is_native_mint E (ai_key (ra ! (m + i))) \<Longrightarrow>
        account_exists (rt_ledger s) k"
  shows "tok (rt_ledger s') k = tok (rt_ledger s) k"
  using assms(2-)
proof (induction n arbitrary: created s)
  case (Suc n)
  from Suc.prems(1,2) show ?case
  proof (cases rule: create_missing_atas_SucE)
    case there
    then show ?thesis using Suc by simp
  next
    case (new i s1 tp c infos)
    note created = token_lawsD(3) [OF assms(1) new(4)]
    have "tok (rt_ledger s') k = tok (rt_ledger s1) k"
      by (rule Suc.IH [OF new(1) _ createsD(2) [OF created Suc.prems(3)]]) (use Suc.prems(2) in simp_all)
    also have "\<dots> = tok (rt_ledger s) k"
      by (rule createsD(3) [OF created]) (use Suc.prems(3) [of i] new(2,3) in auto)
    finally show ?thesis .
  qed
qed simp

lemma close_created_atas_tok:
  assumes "token_laws E R F" and "close_created_atas R E ctx seeds ra m created n s = Ok s'"
  shows "tok (rt_ledger s') k = tok (rt_ledger s) k"
  using assms(2)
proof (induction n arbitrary: s)
  case (Suc n)
  show ?case
  proof (cases "created AND push_bit (m - Suc n) 1 = 0")
    case False
    obtain ata where ata: "remaining_get ra (m - Suc n) = Ok ata"
      using Suc.prems False by (auto simp: Let_def outcome_simps)
    show ?thesis
    proof (cases "0 < token_amount_or_zero (rt_ledger s) (ai_key ata)")
      case zero: False
      then obtain tp s1 where "invoke_cpi R (TokenCloseAccount tp (ai_key ata) (sr_payer ctx) (sr_titan_pda ctx) (Some seeds)) s = Ok s1"
        and rest: "close_created_atas R E ctx seeds ra m created n s1 = Ok s'"
        using Suc.prems False ata by (auto simp: Let_def outcome_simps close_titan_pda_ata_def)
      then have "tok (rt_ledger s1) k = (if k = ai_key ata then 0 else tok (rt_ledger s) k)"
        by (auto dest!: invoke_cpi_Ok token_lawsD(4) [OF assms(1), where k = k])
      then show ?thesis
        using Suc.IH [OF rest] zero by (cases "k = ai_key ata") (simp_all add: not_less)
    qed (use Suc False ata in \<open>auto simp: Let_def\<close>)
  qed (use Suc in \<open>auto simp: Let_def\<close>)
qed simp

lemma deposit_input_tok:
  assumes "token_laws E R F" and "deposit_input R E ctx ra m dec lg eff s = Ok s'"
    and "sr_input_token_account ctx \<noteq> ai_key (ra ! 0)"
  shows "k \<noteq> sr_input_token_account ctx \<Longrightarrow> tok (rt_ledger s) k \<le> tok (rt_ledger s') k"
    and "lg \<noteq> None \<or> \<not> is_native_mint E m \<Longrightarrow> debits (sr_input_token_account ctx) (ai_key (ra ! 0)) eff (rt_ledger s) (rt_ledger s')"
    and "lg \<noteq> None \<or> \<not> is_native_mint E m \<Longrightarrow> account_exists (rt_ledger s) k \<Longrightarrow> account_exists (rt_ledger s') k"
proof -
  let ?in = "sr_input_token_account ctx"
  let ?tp = "get_token_program_for_mint E (rt_ledger s) m (sr_token_program ctx) (sr_token_2022_program ctx)"
  obtain a s1 b s2 where a: "remaining_get ra 0 = Ok a"
    and wrap: "(if lg = None \<and> is_native_mint E m
             then setup_wsol_input_account R (sr_payer ctx) (sr_user ctx) ?in m ?tp (sr_system_program ctx) eff s
             else Ok (s, False)) = Ok (s1, b)"
    and tr: "transfer_tokens R E ?tp ?in (ai_key a) (sr_user ctx) (Some m) eff dec None s1 = Ok s2"
    and cl: "(if b then close_token_account R ?in (sr_payer ctx) (sr_user ctx) ?tp None s2 else Ok s2) = Ok s'"
    using assms unfolding deposit_input_def Let_def by (auto simp: and_then_Ok_iff)
  have "a = ra ! 0"
    using a by (simp add: remaining_get_Ok)
  then have d: "debits ?in (ai_key (ra ! 0)) eff (rt_ledger s1) (rt_ledger s2)"
    using transfer_tokens_debits(1) [OF assms(1) tr] assms(3) by simp
  show "k \<noteq> ?in \<Longrightarrow> tok (rt_ledger s) k \<le> tok (rt_ledger s') k"
  proof -
    assume k: "k \<noteq> ?in"
    have "tok (rt_ledger s1) k = tok (rt_ledger s) k"
      using wrap k
      by (auto simp: setup_wsol_input_account_def transfer_sol_and_sync_def outcome_simps split: if_splits
          dest!: invoke_cpi_Ok createsD(3) [OF token_lawsD(3) [OF assms(1)], where k = k] token_lawsD(5) [OF assms(1), where k = k] token_lawsD(6) [OF assms(1), where k = k])
    moreover have "tok (rt_ledger s') k = tok (rt_ledger s2) k"
      using cl k by (auto simp: close_token_account_def split: if_splits
          dest!: invoke_cpi_Ok token_lawsD(4) [OF assms(1), where k = k])
    ultimately show ?thesis
      using d k unfolding debits_def by (cases "k = ai_key (ra ! 0)") simp_all
  qed
  show "lg \<noteq> None \<or> \<not> is_native_mint E m \<Longrightarrow> debits ?in (ai_key (ra ! 0)) eff (rt_ledger s) (rt_ledger s')"
    using wrap cl d by (auto split: if_splits)
  show "lg \<noteq> None \<or> \<not> is_native_mint E m \<Longrightarrow> account_exists (rt_ledger s) k \<Longrightarrow> account_exists (rt_ledger s') k"
    using wrap cl transfer_tokens_debits(4) [OF assms(1) tr, of k] assms(3) by (auto simp: \<open>a = ra ! 0\<close> split: if_splits)
qed

lemma settle_output_tok:
  assumes "token_laws E R F" and "settle_output R E ctx seeds ra reserved j mint dec s = Ok s'"
    and "sr_output_token_account ctx \<noteq> ai_key (ra ! j)"
  shows "debits (ai_key (ra ! j)) (sr_output_token_account ctx)
      (saturating_sub (token_amount_or_zero (rt_ledger s) (ai_key (ra ! j))) (reserved ! j)) (rt_ledger s) (rt_ledger s')"
    and "mint \<in> F \<Longrightarrow> \<not> is_native_mint E mint \<or> account_exists (rt_ledger s) (sr_output_token_account ctx) \<Longrightarrow>
      moves (ai_key (ra ! j)) (sr_output_token_account ctx)
      (saturating_sub (token_amount_or_zero (rt_ledger s) (ai_key (ra ! j))) (reserved ! j)) (rt_ledger s) (rt_ledger s')"
proof -
  let ?tp = "get_token_program_for_mint E (rt_ledger s) mint (sr_token_program ctx) (sr_token_2022_program ctx)"
  have j: "j < length ra" "j < length reserved"
    using assms(2) by (auto simp: settle_output_def remaining_get_def list_get_def outcome_simps split: if_splits)
  obtain bal s1 where bal: "extract_token_amount (rt_ledger s) (ai_key (ra ! j)) = Ok bal"
    and cr: "(if \<not> account_exists (rt_ledger s) (sr_output_token_account ctx)
              then create_user_ata R (sr_payer ctx) (sr_user ctx) mint (sr_output_token_account ctx) ?tp
                     (sr_system_program ctx) s
              else Ok s) = Ok s1"
    and tr: "transfer_tokens R E ?tp (ai_key (ra ! j)) (sr_output_token_account ctx) (sr_titan_pda ctx)
               (Some mint) (saturating_sub bal (reserved ! j)) dec (Some seeds) s1 = Ok s'"
    using assms(2) j
    by (auto simp: settle_output_def remaining_get_def list_get_def and_then_Ok_iff Let_def split del: if_split)
  let ?out = "sr_output_token_account ctx"
  have ne: "ai_key (ra ! j) \<noteq> ?out"
    using assms(3) by simp
  have created: "tok (rt_ledger s1) k = tok (rt_ledger s) k"
    if "k \<noteq> ?out \<or> \<not> is_native_mint E mint \<or> account_exists (rt_ledger s) ?out" for k
    using cr that
    by (auto simp: create_user_ata_def split: if_splits dest!: invoke_cpi_Ok createsD(3) [OF token_lawsD(3) [OF assms(1)], where k = k])
  have "tok (rt_ledger s) ?out \<le> tok (rt_ledger s1) ?out"
    using cr by (auto simp: create_user_ata_def split: if_splits
        dest!: invoke_cpi_Ok createsD(1) [OF token_lawsD(3) [OF assms(1)], where k = ?out])
  moreover have b: "bal = token_amount_or_zero (rt_ledger s) (ai_key (ra ! j))"
    by (simp add: token_amount_or_zero_def bal)
  ultimately show "debits (ai_key (ra ! j)) (sr_output_token_account ctx)
      (saturating_sub (token_amount_or_zero (rt_ledger s) (ai_key (ra ! j))) (reserved ! j)) (rt_ledger s) (rt_ledger s')"
    using transfer_tokens_debits(1) [OF assms(1) tr ne] created ne by (auto simp: debits_def)
  assume "mint \<in> F" and "\<not> is_native_mint E mint \<or> account_exists (rt_ledger s) ?out"
  then have same: "tok (rt_ledger s1) k = tok (rt_ledger s) k" for k
    using created by blast
  show "moves (ai_key (ra ! j)) (sr_output_token_account ctx)
      (saturating_sub (token_amount_or_zero (rt_ledger s) (ai_key (ra ! j))) (reserved ! j)) (rt_ledger s) (rt_ledger s')"
    using transfer_tokens_debits(2,3) [OF assms(1) tr ne] \<open>mint \<in> F\<close> unfolding moves_def debits_def same b
    by (cases "?tp = spl_token_2022_id E") simp_all
qed

subsection \<open>The venues\<close>

text \<open>Account isolation of the Solana runtime: a program changes only accounts it was given.\<close>

definition isolated :: "runtime \<Rightarrow> bool" where
  "isolated R \<longleftrightarrow> (\<forall>ix infos seeds L L'. R (InvokeSigned ix infos seeds) L = Ok L' \<longrightarrow>
     (\<forall>k. k \<notin> set infos \<longrightarrow> L' k = L k))"

lemma evolves_keeps:
  assumes "evolves R s calls s'"
    and "\<And>c L L'. c \<in> set calls \<Longrightarrow> R c L = Ok L' \<Longrightarrow> L' k = L k"
  shows "rt_ledger s' k = rt_ledger s k"
proof -
  have "replay R calls L = Ok L' \<Longrightarrow> L' k = L k" for L L'
    using assms(2)
  proof (induction calls arbitrary: L)
    case (Cons c calls)
    from Cons.prems(1) obtain L1 where "R c L = Ok L1" "replay R calls L1 = Ok L'"
      by (auto simp: outcome_simps)
    have "L' k = L1 k"
      by (rule Cons.IH [OF \<open>replay R calls L1 = Ok L'\<close>]) (rule Cons.prems(2); simp)
    also have "\<dots> = L k"
      by (rule Cons.prems(2) [OF _ \<open>R c L = Ok L1\<close>]) simp
    finally show ?case .
  qed simp
  then show ?thesis
    using assms(1) by (auto simp: evolves_def)
qed

lemma leg_calls_infos:
  assumes "c \<in> set (leg_calls titan seeds (leg_slices ra idx swaps) amts)"
  obtains ix infos where "c = InvokeSigned ix infos seeds" and "set infos \<subseteq> ai_key ` set (drop idx ra)"
proof -
  from assms obtain sl a where "(sl, a) \<in> set (zip (leg_slices ra idx swaps) amts)" and c: "c = leg_call titan seeds sl a"
    by (auto simp: leg_calls_def split: if_splits)
  then have "sl \<in> set (leg_slices ra idx swaps)"
    by (auto dest: set_zip_leftD)
  then have "set sl \<subseteq> set (concat (leg_slices ra idx swaps))"
    by auto
  also have "\<dots> \<subseteq> set (drop idx ra)"
    by (simp add: concat_leg_slices set_take_subset)
  finally show ?thesis
    using that c by (auto simp: leg_call_def)
qed

lemma run_legs_isolated:
  assumes "isolated R" and "run_legs R titan seeds reserved ra idx swaps s = Ok s'" and "k \<notin> ai_key ` set (drop idx ra)"
  shows "rt_ledger s' k = rt_ledger s k"
proof -
  obtain amts where "evolves R s (leg_calls titan seeds (leg_slices ra idx swaps) amts) s'"
    using run_legs_trace [OF assms(2)] by blast
  then show ?thesis
  proof (rule evolves_keeps)
    fix c L L'
    assume "c \<in> set (leg_calls titan seeds (leg_slices ra idx swaps) amts)" and "R c L = Ok L'"
    moreover from this(1) obtain ix infos where "c = InvokeSigned ix infos seeds" "set infos \<subseteq> ai_key ` set (drop idx ra)"
      by (rule leg_calls_infos)
    ultimately show "L' k = L k"
      using assms(1,3) unfolding isolated_def by blast
  qed
qed

subsection \<open>Settlement\<close>

lemma spent_amount_settles:
  assumes "spent_amount ctx amount L0 L1 eff" and "tok L1 tin = tok L0 tin" and "tok L' tin + unat eff = tok L0 tin"
    and "tin = sr_input_token_account ctx"
  shows "case sr_token_ledger ctx of None \<Rightarrow> eff = amount
       | Some _ \<Rightarrow> 0 < eff \<and> (\<exists>stored. tok L' tin = unat stored
           \<and> read_token_ledger L0 (sr_token_ledger ctx) tin = Ok (Some stored))"
proof (cases "sr_token_ledger ctx")
  case (Some k)
  then obtain stored current where "0 < eff" "read_token_ledger L0 (sr_token_ledger ctx) tin = Ok (Some stored)"
    "extract_token_amount L1 tin = Ok current" "unat current = unat stored + unat eff"
    using assms(1,4) by (auto simp: spent_amount_def)
  then show ?thesis
    using Some assms(2,3) by (auto simp: token_amount_or_zero_def)
qed (use assms in \<open>simp add: spent_amount_def\<close>)

lemma snapshot_custody:
  assumes "take_snapshot E L titan m i as sn = Ok sn'" and "j < length as" and "i + j < m"
  shows "is_titan_pda_token_account E L (ai_key (as ! j)) titan"
  using assms
proof (induction as arbitrary: i sn j)
  case (Cons a as)
  have here: "is_titan_pda_token_account E L (ai_key a) titan"
    using Cons.prems by (auto split: if_splits)
  show ?case
  proof (cases j)
    case (Suc j')
    obtain sn1 where "take_snapshot E L titan m (Suc i) as sn1 = Ok sn'"
      using Cons.prems(1) by (auto simp: outcome_simps split: if_splits)
    from Cons.IH [OF this, of j'] show ?thesis
      using Cons.prems(2,3) Suc by simp
  qed (simp add: here)
qed simp

lemma account_local: "L' k = L k \<Longrightarrow> token_amount_or_zero L' k = token_amount_or_zero L k"
  "L' k = L k \<Longrightarrow> account_exists L' k = account_exists L k"
  by (simp_all add: token_amount_or_zero_def extract_token_amount_def account_exists_def)

text \<open>C4: who pays and who is paid.  If the token programs move balances as documented and the runtime
  isolates accounts, then a successful route whose input is not wrapped SOL and whose output mint has no
  transfer fee takes exactly the spent amount from the user's input account (the argument, or with a
  token ledger all that the account gained since the ledger was written, and more than zero), pays
  exactly the payout into the user's output account, and leaves the TitanPDA's output account at the
  balance it had once the missing accounts were created, whatever the venues do to the accounts they are
  given.  That balance is the one it started with, except that a wrapped SOL account created on the
  way takes over the SOL its address held; for the same reason a user's wrapped SOL output account has
  to exist already.\<close>

theorem route_settles_balances:
  fixes ctx ra mints swaps
  defines "tin \<equiv> sr_input_token_account ctx" and "tout \<equiv> sr_output_token_account ctx"
    and "custody \<equiv> ai_key (ra ! unat (ps_to (last swaps)))"
  assumes "token_laws E R F" and "isolated R"
    and "execute R E ctx ra amount mints swaps s0 = Ok s'"
    and "tin \<notin> ai_key ` set ra" and "tout \<notin> ai_key ` set ra" and "tin \<noteq> tout"
    and "\<not> is_native_mint E (ai_key (ra ! unat mints))"
    and "ai_key (ra ! (unat mints + unat (ps_to (last swaps)))) \<in> F"
    and "is_native_mint E (ai_key (ra ! (unat mints + unat (ps_to (last swaps))))) \<longrightarrow> account_exists (rt_ledger s0) tout"
  shows "\<exists>paid gain created s1 s2 s3 reserved.
     create_missing_atas R E ctx ra (unat mints) (unat mints) 0 s0 = Ok (s1, created)
   \<and> debits tin (ai_key (ra ! 0)) paid (rt_ledger s1) (rt_ledger s2)
   \<and> run_legs R (sr_titan_pda ctx) (titan_seeds ctx) reserved ra (2 * unat mints) swaps s2 = Ok s3
   \<and> moves custody tout gain (rt_ledger s3) (rt_ledger s')
   \<and> tok (rt_ledger s') tin + unat paid = tok (rt_ledger s0) tin
   \<and> tok (rt_ledger s') tout = tok (rt_ledger s0) tout + unat gain
   \<and> tok (rt_ledger s') custody = tok (rt_ledger s1) custody
   \<and> ((\<forall>i < unat mints. ai_key (ra ! i) = custody \<longrightarrow> is_native_mint E (ai_key (ra ! (unat mints + i)))
          \<longrightarrow> account_exists (rt_ledger s0) custody)
        \<longrightarrow> tok (rt_ledger s') custody = tok (rt_ledger s0) custody)
   \<and> (case sr_token_ledger ctx of None \<Rightarrow> paid = amount
       | Some _ \<Rightarrow> 0 < paid \<and> (\<exists>stored. tok (rt_ledger s') tin = unat stored
           \<and> read_token_ledger (rt_ledger s0) (sr_token_ledger ctx) tin = Ok (Some stored)))"
proof -
  let ?j = "unat (ps_to (last swaps))" and ?m = "unat mints"
  from assms(6) obtain lg im om idec odec s1 created sn eff s2 s3 s4 where
    v: "validate_route mints swaps ra = Ok ()"
    and lg: "read_token_ledger (rt_ledger s0) (sr_token_ledger ctx) (sr_input_token_account ctx) = Ok lg"
    and im: "remaining_get ra ?m = Ok im" and om: "remaining_get ra (?m + ?j) = Ok om"
    and cr: "create_missing_atas R E ctx ra ?m ?m 0 s0 = Ok (s1, created)"
    and sn: "take_snapshot E (rt_ledger s1) (sr_titan_pda ctx) ?m 0 ra snapshot_new = Ok sn"
    and eff: "effective_amount (rt_ledger s1) (sr_input_token_account ctx) lg amount = Ok eff"
    and dep: "deposit_input R E ctx ra (ai_key im) idec lg eff s1 = Ok s2"
    and legs: "run_legs R (sr_titan_pda ctx) (titan_seeds ctx) (snap_reserved sn) ra (2 * ?m) swaps s2 = Ok s3"
    and pay: "settle_output R E ctx (titan_seeds ctx) ra (snap_reserved sn) ?j (ai_key om) odec s3 = Ok s4"
    and cl: "close_created_atas R E ctx (titan_seeds ctx) ra ?m created ?m s4 = Ok s'"
    and ck: "check_balances (rt_ledger s') (snap_bitmap sn) (snap_balances sn) 0 0 ra = Ok ()"
    by (rule execute_OkE)
  have shape: "swaps \<noteq> []" "?m \<le> 12" "2 * ?m \<le> length ra" "?j < ?m" "0 < length ra"
    using v by (auto simp: validate_route_Ok_iff word_less_nat_alt)
  have keys: "tin \<noteq> ai_key (ra ! 0)" "tout \<noteq> custody" "tin \<noteq> custody" "tout \<noteq> ai_key (ra ! 0)"
    using assms(7,8) shape unfolding custody_def by (auto simp: image_iff)
  note create = create_missing_atas_tok [OF assms(4) cr order_refl] and close = close_created_atas_tok [OF assms(4) cl]
  have user: "tok (rt_ledger s1) k = tok (rt_ledger s0) k" if "k \<notin> ai_key ` set ra" for k
    by (rule create) (use that in auto)
  have d: "debits tin (ai_key (ra ! 0)) eff (rt_ledger s1) (rt_ledger s2)"
    using deposit_input_tok(2) [OF assms(4) dep] keys(1) assms(10) im unfolding tin_def by (auto simp: remaining_get_Ok)
  have untouched: "rt_ledger s3 tin = rt_ledger s2 tin" "rt_ledger s3 tout = rt_ledger s2 tout"
    using run_legs_isolated [OF assms(5) legs] assms(7,8) by (auto dest: in_set_dropD)
  have kept_user: "tok (rt_ledger s3) tin = tok (rt_ledger s2) tin" "tok (rt_ledger s3) tout = tok (rt_ledger s2) tout"
    "account_exists (rt_ledger s3) tout = account_exists (rt_ledger s2) tout"
    using account_local(1) [of "rt_ledger s3" tin "rt_ledger s2", OF untouched(1)]
      account_local [of "rt_ledger s3" tout "rt_ledger s2", OF untouched(2)] by simp_all
  have out: "account_exists (rt_ledger s3) tout" if "is_native_mint E (ai_key om)"
    using deposit_input_tok(3) [OF assms(4) dep, of tout] create_missing_atas_keep [OF assms(4) cr order_refl, of tout] keys(1)
      assms(10,12) im om that kept_user(3)
    unfolding tin_def by (auto simp: remaining_get_Ok)
  define gain where "gain = saturating_sub (token_amount_or_zero (rt_ledger s3) custody) (snap_reserved sn ! ?j)"
  have mv: "moves custody tout gain (rt_ledger s3) (rt_ledger s')"
    using settle_output_tok(2) [OF assms(4) pay] keys(2) assms(11) om out
    unfolding custody_def tout_def moves_def debits_def close gain_def by (auto simp: remaining_get_Ok)
  have res: "unat (snap_reserved sn ! ?j) = tok (rt_ledger s1) custody"
    using snapshot_reserved [OF sn _ shape(2,4)] shape(3) unfolding custody_def by simp
  have "tok (rt_ledger s1) custody \<le> tok (rt_ledger s') custody"
    using final_check_sound [OF sn ck, of ?j] snapshot_custody [OF sn, of ?j] shape(2-4)
    unfolding custody_def by (simp add: word_le_nat_alt)
  then have kept: "tok (rt_ledger s') custody = tok (rt_ledger s1) custody"
    using mv res by (auto simp: moves_def debits_def gain_def unat_saturating_sub)
  have start: "tok (rt_ledger s1) custody = tok (rt_ledger s0) custody"
    if "\<forall>i < ?m. ai_key (ra ! i) = custody \<longrightarrow> is_native_mint E (ai_key (ra ! (?m + i))) \<longrightarrow> account_exists (rt_ledger s0) custody"
    by (rule create) (use that in blast)
  have "tok (rt_ledger s') tin + unat eff = tok (rt_ledger s0) tin" "tok (rt_ledger s') tout = tok (rt_ledger s0) tout + unat gain"
    using d mv kept_user(1,2) keys assms(9) user assms(7,8)
    by (auto simp: moves_def debits_def)
  moreover note spent_amount_settles [OF spent_amountI [OF lg eff] user [OF assms(7) [unfolded tin_def]] calculation(1) [unfolded tin_def] refl]
  ultimately show ?thesis
    using cr d mv legs kept start unfolding tin_def
    by (intro exI [of _ eff] exI [of _ gain] exI [of _ created] exI [of _ s1] exI [of _ s2] exI [of _ s3] exI [of _ "snap_reserved sn"])
      simp
qed

subsection \<open>Fair venues\<close>

text \<open>A venue that takes at most \<open>amt\<close> from the account \<open>src\<close> of the TitanPDA's accounts \<open>K\<close>, and nothing
  from the others; a route all of whose legs have such a venue, for whatever amount they are called.\<close>

definition spares :: "pubkey set \<Rightarrow> pubkey \<Rightarrow> u64 \<Rightarrow> ledger \<Rightarrow> ledger \<Rightarrow> bool" where
  "spares K src amt L L' \<longleftrightarrow> (\<forall>k \<in> K. tok L k \<le> tok L' k + (if k = src then unat amt else 0))"

fun fair_legs :: "runtime \<Rightarrow> pubkey \<Rightarrow> signer_seeds \<Rightarrow> AccountInfo list \<Rightarrow> pubkey set \<Rightarrow> nat \<Rightarrow> ProgSwapSpec list \<Rightarrow> bool" where
  "fair_legs R titan seeds ra K idx [] \<longleftrightarrow> True"
| "fair_legs R titan seeds ra K idx (swap # swaps) \<longleftrightarrow>
     (\<forall>amt L L'. R (leg_call titan seeds (take (unat (ps_n_accounts swap)) (drop idx ra)) amt) L = Ok L' \<longrightarrow>
        spares K (ai_key (ra ! unat (ps_from swap))) amt L L')
   \<and> fair_legs R titan seeds ra K (idx + unat (ps_n_accounts swap)) swaps"

text \<open>The TitanPDA's token accounts among the accounts of the transaction.\<close>

definition custody_accounts :: "prog_env \<Rightarrow> ledger \<Rightarrow> pubkey \<Rightarrow> AccountInfo list \<Rightarrow> pubkey set" where
  "custody_accounts E L titan ra = {ai_key a | a. a \<in> set ra \<and> is_titan_pda_token_account E L (ai_key a) titan}"

lemma leg_input_amount_le: "unat (leg_input_amount bal res w) \<le> unat bal - unat res"
proof -
  have "(unat bal - unat res) * min (unat w) 1000000000 div 1000000000
      \<le> (unat bal - unat res) * 1000000000 div 1000000000"
    by (intro div_le_mono mult_le_mono) simp_all
  then show ?thesis
    by (simp add: unat_leg_input_amount)
qed

lemma run_legs_fair:
  assumes "run_legs R titan seeds reserved ra idx swaps s = Ok s'" and "fair_legs R titan seeds ra K idx swaps"
    and "\<forall>sw \<in> set swaps. unat (reserved ! unat (ps_from sw)) = base (ai_key (ra ! unat (ps_from sw)))"
    and "\<forall>k \<in> K. base k \<le> tok (rt_ledger s) k"
  shows "\<forall>k \<in> K. base k \<le> tok (rt_ledger s') k"
  using assms
proof (induction swaps arbitrary: idx s)
  case (Cons sw swaps)
  let ?n = "unat (ps_n_accounts sw)" and ?src = "ai_key (ra ! unat (ps_from sw))"
  from Cons.prems(1) obtain bal s1 where bal: "extract_token_amount (rt_ledger s) ?src = Ok bal"
    and step: "evolves R s (leg_calls titan seeds [take ?n (drop idx ra)]
       [leg_input_amount bal (reserved ! unat (ps_from sw)) (ps_weight_nanos sw)]) s1"
    and rest: "run_legs R titan seeds reserved ra (idx + ?n) swaps s1 = Ok s'"
    by (rule run_legs_ConsE)
  let ?a = "leg_input_amount bal (reserved ! unat (ps_from sw)) (ps_weight_nanos sw)"
  have "spares K ?src ?a (rt_ledger s) (rt_ledger s1)"
    using step Cons.prems(2) by (cases "?a = 0") (auto simp: evolves_def spares_def outcome_simps)
  moreover have "unat ?a \<le> tok (rt_ledger s) ?src - base ?src"
    using leg_input_amount_le [of bal "reserved ! unat (ps_from sw)"] Cons.prems(3) bal by (simp add: token_amount_or_zero_def)
  ultimately have "\<forall>k \<in> K. base k \<le> tok (rt_ledger s1) k"
    using Cons.prems(4) unfolding spares_def by (fastforce split: if_splits)
  with Cons.IH [OF rest] Cons.prems(2,3) show ?case
    by simp
qed simp

lemma check_balances_unset:
  "\<forall>j < length as. \<not> bitmap_is_set bm (i + j) \<Longrightarrow> check_balances L bm bals i b as = Ok ()"
proof (induction as arbitrary: i)
  case (Cons a as)
  then have "\<not> bitmap_is_set bm i" "\<forall>j < length as. \<not> bitmap_is_set bm (Suc i + j)"
    by (force, metis Suc_less_eq add_Suc_shift length_Cons)
  then show ?case
    using Cons.IH by simp
qed simp

lemma check_balances_complete:
  assumes "\<forall>j < length as. bitmap_is_set bm (i + j) \<longleftrightarrow> P (as ! j) \<and> i + j < 256"
    and "\<forall>a \<in> set as. P a \<longrightarrow> amt a \<le> token_amount_or_zero L (ai_key a)"
  shows "check_balances L bm (pre @ map amt (filter P as)) i (length pre) as = Ok ()"
  using assms
proof (induction as arbitrary: i pre)
  case (Cons a as)
  have here: "bitmap_is_set bm i \<longleftrightarrow> P a \<and> i < 256"
    using Cons.prems(1) by (force dest: spec [of _ 0])
  have rest: "\<forall>j < length as. bitmap_is_set bm (Suc i + j) \<longleftrightarrow> P (as ! j) \<and> Suc i + j < 256"
    using Cons.prems(1) by (metis Suc_less_eq add_Suc_shift length_Cons nth_Cons_Suc)
  show ?case
  proof (cases "i < 256")
    case True
    show ?thesis
    proof (cases "P a")
      case p: True
      have "check_balances L bm ((pre @ [amt a]) @ map amt (filter P as)) (Suc i) (length (pre @ [amt a])) as = Ok ()"
        by (rule Cons.IH [OF rest]) (use Cons.prems(2) in simp)
      then show ?thesis
        using p here True Cons.prems(2) by (simp add: list_get_def nth_append)
    qed (use Cons.IH [OF rest] Cons.prems(2) here in simp)
  qed (use Cons.prems(1) in \<open>intro check_balances_unset; auto\<close>)
qed simp

text \<open>An invoked program fails with its own error, never with one of the handler's.\<close>

definition cpi_failures :: "runtime \<Rightarrow> bool" where
  "cpi_failures R \<longleftrightarrow> (\<forall>c L e. R c L \<noteq> Err (Route e))"

definition clean :: "'a route_result \<Rightarrow> bool" where
  "clean r \<longleftrightarrow> r \<noteq> Err (Route ReservedBalanceViolation)"

lemma clean_simps [simp]:
  "clean (Ok a)" "clean Panic" "clean Diverge" "clean (Err f) \<longleftrightarrow> f \<noteq> Route ReservedBalanceViolation"
  by (simp_all add: clean_def)

named_theorems clean_intros \<open>which phases cannot report a reserve violation\<close>

lemma clean_and_then [clean_intros]:
  "clean m \<Longrightarrow> (\<And>a. m = Ok a \<Longrightarrow> clean (k a)) \<Longrightarrow> clean (and_then m k)"
  by (cases m) auto

lemma clean_if [clean_intros]: "(b \<Longrightarrow> clean x) \<Longrightarrow> (\<not> b \<Longrightarrow> clean y) \<Longrightarrow> clean (if b then x else y)"
  by simp

lemma clean_ok_or [clean_intros, simp]:
  "e \<noteq> ReservedBalanceViolation \<Longrightarrow> clean (ok_or x (Route e))"
  by (cases x) auto

lemma clean_invoke_cpi [clean_intros]: "cpi_failures R \<Longrightarrow> clean (invoke_cpi R c s)"
  unfolding invoke_cpi_def by (cases "R c (rt_ledger s)") (auto simp: cpi_failures_def)

lemma clean_reads [clean_intros, simp]:
  "clean (extract_token_amount L k)" "clean (extract_mint_decimals L k)" "clean (remaining_get ra i)"
  "clean (read_token_ledger L led k)" "clean (effective_amount L k lg amount)" "clean (validate_route mints swaps ra)"
  by (auto simp: extract_token_amount_def extract_mint_decimals_def remaining_get_def read_token_ledger_def
      effective_amount_def validate_route_def Let_def split: option.splits intro!: clean_intros)

lemma clean_transfer_tokens [clean_intros]: "cpi_failures R \<Longrightarrow> clean (transfer_tokens R E tp src dst auth m amt dec seeds s)"
  by (auto simp: transfer_tokens_def intro!: clean_intros)

lemma clean_create_missing_atas [clean_intros]: "cpi_failures R \<Longrightarrow> clean (create_missing_atas R E ctx ra m n created s)"
  by (induction n arbitrary: created s) (auto simp: Let_def create_titan_pda_ata_def intro!: clean_intros)

lemma clean_close_created_atas [clean_intros]: "cpi_failures R \<Longrightarrow> clean (close_created_atas R E ctx seeds ra m created n s)"
  by (induction n arbitrary: s) (auto simp: Let_def close_titan_pda_ata_def intro!: clean_intros)

lemma clean_deposit_input [clean_intros]: "cpi_failures R \<Longrightarrow> clean (deposit_input R E ctx ra m dec lg eff s)"
  by (auto simp: deposit_input_def setup_wsol_input_account_def transfer_sol_and_sync_def
      close_token_account_def Let_def split: prod.splits intro!: clean_intros)

lemma clean_perform_cpi_swap [clean_intros]: "cpi_failures R \<Longrightarrow> clean (perform_cpi_swap R amt swap metas infos seeds s)"
  by (cases "ps_venue swap") (auto simp: perform_cpi_swap_def swap_v3_dyn_def Let_def intro!: clean_intros)

lemma clean_run_legs [clean_intros]: "cpi_failures R \<Longrightarrow> clean (run_legs R titan seeds reserved ra idx swaps s)"
  by (induction swaps arbitrary: idx s) (auto simp: Let_def split: option.splits intro!: clean_intros)

lemma clean_settle_output [clean_intros]: "cpi_failures R \<Longrightarrow> clean (settle_output R E ctx seeds ra reserved k m dec s)"
  by (auto simp: settle_output_def create_user_ata_def Let_def split: option.splits intro!: clean_intros)

lemma clean_take_snapshot [clean_intros]: "clean (take_snapshot E L titan m i as sn)"
  by (induction as arbitrary: i sn) (auto intro!: clean_intros)

lemma fair_final_check:
  assumes "token_laws E R F"
    and "create_missing_atas R E ctx ra m m 0 s0 = Ok (s1, created)"
    and sn: "take_snapshot E (rt_ledger s1) (sr_titan_pda ctx) m 0 ra snapshot_new = Ok sn"
    and dep: "deposit_input R E ctx ra im idec lg eff s1 = Ok s2"
    and legs: "run_legs R (sr_titan_pda ctx) (titan_seeds ctx) (snap_reserved sn) ra (2 * m) swaps s2 = Ok s3"
    and pay: "settle_output R E ctx (titan_seeds ctx) ra (snap_reserved sn) j om odec s3 = Ok s4"
    and close: "close_created_atas R E ctx (titan_seeds ctx) ra m created m s4 = Ok s5"
    and shape: "0 < m" "m \<le> 12" "m \<le> length ra" "j < m" "\<forall>sw \<in> set swaps. unat (ps_from sw) < m"
    and fair: "fair_legs R (sr_titan_pda ctx) (titan_seeds ctx) ra
      (custody_accounts E (rt_ledger s1) (sr_titan_pda ctx) ra) (2 * m) swaps"
    and apart: "sr_input_token_account ctx \<notin> ai_key ` set ra" "sr_output_token_account ctx \<notin> ai_key ` set ra"
  shows "check_balances (rt_ledger s5) (snap_bitmap sn) (snap_balances sn) 0 0 ra = Ok ()"
proof -
  let ?K = "custody_accounts E (rt_ledger s1) (sr_titan_pda ctx) ra" and ?base = "\<lambda>k. tok (rt_ledger s1) k"
  let ?P = "\<lambda>a. is_titan_pda_token_account E (rt_ledger s1) (ai_key a) (sr_titan_pda ctx)"
  have "0 < length ra" "j < length ra"
    using shape by linarith+
  then have ra: "?K \<subseteq> ai_key ` set ra" "ra ! 0 \<in> set ra" "ra ! j \<in> set ra"
    by (auto simp: custody_accounts_def simp del: length_greater_0_conv intro: nth_mem)
  have res: "unat (snap_reserved sn ! i) = ?base (ai_key (ra ! i))" if "i < m" for i
    using snapshot_reserved [OF sn shape(3,2) that] by simp
  have "\<forall>k \<in> ?K. ?base k \<le> tok (rt_ledger s2) k"
    using deposit_input_tok(1) [OF assms(1) dep] apart(1) ra by (metis image_eqI subsetD)
  with run_legs_fair [OF legs fair, of ?base] res shape(5) have s3: "\<forall>k \<in> ?K. ?base k \<le> tok (rt_ledger s3) k"
    by simp
  have "\<forall>k \<in> ?K. ?base k \<le> tok (rt_ledger s4) k"
  proof
    fix k
    assume k: "k \<in> ?K"
    have out: "sr_output_token_account ctx \<noteq> ai_key (ra ! j)" "k \<noteq> sr_output_token_account ctx"
      using apart(2) ra k by auto
    show "?base k \<le> tok (rt_ledger s4) k"
      using settle_output_tok(1) [OF assms(1) pay out(1)] out(2) s3 k res [OF shape(4)]
      unfolding debits_def by (cases "k = ai_key (ra ! j)") (auto simp: unat_saturating_sub)
  qed
  then have kept: "\<forall>a \<in> set ra. ?P a \<longrightarrow> token_amount_or_zero (rt_ledger s1) (ai_key a) \<le> token_amount_or_zero (rt_ledger s5) (ai_key a)"
    using close_created_atas_tok [OF assms(1) close] by (auto simp: custody_accounts_def word_le_nat_alt)
  have "check_balances (rt_ledger s5) (snap_bitmap sn)
      (map (\<lambda>a. token_amount_or_zero (rt_ledger s1) (ai_key a)) (filter ?P ra)) 0 0 ra = Ok ()"
    by (rule check_balances_complete [where pre = "[]", simplified]) (use snapshot_bitmap_iff [OF sn] kept in auto)
  then show ?thesis
    using take_snapshot_result [OF sn] by (simp add: snapshot_new_def)
qed

text \<open>C15: the final reserve check never blocks an honest route.  If the token programs keep their
  documented laws, an invoked program fails with its own errors only, the user's accounts are not among
  the remaining accounts, and each leg's venue takes no more than the leg's amount from its input
  account and nothing from the TitanPDA's other accounts, then the handler never reports
  ReservedBalanceViolation.\<close>

theorem fair_legs_never_violate_reserves:
  assumes "token_laws E R F" and "cpi_failures R"
    and "sr_input_token_account ctx \<notin> ai_key ` set ra" and "sr_output_token_account ctx \<notin> ai_key ` set ra"
    and "\<And>s1 created. create_missing_atas R E ctx ra (unat mints) (unat mints) 0 s0 = Ok (s1, created) \<Longrightarrow>
      fair_legs R (sr_titan_pda ctx) (titan_seeds ctx) ra (custody_accounts E (rt_ledger s1) (sr_titan_pda ctx) ra)
        (2 * unat mints) swaps"
  shows "execute R E ctx ra amount mints swaps s0 \<noteq> Err (Route ReservedBalanceViolation)"
proof (cases "validate_route mints swaps ra")
  case (Ok u)
  then have "swaps \<noteq> []" "0 < unat mints" "unat mints \<le> 12" "2 * unat mints \<le> length ra" "unat (ps_to (last swaps)) < unat mints"
    "\<forall>sw \<in> set swaps. unat (ps_from sw) < unat mints"
    by (auto simp: validate_route_Ok_iff word_less_nat_alt)
  then show ?thesis
    unfolding clean_def [symmetric] execute_def Let_def
    by (intro clean_intros assms(2)) (auto simp: fair_final_check [OF assms(1) _ _ _ _ _ _ _ _ _ _ _ assms(5) assms(3,4)] intro!: clean_intros assms(2))
qed (auto simp: execute_def validate_route_def split: if_splits)

subsection \<open>A concrete token program and venue\<close>

text \<open>Transfers that check the balances, and a venue that takes the amount of the instruction from its first
  account and pays \<open>k\<close> into its second.\<close>

definition shift_tokens :: "pubkey \<Rightarrow> u64 \<Rightarrow> pubkey \<Rightarrow> u64 \<Rightarrow> ledger \<Rightarrow> ledger route_result" where
  "shift_tokens a amt b gain L =
     (if a \<noteq> b \<and> 72 \<le> length (acc_data (L a)) \<and> 72 \<le> length (acc_data (L b)) \<and> amt \<le> token_amount_or_zero L a
         \<and> tok L b + unat gain < 2 ^ 64
      then Ok (set_amount b (token_amount_or_zero L b + gain) (set_amount a (token_amount_or_zero L a - amt) L))
      else Err (CpiFailure 1))"

fun honest_runtime :: "u32 \<Rightarrow> runtime" where
  "honest_runtime k (TokenTransfer tp src dst auth amt seeds) L = shift_tokens src amt dst amt L"
| "honest_runtime k (TokenTransferChecked tp src m dst auth amt dec seeds) L = shift_tokens src amt dst amt L"
| "honest_runtime k (TokenCloseAccount tp a d w seeds) L =
     (if 72 \<le> length (acc_data (L a)) then Ok (set_amount a 0 L) else Err (CpiFailure 1))"
| "honest_runtime k (InvokeSigned ix (a # b # infos) seeds) L =
     shift_tokens a (from_le_bytes (take 8 (drop 8 (ix_data ix)))) b (ucast k) L"
| "honest_runtime k (InvokeSigned ix _ seeds) L = Err (CpiFailure 1)"
| "honest_runtime k _ L = Ok L"

lemma shift_tokens_Ok:
  assumes "shift_tokens a amt b gain L = Ok L'"
  shows "tok L' a + unat amt = tok L a" and "tok L' b = tok L b + unat gain"
    and "k \<noteq> a \<Longrightarrow> k \<noteq> b \<Longrightarrow> L' k = L k"
proof -
  have ok: "a \<noteq> b" "72 \<le> length (acc_data (L a))" "72 \<le> length (acc_data (L b))" "amt \<le> token_amount_or_zero L a"
    "tok L b + unat gain < 2 ^ 64"
    and L': "L' = set_amount b (token_amount_or_zero L b + gain) (set_amount a (token_amount_or_zero L a - amt) L)"
    using assms by (auto simp: shift_tokens_def split: if_splits)
  show "tok L' a + unat amt = tok L a"
    using ok by (simp add: L' unat_sub word_le_nat_alt)
  show "tok L' b = tok L b + unat gain"
    using ok by (simp add: L' unat_word_ariths)
  show "k \<noteq> a \<Longrightarrow> k \<noteq> b \<Longrightarrow> L' k = L k"
    by (simp add: L' set_amount_def)
qed

lemma shift_tokens_moves:
  assumes "shift_tokens src amt dst amt L = Ok L'"
  shows "moves src dst amt L L'"
proof -
  have "tok L' k = tok L k" if "k \<noteq> src" "k \<noteq> dst" for k
    using account_local(1) [of L' k L, OF shift_tokens_Ok(3) [OF assms that]] by simp
  with shift_tokens_Ok(1,2) [OF assms] show ?thesis
    by (simp add: moves_def debits_def)
qed

lemma shift_tokens_exists: "shift_tokens a amt b gain L = Ok L' \<Longrightarrow> account_exists L k \<Longrightarrow> account_exists L' k"
  by (auto simp: shift_tokens_def account_exists_def set_amount_def split: if_splits)

lemma honest_token_laws: "token_laws E (honest_runtime k) UNIV"
  unfolding token_laws_def by (auto dest: shift_tokens_moves shift_tokens_exists simp: moves_def creates_def split: if_splits)

lemma honest_cpi_failures: "cpi_failures (honest_runtime k)"
proof -
  have "honest_runtime k c L \<noteq> Err (Route e)" for c L e
    by (cases "(k, c, L)" rule: honest_runtime.cases) (auto simp: shift_tokens_def)
  then show ?thesis
    by (simp add: cpi_failures_def)
qed

lemma honest_isolated: "isolated (honest_runtime k)"
  unfolding isolated_def
proof (intro allI impI)
  fix ix infos seeds L L' q
  assume "honest_runtime k (InvokeSigned ix infos seeds) L = Ok L'" and "q \<notin> set infos"
  then show "L' q = L q"
    by (cases "(k, InvokeSigned ix infos seeds, L)" rule: honest_runtime.cases) (auto dest: shift_tokens_Ok(3))
qed

definition venue_accounts :: "AccountInfo list" where
  "venue_accounts = map demo_info [0, 1, 10, 11, 0, 1, 30]"

definition venue_swap :: ProgSwapSpec where
  "venue_swap = demo_swap\<lparr>ps_n_accounts := 3\<rparr>"

lemma venue_keys: "ai_key ` set venue_accounts = {[0], [1], [10], [11], [30]}"
  by (auto simp: venue_accounts_def demo_info_def)

lemma honest_fair: "fair_legs (honest_runtime k) titan seeds venue_accounts K 4 [venue_swap]"
proof -
  have call: "leg_call titan seeds (take 3 (drop 4 venue_accounts)) amt =
      InvokeSigned \<lparr>ix_program_id = [30], ix_accounts = leg_account_metas titan [demo_info 0, demo_info 1],
        ix_data = SWAP_V3_DYN_DISCRIMINATOR @ to_le_bytes 8 amt @ replicate 24 0 @ [1]\<rparr> [[0], [1], [30]] seeds" for amt
    by (simp add: leg_call_def venue_accounts_def demo_info_def)
  have "spares K [0] amt L L'" if "honest_runtime k (leg_call titan seeds (take 3 (drop 4 venue_accounts)) amt) L = Ok L'" for amt L L'
  proof -
    have "shift_tokens [0] amt [1] (ucast k) L = Ok L'"
      using that unfolding call by (simp add: SWAP_V3_DYN_DISCRIMINATOR_def from_to_le_bytes)
    note s = shift_tokens_Ok [OF this]
    have "tok L q \<le> tok L' q + (if q = [0] then unat amt else 0)" for q
      using s(1,2) s(3) [of q] account_local(1) [of L' q L] by (cases "q = [0]"; cases "q = [1]") simp_all
    then show ?thesis
      by (simp add: spares_def)
  qed
  then show ?thesis
    by (simp add: venue_swap_def demo_swap_def) (simp add: venue_accounts_def demo_info_def)
qed

lemma venue_phases:
  "validate_route 2 [venue_swap] venue_accounts = Ok ()"
  "create_missing_atas R demo_env demo_ctx venue_accounts 2 2 0 demo_start = Ok (demo_start, 0)"
  "take_snapshot demo_env demo_ledger demo_titan 2 0 venue_accounts snapshot_new
     = Ok \<lparr>snap_bitmap = [51, 0, 0, 0], snap_balances = [500, 20, 500, 20],
           snap_reserved = [500, 20, 0, 0, 0, 0, 0, 0, 0, 0, 0, 0]\<rparr>"
  subgoal by (simp add: validate_route_def venue_swap_def venue_accounts_def route_demo_defs MAX_SWAPS_def MAX_MINTS_def)
  subgoal by (simp add: venue_accounts_def route_demo_defs eval_nat_numeral remaining_get_def list_get_def account_exists_def)
  subgoal by (simp add: venue_accounts_def route_demo_defs snapshot_new_def bitmap_new_def bitmap_set_def zero_reserves)
  done

text \<open>The ledgers after the deposit, after the leg and after the payout.\<close>

definition paid_ledger :: ledger where
  "paid_ledger = set_amount [0] 600 (set_amount [6] 900 demo_ledger)"

definition swapped_ledger :: "u32 \<Rightarrow> ledger" where
  "swapped_ledger k = set_amount [1] (20 + ucast k) (set_amount [0] 500 paid_ledger)"

lemma unat_ucast_u32 [simp]: "unat (ucast (k :: u32) :: u64) = unat k"
  by (rule unat_ucast_up) simp

lemma length_discriminator [simp]: "length SWAP_V3_DYN_DISCRIMINATOR = 8"
  by (simp add: SWAP_V3_DYN_DISCRIMINATOR_def)

lemma paid_ledger_shape [simp]:
  "token_amount_or_zero paid_ledger [0] = 600" "token_amount_or_zero paid_ledger [1] = 20"
  "token_amount_or_zero paid_ledger [6] = 900" "token_amount_or_zero paid_ledger [7] = 0"
  "length (acc_data (paid_ledger k)) = length (acc_data (demo_ledger k))" "acc_lamports (paid_ledger k) = acc_lamports (demo_ledger k)"
  "acc_owner (paid_ledger k) = acc_owner (demo_ledger k)"
  by (simp_all add: paid_ledger_def)

lemma swapped_ledger_shape [simp]:
  "token_amount_or_zero (swapped_ledger k) [0] = 500" "token_amount_or_zero (swapped_ledger k) [1] = 20 + ucast k"
  "token_amount_or_zero (swapped_ledger k) [6] = 900" "token_amount_or_zero (swapped_ledger k) [7] = 0"
  "length (acc_data (swapped_ledger k q)) = length (acc_data (demo_ledger q))" "acc_lamports (swapped_ledger k q) = acc_lamports (demo_ledger q)"
  "acc_owner (swapped_ledger k q) = acc_owner (demo_ledger q)"
  by (simp_all add: swapped_ledger_def)

lemma extract_of_tok: "72 \<le> length (acc_data (L q)) \<Longrightarrow> extract_token_amount L q = Ok (token_amount_or_zero L q)"
  by (simp add: extract_token_amount_def token_amount_or_zero_def slice_get_def)

lemma venue_deposit:
  "deposit_input (honest_runtime k) demo_env demo_ctx venue_accounts [10] 6 None 100 demo_start
     = Ok \<lparr>rt_ledger = paid_ledger, rt_trace = [TokenTransfer [50] [6] [0] [41] 100 None]\<rparr>"
  by (simp add: deposit_input_def venue_accounts_def route_demo_defs paid_ledger_def remaining_get_def list_get_def
      is_native_mint_def demo_env_def transfer_tokens_def invoke_cpi_def get_token_program_for_mint_def shift_tokens_def)

lemma venue_legs:
  assumes "rt_ledger s = paid_ledger"
  shows "\<exists>tr. run_legs (honest_runtime k) demo_titan seeds [500, 20, 0, 0, 0, 0, 0, 0, 0, 0, 0, 0] venue_accounts 4 [venue_swap] s
    = Ok \<lparr>rt_ledger = swapped_ledger k, rt_trace = tr\<rparr>"
proof -
  have "unat k < 2 ^ 32"
    using unsigned_less [of k] by simp
  then show ?thesis
    using assms
    by (cases s) (simp add: venue_swap_def demo_swap_def venue_accounts_def demo_info_def remaining_get_def list_get_def
        demo_leg_amount from_to_le_bytes extract_of_tok perform_cpi_swap_def swap_v3_dyn_data invoke_cpi_def shift_tokens_def swapped_ledger_def)
qed

lemma venue_settle:
  assumes "rt_ledger s = swapped_ledger k"
  shows "\<exists>s'. settle_output (honest_runtime k) demo_env demo_ctx seeds venue_accounts [500, 20, 0, 0, 0, 0, 0, 0, 0, 0, 0, 0]
      1 [11] 6 s = Ok s' \<and> token_amount_or_zero (rt_ledger s') [1] = 20 \<and> token_amount_or_zero (rt_ledger s') [0] = 500
    \<and> token_amount_or_zero (rt_ledger s') [6] = 900 \<and> token_amount_or_zero (rt_ledger s') [7] = ucast k"
proof -
  have k: "unat k < 2 ^ 32"
    using unsigned_less [of k] by simp
  then have gain: "saturating_sub (20 + ucast k :: u64) 20 = ucast k"
    by (intro word_unat_eq_iff [THEN iffD2]) (simp add: unat_saturating_sub unat_word_ariths)
  have le: "(ucast k :: u64) \<le> 20 + ucast k"
    using k by (simp add: word_le_nat_alt unat_word_ariths)
  show ?thesis
    using assms k gain le
    by (cases "ucast k = (0 :: u64)")
      (simp_all add: settle_output_def venue_accounts_def route_demo_defs remaining_get_def list_get_def extract_of_tok
        account_exists_def transfer_tokens_def invoke_cpi_def get_token_program_for_mint_def demo_env_def shift_tokens_def Let_def)
qed

lemma venue_run:
  "\<exists>s'. execute (honest_runtime k) demo_env demo_ctx venue_accounts 100 2 [venue_swap] demo_start = Ok s'
    \<and> tok (rt_ledger s') [6] = 900 \<and> tok (rt_ledger s') [7] = unat k"
proof -
  obtain tr where legs: "run_legs (honest_runtime k) demo_titan (titan_seeds demo_ctx) [500, 20, 0, 0, 0, 0, 0, 0, 0, 0, 0, 0] venue_accounts 4
      [venue_swap] \<lparr>rt_ledger = paid_ledger, rt_trace = [TokenTransfer [50] [6] [0] [41] 100 None]\<rparr>
      = Ok \<lparr>rt_ledger = swapped_ledger k, rt_trace = tr\<rparr>"
    using venue_legs by fastforce
  obtain s' where settle: "settle_output (honest_runtime k) demo_env demo_ctx (titan_seeds demo_ctx) venue_accounts
      [500, 20, 0, 0, 0, 0, 0, 0, 0, 0, 0, 0] 1 [11] 6 \<lparr>rt_ledger = swapped_ledger k, rt_trace = tr\<rparr> = Ok s'"
    and tok: "token_amount_or_zero (rt_ledger s') [1] = 20" "token_amount_or_zero (rt_ledger s') [0] = 500"
      "token_amount_or_zero (rt_ledger s') [6] = 900" "token_amount_or_zero (rt_ledger s') [7] = ucast k"
    using venue_settle [of "\<lparr>rt_ledger = swapped_ledger k, rt_trace = tr\<rparr>" k] by auto
  have close: "close_created_atas R demo_env demo_ctx (titan_seeds demo_ctx) venue_accounts 2 0 2 s = Ok s" for R s
    by (simp add: numeral_2_eq_2)
  have check: "check_balances (rt_ledger s') [51, 0, 0, 0] [500, 20, 500, 20] 0 0 venue_accounts = Ok ()"
    by (simp add: venue_accounts_def demo_info_def bitmap_is_set_def list_get_def tok)
  have facts: "remaining_get venue_accounts 2 = Ok (demo_info 10)" "remaining_get venue_accounts 3 = Ok (demo_info 11)"
    "ai_key (demo_info 10) = [10]" "ai_key (demo_info 11) = [11]"
    "extract_mint_decimals demo_ledger [10] = Ok 6" "extract_mint_decimals demo_ledger [11] = Ok 6"
    "rt_ledger demo_start = demo_ledger" "sr_titan_pda demo_ctx = demo_titan" "sr_token_ledger demo_ctx = None"
    "ps_to venue_swap = 1"
    by (simp_all add: route_demo_defs venue_accounts_def venue_swap_def remaining_get_def list_get_def extract_mint_decimals_def)
  have "execute (honest_runtime k) demo_env demo_ctx venue_accounts 100 2 [venue_swap] demo_start = Ok s'"
    by (simp add: execute_def Let_def venue_phases venue_deposit legs settle [unfolded One_nat_def] close check facts
        read_token_ledger_def effective_amount_def del: run_legs.simps)
  with tok show ?thesis
    by simp
qed

theorem route_settles_balances_witness:
  "\<exists>s' s2 s3 reserved. execute (honest_runtime 90) demo_env demo_ctx venue_accounts 100 2 [venue_swap] demo_start = Ok s'
   \<and> run_legs (honest_runtime 90) demo_titan (titan_seeds demo_ctx) reserved venue_accounts 4 [venue_swap] s2 = Ok s3
   \<and> tok (rt_ledger s') [6] + 100 = 1000 \<and> tok (rt_ledger s') [1] = 20"
proof -
  obtain s' where run: "execute (honest_runtime 90) demo_env demo_ctx venue_accounts 100 2 [venue_swap] demo_start = Ok s'"
    using venue_run by blast
  have facts: "sr_input_token_account demo_ctx = [6]" "sr_output_token_account demo_ctx = [7]" "sr_token_ledger demo_ctx = None"
    "sr_titan_pda demo_ctx = demo_titan" "ps_to venue_swap = 1" "ai_key (venue_accounts ! Suc 0) = [1]" "ai_key (venue_accounts ! 2) = [10]"
    "rt_ledger demo_start = demo_ledger" "\<not> is_native_mint demo_env [10]" "\<not> is_native_mint demo_env (ai_key (venue_accounts ! 2))"
    "\<not> is_native_mint demo_env (ai_key (venue_accounts ! 3))" "\<forall>i < 2. \<not> is_native_mint demo_env (ai_key (venue_accounts ! Suc (Suc i)))"
    by (auto simp: route_demo_defs venue_accounts_def venue_swap_def is_native_mint_def demo_env_def less_2_cases_iff)
  from route_settles_balances [OF honest_token_laws honest_isolated run] show ?thesis
    using run by (simp add: facts venue_keys del: run_legs.simps) (elim exE conjE, simp del: run_legs.simps, blast)
qed

theorem fair_legs_never_violate_reserves_witness:
  "execute (honest_runtime 90) demo_env demo_ctx venue_accounts 100 2 [venue_swap] demo_start \<noteq> Err (Route ReservedBalanceViolation)"
  by (rule fair_legs_never_violate_reserves [OF honest_token_laws honest_cpi_failures])
    (simp_all add: venue_keys honest_fair demo_ctx_def del: fair_legs.simps)

text \<open>C39: the handler has no minimum output.  Under token programs that keep their documented laws and a venue
  that is isolated and takes no more than it is offered, the route below spends the user's whole amount of
  100 and succeeds whatever the venue pays for it, be it nothing at all.\<close>

theorem no_minimum_output:
  "token_laws demo_env (honest_runtime k) UNIV \<and> cpi_failures (honest_runtime k) \<and> isolated (honest_runtime k)
   \<and> fair_legs (honest_runtime k) demo_titan (titan_seeds demo_ctx) venue_accounts K 4 [venue_swap]
   \<and> (\<exists>s'. execute (honest_runtime k) demo_env demo_ctx venue_accounts 100 2 [venue_swap] demo_start = Ok s'
       \<and> tok (rt_ledger demo_start) [6] = 1000 \<and> tok (rt_ledger s') [6] = 900
       \<and> tok (rt_ledger demo_start) [7] = 0 \<and> tok (rt_ledger s') [7] = unat k)"
proof -
  have "tok (rt_ledger demo_start) [6] = 1000" "tok (rt_ledger demo_start) [7] = 0"
    by (simp_all add: demo_start_def)
  then show ?thesis
    using venue_run honest_token_laws honest_cpi_failures honest_isolated honest_fair by blast
qed

end
