(* ===== verification/Route_Execution.thy ===== *)
theory Route_Execution
  imports Venue_Properties Program_Settlement
begin

text \<open>
  The whole path of a route: legs built off chain from Byreal venues, encoded into instruction data,
  decoded by the program, and executed over the accounts of the transaction.
\<close>

subsection \<open>Legs and their invocations\<close>

text \<open>A hop is a venue, the request on it, the mints the leg connects and its weight.\<close>

type_synonym 'x hop = "'x ByrealClmmVenue \<times> QuoteRequest \<times> u8 \<times> u8 \<times> u32"

fun built_leg :: "'x clmm_lib \<Rightarrow> pubkey \<Rightarrow> 'x hop \<Rightarrow> SwapSpecInputV2 \<times> account_meta list \<Rightarrow> bool" where
  "built_leg L titan (v, request, src, dst, weight) leg \<longleftrightarrow> (\<exists>market. venue_inv market v)
     \<and> build_swap_leg (byreal_obj L v) request titan src dst weight = Ok leg"

text \<open>The invocation of the swap instruction that the venue generates for \<open>amt\<close>, signed by the TitanPDA and
  nobody else.\<close>

fun venue_call :: "'x clmm_lib \<Rightarrow> pubkey \<Rightarrow> signer_seeds \<Rightarrow> 'x hop \<Rightarrow> u64 \<Rightarrow> cpi \<Rightarrow> bool" where
  "venue_call L titan seeds (v, request, src, dst, weight) amt c \<longleftrightarrow>
     (\<exists>ix. generate_swap_instruction L v (request\<lparr>req_amount := amt\<rparr>) titan = Ok ix
        \<and> c = InvokeSigned (ix\<lparr>ix_accounts := map (titan_signs titan) (ix_accounts ix)\<rparr>)
                (map am_pubkey (ix_accounts ix) @ [BYREAL_CLMM_PROGRAM_ID]) seeds
        \<and> (\<forall>m \<in> set (map (titan_signs titan) (ix_accounts ix)). am_is_signer m \<longleftrightarrow> am_pubkey m = titan))"

text \<open>What a leg of amount \<open>amt\<close> invokes: nothing when it is zero.\<close>

definition leg_invokes :: "'x clmm_lib \<Rightarrow> pubkey \<Rightarrow> signer_seeds \<Rightarrow> 'x hop \<Rightarrow> u64 \<Rightarrow> cpi list \<Rightarrow> bool" where
  "leg_invokes L titan seeds hop amt calls \<longleftrightarrow>
     (if amt = 0 then calls = [] else (\<exists>c. calls = [c] \<and> venue_call L titan seeds hop amt c))"

lemma built_leg_call:
  assumes "swap_data_law L" and "built_leg L titan hop leg"
  shows "unat (spec_n_accounts (fst leg)) = length (snd leg)"
    and "venue_call L titan seeds hop amt (leg_call titan seeds (map info_of (snd leg)) amt)"
proof -
  obtain v request src dst weight spec accs where hop: "hop = (v, request, src, dst, weight)" "leg = (spec, accs)"
    by (cases hop, cases leg)
  with assms(2) obtain market where leg: "venue_inv market v" "build_swap_leg (byreal_obj L v) request titan src dst weight = Ok (spec, accs)"
    by auto
  show "unat (spec_n_accounts (fst leg)) = length (snd leg)"
    "venue_call L titan seeds hop amt (leg_call titan seeds (map info_of (snd leg)) amt)"
    using byreal_leg_call [OF leg(1) assms(1) leg(2), of amt seeds] by (simp_all add: hop)
qed

lemma legs_counted:
  assumes "swap_data_law L" and "list_all2 (built_leg L titan) hops legs"
  shows "\<forall>(spec, accs) \<in> set legs. unat (spec_n_accounts spec) = length accs"
  using assms(2)
proof (induction rule: list_all2_induct)
  case (Cons hop hops leg legs)
  then show ?case
    using built_leg_call(1) [OF assms(1) Cons.hyps(1)] by (simp add: case_prod_beta)
qed simp

lemma leg_calls_invoke:
  assumes "swap_data_law L" and "list_all2 (built_leg L titan) hops legs" and "length amts = length hops"
  shows "\<exists>calls. leg_calls titan seeds (map (\<lambda>leg. map info_of (snd leg)) legs) amts = concat calls
    \<and> list_all2 (\<lambda>(hop, amt). leg_invokes L titan seeds hop amt) (zip hops amts) calls"
  using assms(2,3)
proof (induction arbitrary: amts rule: list_all2_induct)
  case (Cons hop hops leg legs)
  then obtain a amts' where amts: "amts = a # amts'" "length amts' = length hops"
    by (cases amts) auto
  with Cons.IH obtain calls where calls: "leg_calls titan seeds (map (\<lambda>leg. map info_of (snd leg)) legs) amts' = concat calls"
    "list_all2 (\<lambda>(hop, amt). leg_invokes L titan seeds hop amt) (zip hops amts') calls"
    by blast
  let ?c = "if a = 0 then [] else [leg_call titan seeds (map info_of (snd leg)) a]"
  have "leg_invokes L titan seeds hop a ?c"
    using built_leg_call(2) [OF assms(1) Cons.hyps(1)] by (simp add: leg_invokes_def)
  with calls amts show ?case
    by (intro exI [of _ "?c # calls"]) simp
qed simp

subsection \<open>A route reaches its venues\<close>

text \<open>C6: the route builder and the program agree.  Take legs built from Byreal venues for the TitanPDA,
  encode them into instruction data as the builder does and lay their accounts out behind the token
  accounts and mints.  Whenever the program decodes that data and executes it successfully, it read
  back the same amount and mint count, and its venue invocations are, in order, exactly the swap
  instructions those venues generate for the amounts the legs came to (none for a leg of amount zero),
  each over the accounts the venue named, signed by the TitanPDA alone.\<close>

theorem routes_execute_venue_swaps:
  assumes "swap_data_law L" and "list_all2 (built_leg L (sr_titan_pda ctx)) hops legs" and "length legs < 2 ^ 32"
    and "length atas = unat mints" and "length mint_metas = unat mints"
    and "decode_swap_route_v3 (encode_swap_route_v3_data amount mints (map fst legs)) = Some (amount', mints', specs)"
    and "execute R E ctx (map info_of (route_accounts atas mint_metas legs)) amount' mints' specs s0 = Ok s'"
  shows "amount' = amount \<and> mints' = mints \<and> (\<exists>tr amts calls. evolves R s0 tr s' \<and> length amts = length hops
    \<and> filter is_venue_call tr = concat calls
    \<and> list_all2 (\<lambda>(hop, amt). leg_invokes L (sr_titan_pda ctx) (titan_seeds ctx) hop amt) (zip hops amts) calls)"
proof -
  let ?ra = "map info_of (route_accounts atas mint_metas legs)"
  have data: "amount' = amount" "mints' = mints" "specs = map (\<lambda>leg. prog_spec (fst leg)) legs"
    using swap_route_data_roundtrip_lib [of "map fst legs" amount mints] assms(3,6) by (simp_all add: comp_def)
  from leg_slices_concat [OF legs_counted [OF assms(1,2)], of "map info_of (atas @ mint_metas)"]
  have slices: "leg_slices ?ra (2 * unat mints) specs = map (\<lambda>leg. map info_of (snd leg)) legs"
    using assms(4,5) by (simp add: data route_accounts_def map_concat comp_def mult_2)
  obtain sA sB sE eff where "route_run R E ctx ?ra amount' (unat mints') specs s0 sA sB sE eff s'"
    using assms(7) by (rule execute_run)
  from route_run_venue_calls [OF this] obtain tr amts where ev: "evolves R s0 tr s'" "length amts = length legs"
    "filter is_venue_call tr = leg_calls (sr_titan_pda ctx) (titan_seeds ctx) (map (\<lambda>leg. map info_of (snd leg)) legs) amts"
    unfolding data(2) slices by (auto simp: data(3))
  then have "length amts = length hops"
    using assms(2) by (simp add: list_all2_lengthD)
  from leg_calls_invoke [OF assms(1,2) this, of "titan_seeds ctx"] this show ?thesis
    using ev data(1,2) by (intro conjI) (assumption, assumption, metis)
qed

subsection \<open>A concrete route\<close>

text \<open>The demonstration venue swaps its first mint into its second, through the TitanPDA's associated token
  accounts; the runtime moves the amount of the instruction out of its fourth account and pays 90 into
  its fifth.\<close>

definition e2e_legs :: "(SwapSpecInputV2 \<times> account_meta list) list" where
  "e2e_legs = [(\<lparr>spec_venue = Venue_ByrealClmm True, spec_from = 0, spec_to = 1, spec_weight_nanos = 1000000000,
       spec_n_accounts = 16\<rparr>,
     [meta_new_readonly demo_titan False, meta_new_readonly [10] False, meta_new [40] False,
      meta_new (demo_titan @ [1, 20]) False, meta_new (demo_titan @ [2, 20]) False, meta_new [11] False,
      meta_new [12] False, meta_new [13] False, meta_new_readonly [20] False, meta_new_readonly [21] False,
      meta_new_readonly [33] False, meta_new_readonly [1] False, meta_new_readonly [2] False,
      meta_new_readonly (POOL_TICK_ARRAY_BITMAP_SEED @ [40]) False, meta_new [116, 40, 0, 0, 0, 0] False,
      meta_new_readonly BYREAL_CLMM_PROGRAM_ID False])]"

definition e2e_hop :: "unit hop" where
  "e2e_hop = (demo_updated (1, 5) (1, 5), demo_leg_request, 0, 1, 1000000000)"

lemma e2e_built: "list_all2 (built_leg demo_lib demo_titan) [e2e_hop] e2e_legs"
proof -
  let ?v = "demo_updated (1, 5) (1, 5)"
  have core: "cv_reserve_mints (demo_core False) = ([1], [2])" "cv_current_unix_timestamp (demo_core False) = 12"
    "cv_market_id (demo_core False) = [40]" "cv_program_id (demo_core False) = BYREAL_CLMM_PROGRAM_ID"
    "cv_pool_state (demo_core False) = demo_pool False" "status_swap_enabled (lib_pool demo_lib) p"
    "is_swap_dynamic_fee_enabled (lib_pool demo_lib) (demo_pool False) \<longleftrightarrow> False"
    "lib_spl (lib_codec demo_lib) = demo_spl_lib" "spl_memo_id (lib_codec demo_lib) = [33]" for p
    by (simp_all add: demo_defs)
  have spl: "token_program_id demo_spl_lib = [20]" "token_2022_program_id demo_spl_lib = [21]"
    "associated_token_address demo_spl_lib w m p = w @ m @ p" for w m p
    by (simp_all add: demo_spl_lib_def)
  have pool: "pool_amm_config (demo_pool False) = [10]" "pool_token_mint_0 (demo_pool False) = [1]"
    "pool_token_mint_1 (demo_pool False) = [2]" "pool_token_vault_0 (demo_pool False) = [11]"
    "pool_token_vault_1 (demo_pool False) = [12]" "pool_observation_key (demo_pool False) = [13]"
    "pool_open_time (demo_pool False) = 3"
    by (simp_all add: demo_pool_def)
  have inv: "\<exists>market. venue_inv market ?v"
    using demo_updated_inv by blast
  have "\<exists>d. generate_swap_instruction demo_lib ?v demo_leg_request demo_titan = Ok \<lparr>ix_program_id = BYREAL_CLMM_PROGRAM_ID,
      ix_accounts = meta_new_readonly demo_titan True # butlast (tl (snd (hd e2e_legs))), ix_data = d\<rparr>"
    by (simp add: generate_swap_instruction_def demo_updated_def demo_leg_request_def demo_tokens_def build_swap_instruction_def
        core spl pool ensure_swap_status_enabled_def validate_mints_def demo_live swap_pyth_accounts_def venue_dynamic_fee_enabled_def
        swap_base_accounts_def get_associated_token_address_def get_token_program_def demo_ext_key e2e_legs_def)
  then obtain d where gen: "generate_swap_instruction demo_lib ?v demo_leg_request demo_titan = Ok \<lparr>ix_program_id = BYREAL_CLMM_PROGRAM_ID,
      ix_accounts = meta_new_readonly demo_titan True # butlast (tl (snd (hd e2e_legs))), ix_data = d\<rparr>"
    by blast
  have obj: "vo_generate_swap_instruction (byreal_obj demo_lib ?v) = generate_swap_instruction demo_lib ?v"
    "vo_token_info (byreal_obj demo_lib ?v) = demo_tokens" "vo_protocol (byreal_obj demo_lib ?v) = ByrealClmm"
    "vo_program_id (byreal_obj demo_lib ?v) = BYREAL_CLMM_PROGRAM_ID"
    by (simp_all add: byreal_obj_def demo_updated_def core)
  have "build_swap_leg (byreal_obj demo_lib ?v) demo_leg_request demo_titan 0 1 1000000000 = Ok (hd e2e_legs)"
    by (simp add: build_swap_leg_def fail_closed_for_transfer_fee_route_mints_def protocol_to_venue_def obj gen)
      (simp add: demo_tokens_def demo_leg_request_def e2e_legs_def assemble_leg_accounts_def meta_new_def meta_new_readonly_def)
  then show ?thesis
    using inv by (simp add: e2e_hop_def e2e_legs_def)
qed

fun e2e_runtime :: runtime where
  "e2e_runtime (InvokeSigned ix (i0 # i1 # i2 # i3 # i4 # infos) seeds) L =
     shift_tokens i3 (from_le_bytes (take 8 (drop 8 (ix_data ix)))) i4 90 L"
| "e2e_runtime c L = honest_runtime 0 c L"

abbreviation e2e_in :: pubkey where "e2e_in \<equiv> demo_titan @ [1, 20]"
abbreviation e2e_out :: pubkey where "e2e_out \<equiv> demo_titan @ [2, 20]"

definition e2e_ledger :: ledger where
  "e2e_ledger k = (if k = e2e_in then demo_token_account 500 else if k = e2e_out then demo_token_account 20
     else if k = [6] then demo_token_account 1000 else if k = [7] then demo_token_account 0
     else \<lparr>acc_lamports = 1, acc_data = replicate 82 6, acc_owner = [50]\<rparr>)"

definition e2e_start :: rt where
  "e2e_start = \<lparr>rt_ledger = e2e_ledger, rt_trace = []\<rparr>"

definition e2e_accounts :: "AccountInfo list" where
  "e2e_accounts = map info_of (route_accounts [meta_new e2e_in False, meta_new e2e_out False]
     [meta_new_readonly [1] False, meta_new_readonly [2] False] e2e_legs)"

lemma titan_keys [simp]: "demo_titan \<noteq> [a]" "[a] \<noteq> demo_titan"
  by (auto dest: arg_cong [where f = length] simp: demo_titan_def)

lemma length_titan [simp]: "length demo_titan = 32"
  by (simp add: demo_titan_def)

lemma e2e_keys [simp]: "length k < 34 \<Longrightarrow> k \<noteq> demo_titan @ [a, b]" "length k < 34 \<Longrightarrow> demo_titan @ [a, b] \<noteq> k"
  by (auto dest: arg_cong [where f = length])

lemma e2e_ledger_other:
  "length k < 34 \<Longrightarrow> k \<noteq> [6] \<Longrightarrow> k \<noteq> [7] \<Longrightarrow> e2e_ledger k = \<lparr>acc_lamports = 1, acc_data = replicate 82 6, acc_owner = [50]\<rparr>"
  by (simp add: e2e_ledger_def)

lemma e2e_ledger_tokens [simp]:
  "e2e_ledger e2e_in = demo_token_account 500" "e2e_ledger e2e_out = demo_token_account 20"
  "e2e_ledger [6] = demo_token_account 1000" "e2e_ledger [7] = demo_token_account 0"
  by (simp_all add: e2e_ledger_def)

lemma e2e_accounts_eq:
  "map ai_key e2e_accounts = [e2e_in, e2e_out, [1], [2], demo_titan, [10], [40], e2e_in, e2e_out, [11], [12], [13], [20], [21],
     [33], [1], [2], POOL_TICK_ARRAY_BITMAP_SEED @ [40], [116, 40, 0, 0, 0, 0], BYREAL_CLMM_PROGRAM_ID]"
  by (simp add: e2e_accounts_def route_accounts_def e2e_legs_def info_of_def meta_new_def meta_new_readonly_def)

lemma e2e_titan_accounts:
  "is_titan_pda_token_account demo_env e2e_ledger e2e_in demo_titan"
  "is_titan_pda_token_account demo_env e2e_ledger e2e_out demo_titan"
  "length k < 34 \<Longrightarrow> k \<noteq> [6] \<Longrightarrow> k \<noteq> [7] \<Longrightarrow> \<not> is_titan_pda_token_account demo_env e2e_ledger k demo_titan"
  by (simp_all add: is_titan_pda_token_account_def demo_env_def e2e_ledger_other)

text \<open>The phases only read the keys of the accounts.\<close>

lemma take_snapshot_keys:
  "take_snapshot E L titan m i as sn = take_snapshot E L titan m i (map (\<lambda>k. \<lparr>ai_key = k, ai_is_signer = False, ai_is_writable = False\<rparr>) (map ai_key as)) sn"
  by (induction as arbitrary: i sn) (simp_all cong: if_cong and_then_cong)

lemma e2e_snapshot:
  "take_snapshot demo_env e2e_ledger demo_titan 2 0 e2e_accounts snapshot_new
     = Ok \<lparr>snap_bitmap = [387, 0, 0, 0], snap_balances = [500, 20, 500, 20],
           snap_reserved = [500, 20, 0, 0, 0, 0, 0, 0, 0, 0, 0, 0]\<rparr>"
  by (subst take_snapshot_keys)
    (simp add: e2e_accounts_eq e2e_titan_accounts length_seed BYREAL_CLMM_PROGRAM_ID_def snapshot_new_def bitmap_new_def
      bitmap_set_def zero_reserves)

subsection \<open>The run\<close>

text \<open>The route's accounts, its one leg with the program's specification of it, and what the phases read.\<close>

definition e2e_swap :: ProgSwapSpec where
  "e2e_swap = \<lparr>ps_venue = Prog_ByrealClmm True, ps_from = 0, ps_to = 1, ps_weight_nanos = 1000000000, ps_n_accounts = 16\<rparr>"

lemma e2e_specs: "map (\<lambda>leg. prog_spec (fst leg)) e2e_legs = [e2e_swap]"
  by (simp add: e2e_legs_def e2e_swap_def prog_spec_def)

lemma e2e_nth:
  "length e2e_accounts = 20" "ai_key (e2e_accounts ! 0) = e2e_in" "ai_key (e2e_accounts ! 1) = e2e_out"
  "ai_key (e2e_accounts ! 2) = [1]" "ai_key (e2e_accounts ! 3) = [2]"
  by (simp_all add: e2e_accounts_def route_accounts_def e2e_legs_def info_of_def meta_new_def)

lemma e2e_get: "i < 20 \<Longrightarrow> remaining_get e2e_accounts i = Ok (e2e_accounts ! i)"
  by (simp add: remaining_get_def list_get_def e2e_nth)

definition e2e_paid :: ledger where
  "e2e_paid = set_amount e2e_in 600 (set_amount [6] 900 e2e_ledger)"

definition e2e_swapped :: ledger where
  "e2e_swapped = set_amount e2e_out 110 (set_amount e2e_in 500 e2e_paid)"

definition e2e_settled :: ledger where
  "e2e_settled = set_amount [7] 90 (set_amount e2e_out 20 e2e_swapped)"

lemma e2e_balances [simp]:
  "token_amount_or_zero e2e_paid e2e_in = 600" "token_amount_or_zero e2e_paid e2e_out = 20" "token_amount_or_zero e2e_paid [7] = 0"
  "token_amount_or_zero e2e_swapped e2e_in = 500" "token_amount_or_zero e2e_swapped e2e_out = 110" "token_amount_or_zero e2e_swapped [7] = 0"
  "token_amount_or_zero e2e_settled e2e_in = 500" "token_amount_or_zero e2e_settled e2e_out = 20"
  by (simp_all add: e2e_paid_def e2e_swapped_def e2e_settled_def)

lemma e2e_shapes [simp]:
  "length (acc_data (e2e_paid k)) = length (acc_data (e2e_ledger k))" "acc_owner (e2e_paid k) = acc_owner (e2e_ledger k)"
  "acc_lamports (e2e_paid k) = acc_lamports (e2e_ledger k)"
  "length (acc_data (e2e_swapped k)) = length (acc_data (e2e_ledger k))" "acc_owner (e2e_swapped k) = acc_owner (e2e_ledger k)"
  "acc_lamports (e2e_swapped k) = acc_lamports (e2e_ledger k)"
  by (simp_all add: e2e_paid_def e2e_swapped_def)

lemma e2e_phases:
  "validate_route 2 [e2e_swap] e2e_accounts = Ok ()"
  "create_missing_atas R demo_env demo_ctx e2e_accounts 2 2 0 e2e_start = Ok (e2e_start, 0)"
  "deposit_input e2e_runtime demo_env demo_ctx e2e_accounts [1] 6 None 100 e2e_start
     = Ok \<lparr>rt_ledger = e2e_paid, rt_trace = [TokenTransfer [50] [6] e2e_in [41] 100 None]\<rparr>"
  "close_created_atas R demo_env demo_ctx seeds e2e_accounts 2 0 2 s = Ok s"
  subgoal by (simp add: validate_route_def e2e_swap_def e2e_nth MAX_SWAPS_def MAX_MINTS_def)
  subgoal by (simp add: numeral_2_eq_2 e2e_get e2e_nth e2e_nth [unfolded One_nat_def] e2e_start_def account_exists_def)
  subgoal by (simp add: deposit_input_def e2e_get e2e_nth demo_ctx_def e2e_start_def e2e_ledger_other e2e_paid_def
      is_native_mint_def demo_env_def transfer_tokens_def invoke_cpi_def get_token_program_for_mint_def shift_tokens_def)
  subgoal by (simp add: numeral_2_eq_2)
  done

lemma e2e_run_leg:
  assumes "rt_ledger s = e2e_paid"
  shows "\<exists>tr. run_legs e2e_runtime demo_titan seeds [500, 20, 0, 0, 0, 0, 0, 0, 0, 0, 0, 0] e2e_accounts 4 [e2e_swap] s
    = Ok \<lparr>rt_ledger = e2e_swapped, rt_trace = tr\<rparr>"
proof -
  have "map ai_key (take 16 (drop 4 e2e_accounts)) = demo_titan # [10] # [40] # e2e_in # e2e_out # map ai_key (drop 9 e2e_accounts)"
    by (simp only: take_map [symmetric] drop_map [symmetric] e2e_accounts_eq) simp
  moreover have "perform_cpi_swap e2e_runtime 100 e2e_swap metas infos seeds s
      = invoke_cpi e2e_runtime (InvokeSigned \<lparr>ix_program_id = ai_key (last infos), ix_accounts = metas,
          ix_data = SWAP_V3_DYN_DISCRIMINATOR @ to_le_bytes 8 (100 :: u64) @ replicate 24 0 @ [1]\<rparr> (map ai_key infos) seeds) s"
    if "infos \<noteq> []" for metas infos
    using that by (simp add: perform_cpi_swap_def e2e_swap_def swap_v3_dyn_data and_then_id)
  moreover have "take 16 (drop 4 e2e_accounts) \<noteq> []"
    by (simp add: e2e_nth)
  ultimately show ?thesis
    using assms
    by (cases s) (simp add: e2e_swap_def e2e_get e2e_nth demo_leg_amount from_to_le_bytes extract_of_tok invoke_cpi_def
        shift_tokens_def e2e_swapped_def list_get_def)
qed

lemma e2e_settle:
  assumes "rt_ledger s = e2e_swapped"
  shows "\<exists>tr. settle_output e2e_runtime demo_env demo_ctx seeds e2e_accounts [500, 20, 0, 0, 0, 0, 0, 0, 0, 0, 0, 0] 1 [2] 6 s
    = Ok \<lparr>rt_ledger = e2e_settled, rt_trace = tr\<rparr>"
proof -
  have gain: "saturating_sub (110 :: u64) 20 = 90"
    by (simp add: saturating_sub_def)
  then show ?thesis
    using assms
    by (cases s) (simp add: settle_output_def e2e_get e2e_nth e2e_nth [unfolded One_nat_def] demo_ctx_def list_get_def extract_of_tok
        e2e_ledger_other account_exists_def transfer_tokens_def invoke_cpi_def get_token_program_for_mint_def demo_env_def
        shift_tokens_def e2e_settled_def Let_def)
qed

lemma e2e_checked: "check_balances e2e_settled [387, 0, 0, 0] [500, 20, 500, 20] 0 0 e2e_accounts = Ok ()"
  by (simp add: e2e_accounts_def route_accounts_def e2e_legs_def info_of_def meta_new_def meta_new_readonly_def
      bitmap_is_set_def list_get_def)

lemma e2e_run: "\<exists>s'. execute e2e_runtime demo_env demo_ctx e2e_accounts 100 2 [e2e_swap] e2e_start = Ok s'"
proof -
  let ?s = "\<lparr>rt_ledger = e2e_paid, rt_trace = [TokenTransfer [50] [6] e2e_in [41] 100 None]\<rparr>"
  obtain tr where legs: "run_legs e2e_runtime demo_titan (titan_seeds demo_ctx) [500, 20, 0, 0, 0, 0, 0, 0, 0, 0, 0, 0] e2e_accounts 4
      [e2e_swap] ?s = Ok \<lparr>rt_ledger = e2e_swapped, rt_trace = tr\<rparr>"
    using e2e_run_leg [of ?s] by auto
  obtain tr' where settle: "settle_output e2e_runtime demo_env demo_ctx (titan_seeds demo_ctx) e2e_accounts
      [500, 20, 0, 0, 0, 0, 0, 0, 0, 0, 0, 0] 1 [2] 6 \<lparr>rt_ledger = e2e_swapped, rt_trace = tr\<rparr> = Ok \<lparr>rt_ledger = e2e_settled, rt_trace = tr'\<rparr>"
    using e2e_settle [of "\<lparr>rt_ledger = e2e_swapped, rt_trace = tr\<rparr>"] by auto
  have facts: "extract_mint_decimals e2e_ledger [1] = Ok 6" "extract_mint_decimals e2e_ledger [2] = Ok 6"
    "rt_ledger e2e_start = e2e_ledger" "sr_titan_pda demo_ctx = demo_titan" "sr_token_ledger demo_ctx = None" "ps_to e2e_swap = 1"
    by (simp_all add: demo_ctx_def e2e_start_def e2e_swap_def extract_mint_decimals_def list_get_def e2e_ledger_other)
  show ?thesis
    by (simp add: execute_def Let_def e2e_phases e2e_snapshot legs settle [unfolded One_nat_def] e2e_checked facts e2e_get e2e_nth
        read_token_ledger_def effective_amount_def del: run_legs.simps)
qed

theorem routes_execute_venue_swaps_witness:
  "\<exists>s' tr amts calls. execute e2e_runtime demo_env demo_ctx e2e_accounts 100 2 [e2e_swap] e2e_start = Ok s'
    \<and> evolves e2e_runtime e2e_start tr s' \<and> length amts = 1 \<and> filter is_venue_call tr = concat calls
    \<and> list_all2 (\<lambda>(hop, amt). leg_invokes demo_lib demo_titan (titan_seeds demo_ctx) hop amt) (zip [e2e_hop] amts) calls"
proof -
  obtain s' where run: "execute e2e_runtime demo_env demo_ctx e2e_accounts 100 2 [e2e_swap] e2e_start = Ok s'"
    using e2e_run by blast
  have titan: "sr_titan_pda demo_ctx = demo_titan" and few: "length e2e_legs < 2 ^ 32"
    by (simp_all add: demo_ctx_def e2e_legs_def)
  have data: "decode_swap_route_v3 (encode_swap_route_v3_data 100 2 (map fst e2e_legs)) = Some (100, 2, [e2e_swap])"
    using swap_route_data_roundtrip_lib [of "map fst e2e_legs" 100 2] few e2e_specs by (simp add: comp_def)
  from routes_execute_venue_swaps [of demo_lib demo_ctx "[e2e_hop]" e2e_legs, unfolded titan,
      OF demo_swap_data_law e2e_built few _ _ data run [unfolded e2e_accounts_def]]
  show ?thesis
    using run by simp
qed

end
