(* ===== verification/Source_Tests.thy ===== *)
theory Source_Tests
  imports Program_Properties Route_Wire Swap_Route Venue_Properties
begin

text \<open>
  The unit tests of the repository as lemmas on the model: \<open>swap_route/mod.rs\<close>, \<open>byreal_clmm/core.rs\<close>,
  \<open>tests/byreal_clmm_creation.rs\<close> and the program's venue adapter.  Where a test fixes arbitrary data
  (fresh keys, a default pool), the lemma quantifies over it and over the library records; each
  assertion of the test is a conjunct.
\<close>

lemma numeral_le_bytes: "nat_le_bytes (numeral k) n = word_of_nat (n mod 256) # nat_le_bytes (pred_numeral k) (n div 256)"
  by (subst numeral_eq_Suc) simp

lemma replicate_numeral: "replicate (numeral k) x = x # replicate (pred_numeral k) x"
  by (subst numeral_eq_Suc) simp

subsection \<open>\<open>swap_route/mod.rs\<close>\<close>

lemma protocol_maps_to_venue: "protocol_to_venue (sample_venue None) sample_request = Ok (Venue_ByrealClmm True)"
  by (simp add: protocol_to_venue_def sample_venue_def sample_request_def sample_token_def Let_def)

lemma build_swap_leg_clears_titan_pda_signer_and_appends_program_id:
  "build_swap_leg (sample_venue None) sample_request [9] 0 1 ROUTE_WEIGHT_ALL =
     Ok (\<lparr>spec_venue = Venue_ByrealClmm True, spec_from = 0, spec_to = 1, spec_weight_nanos = ROUTE_WEIGHT_ALL,
          spec_n_accounts = 3\<rparr>,
        [\<lparr>am_pubkey = [9], am_is_signer = False, am_is_writable = True\<rparr>,
         \<lparr>am_pubkey = [8], am_is_signer = False, am_is_writable = True\<rparr>,
         \<lparr>am_pubkey = [7], am_is_signer = False, am_is_writable = False\<rparr>])"
  using protocol_maps_to_venue
  by (simp add: build_swap_leg_def fail_closed_for_transfer_fee_route_mints_def assemble_leg_accounts_def
      meta_new_def meta_new_readonly_def sample_venue_def sample_request_def sample_token_def)

lemma encodes_instruction_data_like_anchor:
  "encode_swap_route_v3_data 5000 2 [sample_spec] =
     [SWAP_ROUTE_V3_DISCRIMINATOR, 136, 19, 0, 0, 0, 0, 0, 0, 2, 1, 0, 0, 0, 0, 1, 0, 1, 0, 202, 154, 59, 3]"
  by (simp add: encode_swap_route_v3_data_def spec_serialize_def sample_spec_def borsh_bool_def ROUTE_WEIGHT_ALL_def
      to_le_bytes_def numeral_le_bytes)

lemma venue_borsh_bytes_are_stable:
  "venue_to_borsh_bytes (Venue_ByrealClmm False) = [0, 0] \<and> venue_to_borsh_bytes (Venue_ByrealClmm True) = [0, 1]"
  by (simp add: borsh_bool_def)

subsection \<open>The program's venue adapter\<close>

lemma swap_v3_dyn_data_layout_is_stable:
  "\<exists>ix. swap_v3_dyn p 123 [] = Ok [ix] \<and> ix_data ix = SWAP_V3_DYN_DISCRIMINATOR @ [123] @ replicate 31 0 @ [1]"
  by (simp add: swap_v3_dyn_def to_le_bytes_def numeral_le_bytes replicate_numeral)

lemma swap_v3_dyn_preserves_program_and_accounts:
  "\<exists>ix. swap_v3_dyn p a metas = Ok [ix] \<and> ix_program_id ix = p \<and> ix_accounts ix = metas"
  by (simp add: swap_v3_dyn_def)

subsection \<open>\<open>tests/byreal_clmm_creation.rs\<close>\<close>

definition pool_creation_instruction :: "pubkey \<Rightarrow> bytes \<Rightarrow> ParsedInstruction" where
  "pool_creation_instruction program discriminator = \<lparr>pi_program_id = program,
     pi_accounts = [[0], [1], [2], [3], [4], [5], [6], [7]], pi_data = discriminator\<rparr>"

lemma parses_byreal_create_pool:
  assumes "d \<in> {CREATE_POOL_DISCRIMINATOR, CREATE_POOL_DECAY_FEE_DISCRIMINATOR}"
  shows "parse_pool_creations [pool_creation_instruction BYREAL_CLMM_PROGRAM_ID d]
    = [\<lparr>pc_protocol = ByrealClmm, pc_pool = [4], pc_mints = [[6], [7]]\<rparr>]"
  using assms
  by (auto simp: parse_pool_creations_def List.map_filter_def parse_pool_creation_def pool_creation_instruction_def
      starts_with_discriminator_def CREATE_POOL_POOL_INDEX_def CREATE_POOL_TOKEN_MINT_0_INDEX_def
      CREATE_POOL_TOKEN_MINT_1_INDEX_def)

lemma ignores_transactions_without_a_creation:
  "parse_pool_creations [\<lparr>pi_program_id = BYREAL_CLMM_PROGRAM_ID, pi_accounts = [], pi_data = []\<rparr>] = []"
  by (simp add: parse_pool_creations_def List.map_filter_def parse_pool_creation_def Let_def
      CREATE_POOL_TOKEN_MINT_1_INDEX_def)

lemma ignores_test_contract_pool_creation:
  "program \<noteq> BYREAL_CLMM_PROGRAM_ID \<Longrightarrow> parse_pool_creations [pool_creation_instruction program CREATE_POOL_DISCRIMINATOR] = []"
  by (simp add: parse_pool_creations_def List.map_filter_def parse_pool_creation_def pool_creation_instruction_def)

lemma rejects_test_contract_pool_account_owner:
  "acc_owner acc \<noteq> BYREAL_CLMM_PROGRAM_ID \<Longrightarrow> \<exists>msg. from_account L pool acc = Err (UnsupportedVenue msg)"
  by (simp add: from_account_def)

subsection \<open>\<open>byreal_clmm/core.rs\<close>\<close>

lemma clmm_vault_accounts_are_only_base_requirements_for_dynamic_fee:
  assumes "k \<in> {pool_token_vault_0 (cv_pool_state v), pool_token_vault_1 (cv_pool_state v)}"
    and "k \<notin> {cv_market_id v, pool_amm_config (cv_pool_state v), pool_token_mint_0 (cv_pool_state v),
      pool_token_mint_1 (cv_pool_state v), tick_array_bitmap_extension_key L v, clock_id (lib_codec L)}"
  shows "k \<in> set (base_accounts_to_update L v) \<longleftrightarrow> venue_dynamic_fee_enabled L v"
  using assms by (auto simp: base_accounts_to_update_def dynamic_fee_accounts_def)

text \<open>The test runs without array bitmaps; the fallback then lists the current array first and the
  neighbours in the direction of the swap after it.\<close>

lemma swap_tick_arrays_follow_directional_order:
  assumes "\<And>z. \<exists>e. pool_get_first_initialized_tick_array (lib_pool L) (cv_pool_state v) (cv_bitmap_extension v) z = Inl e"
    and "cv_max_one_side_tick_arrays v = 3"
  defines "current \<equiv> array_start L v (pool_tick_current (cv_pool_state v))" and "offset \<equiv> fallback_offset L v 1"
  shows "get_swap_tick_arrays L v True ! 0 = get_tick_array_address L v current
    \<and> get_swap_tick_arrays L v True ! 1 = get_tick_array_address L v (saturating_i32 (current - offset))
    \<and> get_swap_tick_arrays L v False ! 0 = get_tick_array_address L v current
    \<and> get_swap_tick_arrays L v False ! 1 = get_tick_array_address L v (saturating_i32 (current + offset))"
proof -
  have "[1..<3] = [1, Suc 1]"
    by (simp add: upt_rec)
  moreover obtain e e' where
    "pool_get_first_initialized_tick_array (lib_pool L) (cv_pool_state v) (cv_bitmap_extension v) True = Inl e"
    "pool_get_first_initialized_tick_array (lib_pool L) (cv_pool_state v) (cv_bitmap_extension v) False = Inl e'"
    using assms(1) by metis
  ultimately show ?thesis
    using assms(2) by (simp add: get_swap_tick_arrays_def swap_tick_array_starts_def current_def offset_def Let_def)
qed

text \<open>Only the clock is among the accounts: a dynamic-fee pool cannot be updated, any other can.\<close>

lemma update_with_the_clock_alone:
  assumes "decode_Clock_unix_timestamp (lib_codec L) (acc_data acc) = Ok t"
    and "clock_id (lib_codec L) \<notin> {cv_market_id v, pool_amm_config (cv_pool_state v), pool_token_vault_0 (cv_pool_state v),
      pool_token_vault_1 (cv_pool_state v), tick_array_bitmap_extension_key L v}"
  shows "snd (core_update_state L [clock_id (lib_codec L) \<mapsto> acc] v) =
    (if venue_dynamic_fee_enabled L v
     then Err (MissingState (EI_StaticStr
            ''missing dynamic fee vault accounts; call update_state() with required accounts''))
     else Ok ())"
proof -
  let ?A = "[clock_id (lib_codec L) \<mapsto> acc]"
  have at: "?A (clock_id (lib_codec L)) = Some acc" "?A (cv_market_id v) = None" "?A (pool_amm_config (cv_pool_state v)) = None"
    "?A (pool_token_vault_0 (cv_pool_state v)) = None" "?A (pool_token_vault_1 (cv_pool_state v)) = None"
    "?A (find_program_address (lib_codec L) [POOL_TICK_ARRAY_BITMAP_SEED, cv_market_id v] (cv_program_id v)) = None"
    using assms(2) by (auto simp: tick_array_bitmap_extension_key_def)
  show ?thesis
    by (simp add: core_update_state_def load_clock_def update_pool_def update_amm_config_def update_vaults_def
      update_oracles_def update_bitmap_extension_def update_tick_arrays_def venue_dynamic_fee_enabled_def
      tick_array_bitmap_extension_key_def at assms(1) del: fun_upd_apply)
qed

lemma swap_disabled_pool_is_refused:
  assumes "0 < cv_current_unix_timestamp v" "pool_open_time (cv_pool_state v) < word_of_int (cv_current_unix_timestamp v)"
    and "\<not> status_swap_enabled (lib_pool L) (cv_pool_state v)"
    and "cv_reserve_mints v = (req_input_mint request, req_output_mint request)" "req_input_mint request \<noteq> req_output_mint request"
  shows "core_quote L v request = Err (InactivePoolError (cv_market_id v) ByrealClmm)
    \<and> build_swap_instruction L v build = Err (InactivePoolError (cv_market_id v) ByrealClmm)"
  using assms
  by (simp add: core_quote_def quote_with_price_upper_bound_def validate_mints_def check_quote_ready_def
      ensure_swap_status_enabled_def build_swap_instruction_def Let_def flip: not_less)

lemma update_state_rejects_pool_owner_drift:
  assumes "decode_Clock_unix_timestamp (lib_codec L) (acc_data clock) = Ok t" and "A (clock_id (lib_codec L)) = Some clock"
    and "A (cv_market_id v) = Some pool" and "acc_owner pool \<noteq> cv_program_id v"
  shows "\<exists>msg. snd (core_update_state L A v) = Err (UnsupportedVenue msg)
    \<and> cv_program_id (fst (core_update_state L A v)) = cv_program_id v"
  using assms by (simp add: core_update_state_def load_clock_def update_pool_def)

end
