(* ===== verification/Spec2Isabelle.thy ===== *)
theory Spec2Isabelle
  imports Program_Properties Route_Wire Swap_Route Venue_Properties Program_Settlement Route_Execution Source_Tests
begin

text \<open>
  Byreal venue and route program: a model of the crate under \<open>src/src\<close> and of the on-chain program
  under \<open>src/program\<close>, and the theorems that make them correct.

  \<^bold>\<open>The system.\<close>  An off-chain router asks a \<^emph>\<open>venue\<close> (\<open>TradingVenue\<close>) for quotes and for swap
  instructions.  The only venue here is the Byreal CLMM pool: \<open>src/byreal_clmm/core.rs\<close> mirrors the pool
  program off chain (tick arrays, navigation, the swap loop, fees, prices, state updates), and
  \<open>src/byreal_clmm/mod.rs\<close> wraps it into the trait, fetching its accounts through an \<open>AccountsCache\<close>
  (\<open>src/account_caching\<close>) and caching the range of quotable amounts that \<open>trading_venue/bounds.rs\<close>
  searches.  The route builder \<open>src/swap_route/mod.rs\<close> turns the venue's instructions into the legs of
  one \<open>swap_route_v3\<close> instruction; the program decodes it, moves the user's input into custody of the
  TitanPDA, invokes the venues leg by leg, pays out, and checks that custody lost nothing.

  \<^bold>\<open>Shared theories.\<close>
  \<^item> \<open>Prelude\<close>: integers (words of their width; signed ones as \<open>int\<close> with the wrap written out), byte
    encodings, the \<open>outcome\<close> type (\<open>Ok\<close>, \<open>Err\<close>, \<open>Panic\<close>, \<open>Diverge\<close>), \<open>st_then\<close> for methods on \<open>&mut self\<close>
    (the state they leave behind, also when they fail), and the named collections \<open>outcome_simps\<close>,
    \<open>word_arith\<close>, \<open>byte_simps\<close>, \<open>returns_intros\<close>.
  \<^item> \<open>Loops\<close>: \<open>loop\<close> and \<open>while\<close> as \<open>run_loop\<close>, a \<open>partial_function\<close>, so that running forever is the value
    \<open>Diverge\<close>; no fuel is used anywhere.  Its rules are one for invariants and one for measures.
  \<^item> \<open>Float64\<close>: the \<open>f64\<close> operations of the price code, rationals rounded to the nearest double, ties to
    even, with infinities and NaN.

  \<^bold>\<open>Venue-independent code\<close> (\<open>src/trading_venue\<close>).
  \<^item> \<open>Venue_Types\<close>: errors (\<open>error.rs\<close>), protocols, requests and results, token metadata
    (\<open>token_info.rs\<close>), the default methods of the trait (\<open>mod.rs\<close>), pool creations.
  \<^item> \<open>Bounds\<close>: \<open>find_boundaries\<close> and its phases.  The two bisections are one locale \<open>bisection\<close>,
    interpreted on both.  Theorems: the bounds are quotable and ordered, tight to 100 atoms when the
    quotable amounts form an interval, the search always returns, and a gap between powers of two is missed.

  \<^bold>\<open>The account cache.\<close>  \<open>Account_Cache\<close>: the contract \<open>accounts_cache\<close> (a batch is answered from one snapshot
  of the chain, in order) and \<open>RpcClientCache\<close>, on which the locale is interpreted.

  \<^bold>\<open>The CLMM core\<close> (\<open>core.rs\<close>).
  \<^item> \<open>Clmm_Types\<close>: the venue record and the interface to the crates; \<open>Tick_Arrays\<close>: both tick array layouts and
    the searches in them, equal to a search for the nearest initialised tick; accounts written in either layout
    are read back.
  \<^item> \<open>Clmm_Nav\<close> and \<open>Clmm_Nav_Properties\<close>: derived addresses and the search across arrays, which ends because
    the bitmaps only move ahead (\<open>advancing\<close>).
  \<^item> \<open>Clmm_Swap\<close>, \<open>Clmm_Swap_Properties\<close>, \<open>Clmm_Termination\<close>: fees, the swap loop, prices and quotes; no unit of
    input is lost, and the loop ends: every turn but the last crosses a tick, and ticks only move one way
    within \<open>MIN_TICK\<close> and \<open>MAX_TICK\<close>.
  \<^item> \<open>Clmm_State\<close>, \<open>Clmm_State_Properties\<close>: construction, account lists, \<open>update_state\<close> step by step, swap
    instructions.  \<open>loaded\<close> is the abstract specification of an update; the code meets it in both directions.
  \<^item> \<open>Clmm_Properties\<close>: the properties of the core.

  \<^bold>\<open>The Byreal venue\<close> (\<open>mod.rs\<close>).
  \<^item> \<open>Byreal_Venue\<close>: the implementation of the trait; \<open>Byreal_Properties\<close>: its invariant \<open>venue_inv\<close>, the
    interpretation of the route builder's contract \<open>swap_venue\<close>, and what the two fetches read, proved in
    the locale \<open>accounts_cache\<close>.
  \<^item> \<open>Venue_Lifecycle\<close>: venue and cache as a state machine (\<open>venue_step\<close>, \<open>venue_runs\<close>) of updates, quotes,
    instructions, cache resets and chain changes, with its invariants by rule induction.
  \<^item> \<open>Venue_Properties\<close>: an update reaches the state its finally required accounts determine; when it
    succeeds; bounds are quotable by the venue itself; quotes belong to their requests; a leg built
    from the venue reaches it unchanged.

  \<^bold>\<open>Route builder and program.\<close>
  \<^item> \<open>Route_Wire\<close>: both sides of the instruction data, each encoder paired with its reader in the locale
    \<open>codec\<close>; \<open>Swap_Route\<close>: building a leg from any venue that meets \<open>swap_venue\<close>.
  \<^item> \<open>Program_Accounts\<close>, \<open>Program_Route\<close>: the program's account layer and its handler \<open>execute\<close>, over a ledger
    that only the invoked programs change; the runtime that runs them is a parameter, so every theorem
    holds whatever they do.  The TitanPDA bitmap is an interpretation of \<open>bounded_bitset\<close>.
  \<^item> \<open>Program_Guarantees\<close>, \<open>Program_Properties\<close>: custody is kept, exactly two own transfers, each leg
    gets its accounts and its weighted share, no panic, arguments are checked before any invocation.
  \<^item> \<open>Program_Settlement\<close>: what a route does to balances under the documented laws of the token programs
    (\<open>token_laws\<close>), phase by phase and composed: the user pays the spent amount and is paid the TitanPDA's
    gain, which ends where it started; legs that take no more than offered (\<open>fair_legs\<close>) never trip the final
    check; and no minimum output is enforced, so a venue that pays nothing does not fail the route.
  \<^item> \<open>Route_Execution\<close>: builder, wire format and program composed: the venue invocations of a successful route
    are the swap instructions of the venues its legs were built from.

  \<^bold>\<open>Tests.\<close>  \<open>Source_Tests\<close> states the crate's and the program's unit tests, and the pool-creation tests under
  \<open>src/tests\<close>, as lemmas on the model.

  \<^bold>\<open>Parameters.\<close>  Code outside \<open>src/\<close> is a parameter: the \<open>byreal_clmm\<close> crate (bitmaps, tick, price and fee
  arithmetic, one swap step), Pyth, the SPL crates, Anchor's and bincode's decoders, address derivation,
  the RPC client, and the Solana runtime.  They are the records \<open>tick_lib\<close>, \<open>pool_lib\<close>, \<open>math_lib\<close>, \<open>codec_lib\<close>,
  \<open>spl_lib\<close>, \<open>RpcClient\<close> and the program's environment.  What a theorem needs of them is a named predicate
  (\<open>array_laws\<close>, \<open>bitmap_laws\<close>, \<open>math_laws\<close>, \<open>dyn_laws\<close> and \<open>advancing\<close>, together \<open>crate_laws\<close>; \<open>fee_laws\<close>,
  \<open>rpc_serves\<close>, \<open>swap_data_law\<close>, \<open>token_laws\<close>, \<open>isolated\<close>, \<open>fair_legs\<close>, \<open>cpi_failures\<close>) on documented
  behaviour.  \<open>venue_placed\<close> is not a law of a crate but a condition on the loaded state, that pool and
  arrays are as the pool program writes them: the pool's price, tick and spacing fit together, and the
  ticks of an array lie at its own offsets; \<open>swap_laws\<close> is \<open>crate_laws\<close> with \<open>venue_placed\<close>.  The lookups of
  this code in fixed and in dynamic arrays are not assumed to behave, they are proved to.
  The three directional helpers of the crate's \<open>PoolState\<close> (first array, next array, overflow of the default
  bitmap) are taken to give a value or an error, never a panic; its arithmetic, its bitmap
  lookups and its searches in dynamic arrays may panic.  \<open>Demo_Pool\<close> and \<open>Demo_Venue\<close> hold a concrete instance that
  meets these laws, with a fixed and a dynamic array (\<open>demo_both\<close>), and its accounts on
  a small chain, and a run from the pool account through an update to a leg of a route; \<open>honest_runtime\<close> and
  \<open>e2e_runtime\<close> are token programs and a venue on which whole routes are executed.

  \<^bold>\<open>Arithmetic.\<close>  The crate is built without overflow checks and the program with them
  (\<open>overflow-checks\<close> in the two \<open>Cargo.toml\<close>s): in the venue \<open>+\<close> and \<open>-\<close> wrap, in the program they panic.

  \<^bold>\<open>Not modelled.\<close>  Anchor's account validation in front of the handlers, \<open>debug_logging\<close>, and
  the \<open>Display\<close> texts of \<open>TradingVenueError\<close> (pure text); \<open>AddressLookupTableTrait\<close>, which nothing implements; the
  conversions into \<open>ErrorInfo\<close>, which are its constructors; concurrency: an \<open>async\<close> method runs to its end,
  and the \<open>DashMap\<close> is accessed by one task at a time; \<open>HashMap\<close> order, on which no modelled result depends.
\<close>

end
